theory Spec2Isabelle
  imports Complex_Main "HOL-Library.Word" "HOL-Library.Log_Nat"
begin

section \<open>The float64 arithmetic of the order service\<close>

text \<open>
  Prices, line totals and the three order totals are Go \<^verbatim>\<open>float64\<close> values. A finite
  value is the rational number it denotes; every operation computes the exact result
  and rounds it to the nearest binary64 value, ties to even (53 significant bits, least
  exponent \<open>-1074\<close>, overflow to an infinity from \<open>2^1024\<close>). The two zeros are one
  value: no operation of the service tells them apart.
\<close>

datatype float64 = Fin rat | PInf | NInf | NaN

definition pow2 :: "int \<Rightarrow> rat" where
  "pow2 e = (if 0 \<le> e then 2 ^ nat e else 1 / 2 ^ nat (- e))"

definition ilog2 :: "rat \<Rightarrow> int" where
  "ilog2 a = (if 1 \<le> a then bitlen \<lfloor>a\<rfloor> - 1
              else (let k = bitlen \<lfloor>1 / a\<rfloor> - 1
                    in if a * pow2 k = 1 then - k else - k - 1))"

definition round_half_even :: "rat \<Rightarrow> int" where
  "round_half_even q = (let f = \<lfloor>q\<rfloor>; d = q - of_int f in
     if d < 1 / 2 then f else if 1 / 2 < d then f + 1 else if even f then f else f + 1)"

definition round_mag :: "rat \<Rightarrow> rat" where
  "round_mag a = (let u = max (ilog2 a) (- 1022) - 52
                  in of_int (round_half_even (a / pow2 u)) * pow2 u)"

definition rnd :: "rat \<Rightarrow> float64" where
  "rnd r = (if r = 0 then Fin 0
            else let v = round_mag \<bar>r\<bar> in
              if pow2 1024 \<le> v then (if 0 < r then PInf else NInf)
              else Fin (if 0 < r then v else - v))"

fun fneg :: "float64 \<Rightarrow> float64" where
  "fneg (Fin a) = Fin (- a)"
| "fneg PInf = NInf"
| "fneg NInf = PInf"
| "fneg NaN = NaN"

fun fadd :: "float64 \<Rightarrow> float64 \<Rightarrow> float64" where
  "fadd (Fin a) (Fin b) = rnd (a + b)"
| "fadd NaN _ = NaN"
| "fadd _ NaN = NaN"
| "fadd PInf NInf = NaN"
| "fadd NInf PInf = NaN"
| "fadd PInf _ = PInf"
| "fadd _ PInf = PInf"
| "fadd NInf _ = NInf"
| "fadd _ NInf = NInf"

definition fsub :: "float64 \<Rightarrow> float64 \<Rightarrow> float64" where
  "fsub a b = fadd a (fneg b)"

fun fsign :: "float64 \<Rightarrow> int" where
  "fsign (Fin a) = (if 0 < a then 1 else if a < 0 then - 1 else 0)"
| "fsign PInf = 1"
| "fsign NInf = - 1"
| "fsign NaN = 0"

fun fmul :: "float64 \<Rightarrow> float64 \<Rightarrow> float64" where
  "fmul (Fin a) (Fin b) = rnd (a * b)"
| "fmul NaN _ = NaN"
| "fmul _ NaN = NaN"
| "fmul a b = (if fsign a * fsign b = 0 then NaN else if 0 < fsign a * fsign b then PInf else NInf)"

text \<open>Go's \<^verbatim>\<open><\<close> on float64: false whenever an operand is NaN.\<close>

fun flt :: "float64 \<Rightarrow> float64 \<Rightarrow> bool" where
  "flt (Fin a) (Fin b) = (a < b)"
| "flt NaN _ = False"
| "flt _ NaN = False"
| "flt _ NInf = False"
| "flt PInf _ = False"
| "flt NInf _ = True"
| "flt _ PInf = True"

text \<open>The conversion \<^verbatim>\<open>float64(q)\<close> of an int64.\<close>

definition float64_of_int64 :: "int \<Rightarrow> float64" where
  "float64_of_int64 q = rnd (of_int q)"

text \<open>A finite float64 is well formed when rounding leaves it as it is.\<close>

fun is_float64 :: "float64 \<Rightarrow> bool" where
  "is_float64 (Fin a) = (rnd a = Fin a)"
| "is_float64 _ = True"

section \<open>Errors and entities\<close>

text \<open>
  The sentinel errors are the keys of \<^verbatim>\<open>errorStatusMap\<close> that the services return;
  \<open>ErrOther\<close> is any other error value (a driver, cache or JSON error), with its message.
\<close>

datatype error =
    ErrInternal
  | ErrDataNotFound
  | ErrConflictingData
  | ErrNoUpdatedData
  | ErrInsufficientStock
  | ErrInsufficientPayment
  | ErrOther string

text \<open>
  Ids are uint64 and stock and quantity are int64; the services only compare and convert
  them, so they are \<open>nat\<close> and \<open>int\<close> here. The paging arguments, on which the product
  repository computes, are 64-bit words. Times are seconds; UUIDs are their text.
\<close>

record Category =
  Category_ID :: nat
  Category_Name :: string

record User =
  User_ID :: nat
  User_Name :: string
  User_Email :: string

record Payment =
  Payment_ID :: nat
  Payment_Name :: string
  Payment_Type :: string
  Payment_Logo :: string

record Product =
  Product_ID :: nat
  Product_CategoryID :: nat
  Product_SKU :: string
  Product_Name :: string
  Stock :: int
  Price :: float64
  Image :: string
  Product_CreatedAt :: nat
  Product_UpdatedAt :: nat
  Product_Category :: "Category option"

record OrderProduct =
  OrderProduct_ID :: nat
  OrderID :: nat
  ProductID :: nat
  Quantity :: int
  OrderProduct_TotalPrice :: float64
  OrderProduct_CreatedAt :: nat
  OrderProduct_UpdatedAt :: nat
  OrderProduct_Product :: "Product option"

record Order =
  ID :: nat
  UserID :: nat
  PaymentID :: nat
  CustomerName :: string
  TotalPrice :: float64
  TotalPaid :: float64
  TotalReturn :: float64
  ReceiptCode :: string
  CreatedAt :: nat
  UpdatedAt :: nat
  Order_User :: "User option"
  Order_Payment :: "Payment option"
  Products :: "OrderProduct list"

section \<open>The collaborators: storage, cache and codec\<close>

text \<open>Every call a service makes on a repository or on the cache is logged.\<close>

datatype call =
    ProductRepo_GetProductByID nat
  | ProductRepo_ListProducts string nat "64 word" "64 word"
  | CategoryRepo_GetCategoryByID nat
  | CategoryRepo_ListCategories "64 word" "64 word"
  | UserRepo_GetUserByID nat
  | UserRepo_ListUsers "64 word" "64 word"
  | PaymentRepo_GetPaymentByID nat
  | PaymentRepo_ListPayments "64 word" "64 word"
  | OrderRepo_CreateOrder Order
  | OrderRepo_GetOrderByID nat
  | OrderRepo_ListOrders "64 word" "64 word"
  | Cache_Get string
  | Cache_Set string string
  | Cache_DeleteByPrefix string

text \<open>
  The world a request runs in: the five tables, the cache, the log of calls made so far,
  and a schedule of infrastructure failures: \<open>fault w n = Some msg\<close> makes the call
  number \<open>n\<close> (counting from the start of the log) fail with the error \<open>msg\<close>, whatever
  it is. The last four fields are what the database generates for a new order.
\<close>

record world =
  products :: "Product list"
  categories :: "Category list"
  users :: "User list"
  payments :: "Payment list"
  orders :: "Order list"
  cache :: "(string \<times> string) list"
  calls :: "call list"
  fault :: "nat \<Rightarrow> string option"
  next_id :: nat
  next_line_id :: nat
  now :: nat
  new_receipt :: string

definition logged :: "call \<Rightarrow> world \<Rightarrow> world" where
  "logged c w = w\<lparr>calls := calls w @ [c]\<rparr>"

definition failure :: "world \<Rightarrow> string option" where
  "failure w = fault w (length (calls w))"

subsection \<open>The product repository (postgres)\<close>

text \<open>
  \<^verbatim>\<open>GetProductByID\<close>: the query for the row with this id. A failure of the query is
  returned as it is, no row is \<open>ErrDataNotFound\<close>; the scan fills every column and leaves
  \<^verbatim>\<open>Category\<close> nil.
\<close>

definition GetProductByID :: "nat \<Rightarrow> world \<Rightarrow> (error + Product) \<times> world" where
  "GetProductByID i w =
     (case failure w of
        Some msg \<Rightarrow> (Inl (ErrOther msg), logged (ProductRepo_GetProductByID i) w)
      | None \<Rightarrow>
          (case find (\<lambda>p. Product_ID p = i) (products w) of
             None \<Rightarrow> (Inl ErrDataNotFound, logged (ProductRepo_GetProductByID i) w)
           | Some p \<Rightarrow>
               (Inr (p\<lparr>Product_Category := None\<rparr>), logged (ProductRepo_GetProductByID i) w)))"

text \<open>
  \<^verbatim>\<open>ListProducts\<close> builds one query: ordered by id, \<^verbatim>\<open>Limit(limit)\<close>,
  \<^verbatim>\<open>Offset((skip - 1) * limit)\<close> in uint64 arithmetic, and the two optional filters.
\<close>

record product_query =
  q_limit :: "64 word"
  q_offset :: "64 word"
  q_category :: "nat option"
  q_search :: "string option"

definition ListProducts_query :: "string \<Rightarrow> nat \<Rightarrow> 64 word \<Rightarrow> 64 word \<Rightarrow> product_query" where
  "ListProducts_query search categoryId skip limit =
     \<lparr>q_limit = limit,
      q_offset = (skip - 1) * limit,
      q_category = (if categoryId \<noteq> 0 then Some categoryId else None),
      q_search = (if search \<noteq> [] then Some search else None)\<rparr>"

text \<open>
  What the database answers: the rows that pass the filters, in id order, without the
  first \<open>q_offset\<close> of them and at most \<open>q_limit\<close> long. The case-insensitive pattern
  match of \<^verbatim>\<open>ILIKE\<close> is the database's; it is the parameter \<open>ilike\<close>.
\<close>

definition run_product_query ::
  "(string \<Rightarrow> string \<Rightarrow> bool) \<Rightarrow> product_query \<Rightarrow> Product list \<Rightarrow> Product list" where
  "run_product_query ilike q rows =
     take (unat (q_limit q)) (drop (unat (q_offset q))
       (filter (\<lambda>p. (case q_category q of None \<Rightarrow> True | Some c \<Rightarrow> Product_CategoryID p = c) \<and>
                     (case q_search q of None \<Rightarrow> True | Some s \<Rightarrow> ilike s (Product_Name p)))
          (sort_key Product_ID rows)))"

definition ListProducts ::
  "(string \<Rightarrow> string \<Rightarrow> bool) \<Rightarrow> string \<Rightarrow> nat \<Rightarrow> 64 word \<Rightarrow> 64 word \<Rightarrow> world
     \<Rightarrow> (error + Product list) \<times> world" where
  "ListProducts ilike search categoryId skip limit w =
     (case failure w of
        Some msg \<Rightarrow> (Inl (ErrOther msg), logged (ProductRepo_ListProducts search categoryId skip limit) w)
      | None \<Rightarrow>
          (Inr (map (\<lambda>p. p\<lparr>Product_Category := None\<rparr>)
                  (run_product_query ilike (ListProducts_query search categoryId skip limit) (products w))),
           logged (ProductRepo_ListProducts search categoryId skip limit) w))"

subsection \<open>The other repositories and the cache\<close>

text \<open>
  Modelled from the spec: the category, user, payment and order repositories and the cache
  adapter are not among the sources. Section 6 gives their contracts: get by id with a
  typed not-found, list with the plain offset \<open>skip\<close> (section 4.3), one call that stores an
  order with its lines, and a cache with get, set and delete by prefix. The stored order
  gets its id, receipt code and times from the database (section 3); nothing else of it
  changes, and no other table is written.
\<close>

definition GetCategoryByID :: "nat \<Rightarrow> world \<Rightarrow> (error + Category) \<times> world" where
  "GetCategoryByID i w =
     (case failure w of
        Some msg \<Rightarrow> (Inl (ErrOther msg), logged (CategoryRepo_GetCategoryByID i) w)
      | None \<Rightarrow>
          (case find (\<lambda>c. Category_ID c = i) (categories w) of
             None \<Rightarrow> (Inl ErrDataNotFound, logged (CategoryRepo_GetCategoryByID i) w)
           | Some c \<Rightarrow> (Inr c, logged (CategoryRepo_GetCategoryByID i) w)))"

definition GetUserByID :: "nat \<Rightarrow> world \<Rightarrow> (error + User) \<times> world" where
  "GetUserByID i w =
     (case failure w of
        Some msg \<Rightarrow> (Inl (ErrOther msg), logged (UserRepo_GetUserByID i) w)
      | None \<Rightarrow>
          (case find (\<lambda>u. User_ID u = i) (users w) of
             None \<Rightarrow> (Inl ErrDataNotFound, logged (UserRepo_GetUserByID i) w)
           | Some u \<Rightarrow> (Inr u, logged (UserRepo_GetUserByID i) w)))"

definition GetPaymentByID :: "nat \<Rightarrow> world \<Rightarrow> (error + Payment) \<times> world" where
  "GetPaymentByID i w =
     (case failure w of
        Some msg \<Rightarrow> (Inl (ErrOther msg), logged (PaymentRepo_GetPaymentByID i) w)
      | None \<Rightarrow>
          (case find (\<lambda>p. Payment_ID p = i) (payments w) of
             None \<Rightarrow> (Inl ErrDataNotFound, logged (PaymentRepo_GetPaymentByID i) w)
           | Some p \<Rightarrow> (Inr p, logged (PaymentRepo_GetPaymentByID i) w)))"

definition GetOrderByID :: "nat \<Rightarrow> world \<Rightarrow> (error + Order) \<times> world" where
  "GetOrderByID i w =
     (case failure w of
        Some msg \<Rightarrow> (Inl (ErrOther msg), logged (OrderRepo_GetOrderByID i) w)
      | None \<Rightarrow>
          (case find (\<lambda>ord. ID ord = i) (orders w) of
             None \<Rightarrow> (Inl ErrDataNotFound, logged (OrderRepo_GetOrderByID i) w)
           | Some ord \<Rightarrow> (Inr ord, logged (OrderRepo_GetOrderByID i) w)))"

definition page :: "64 word \<Rightarrow> 64 word \<Rightarrow> 'a list \<Rightarrow> 'a list" where
  "page skip limit rows = take (unat limit) (drop (unat skip) rows)"

definition ListCategories_repo :: "64 word \<Rightarrow> 64 word \<Rightarrow> world \<Rightarrow> (error + Category list) \<times> world" where
  "ListCategories_repo skip limit w =
     (case failure w of
        Some msg \<Rightarrow> (Inl (ErrOther msg), logged (CategoryRepo_ListCategories skip limit) w)
      | None \<Rightarrow> (Inr (page skip limit (sort_key Category_ID (categories w))),
                 logged (CategoryRepo_ListCategories skip limit) w))"

definition ListUsers_repo :: "64 word \<Rightarrow> 64 word \<Rightarrow> world \<Rightarrow> (error + User list) \<times> world" where
  "ListUsers_repo skip limit w =
     (case failure w of
        Some msg \<Rightarrow> (Inl (ErrOther msg), logged (UserRepo_ListUsers skip limit) w)
      | None \<Rightarrow> (Inr (page skip limit (sort_key User_ID (users w))),
                 logged (UserRepo_ListUsers skip limit) w))"

definition ListPayments_repo :: "64 word \<Rightarrow> 64 word \<Rightarrow> world \<Rightarrow> (error + Payment list) \<times> world" where
  "ListPayments_repo skip limit w =
     (case failure w of
        Some msg \<Rightarrow> (Inl (ErrOther msg), logged (PaymentRepo_ListPayments skip limit) w)
      | None \<Rightarrow> (Inr (page skip limit (sort_key Payment_ID (payments w))),
                 logged (PaymentRepo_ListPayments skip limit) w))"

definition ListOrders_repo :: "64 word \<Rightarrow> 64 word \<Rightarrow> world \<Rightarrow> (error + Order list) \<times> world" where
  "ListOrders_repo skip limit w =
     (case failure w of
        Some msg \<Rightarrow> (Inl (ErrOther msg), logged (OrderRepo_ListOrders skip limit) w)
      | None \<Rightarrow> (Inr (page skip limit (sort_key ID (orders w))),
                 logged (OrderRepo_ListOrders skip limit) w))"

definition stored_line :: "world \<Rightarrow> nat \<times> OrderProduct \<Rightarrow> OrderProduct" where
  "stored_line w kl =
     (snd kl)\<lparr>OrderProduct_ID := next_line_id w + fst kl, OrderID := next_id w,
              OrderProduct_CreatedAt := now w, OrderProduct_UpdatedAt := now w\<rparr>"

definition stored_order :: "world \<Rightarrow> Order \<Rightarrow> Order" where
  "stored_order w ord =
     ord\<lparr>ID := next_id w, ReceiptCode := new_receipt w, CreatedAt := now w, UpdatedAt := now w,
         Products := map (stored_line w) (enumerate 0 (Products ord))\<rparr>"

definition CreateOrder_repo :: "Order \<Rightarrow> world \<Rightarrow> (error + Order) \<times> world" where
  "CreateOrder_repo ord w =
     (case failure w of
        Some msg \<Rightarrow> (Inl (ErrOther msg), logged (OrderRepo_CreateOrder ord) w)
      | None \<Rightarrow>
          (Inr (stored_order w ord),
           logged (OrderRepo_CreateOrder ord)
             (w\<lparr>orders := orders w @ [stored_order w ord],
                next_id := next_id w + 1,
                next_line_id := next_line_id w + length (Products ord)\<rparr>)))"

definition cache_Get :: "string \<Rightarrow> world \<Rightarrow> (error + string) \<times> world" where
  "cache_Get key w =
     (case failure w of
        Some msg \<Rightarrow> (Inl (ErrOther msg), logged (Cache_Get key) w)
      | None \<Rightarrow>
          (case map_of (cache w) key of
             None \<Rightarrow> (Inl (ErrOther ''redis: nil''), logged (Cache_Get key) w)
           | Some blob \<Rightarrow> (Inr blob, logged (Cache_Get key) w)))"

definition cache_Set :: "string \<Rightarrow> string \<Rightarrow> world \<Rightarrow> error option \<times> world" where
  "cache_Set key blob w =
     (case failure w of
        Some msg \<Rightarrow> (Some (ErrOther msg), logged (Cache_Set key blob) w)
      | None \<Rightarrow>
          (None, logged (Cache_Set key blob)
                   (w\<lparr>cache := (key, blob) # filter (\<lambda>kv. fst kv \<noteq> key) (cache w)\<rparr>)))"

definition key_matches :: "string \<Rightarrow> string \<Rightarrow> bool" where
  "key_matches pattern key =
     (case rev pattern of
        c # r \<Rightarrow> if c = CHR ''*'' then take (length r) key = rev r else key = pattern
      | [] \<Rightarrow> key = pattern)"

definition cache_DeleteByPrefix :: "string \<Rightarrow> world \<Rightarrow> error option \<times> world" where
  "cache_DeleteByPrefix pattern w =
     (case failure w of
        Some msg \<Rightarrow> (Some (ErrOther msg), logged (Cache_DeleteByPrefix pattern) w)
      | None \<Rightarrow>
          (None, logged (Cache_DeleteByPrefix pattern)
                   (w\<lparr>cache := filter (\<lambda>kv. \<not> key_matches pattern (fst kv)) (cache w)\<rparr>)))"

subsection \<open>Cache keys and the codec\<close>

text \<open>
  \<^verbatim>\<open>cmutil.GenerateCacheKey\<close>, \<^verbatim>\<open>GenerateCacheKeyParams\<close>, \<^verbatim>\<open>Serialize\<close> and
  \<^verbatim>\<open>Deserialize\<close> are not among the sources; the services are given them. A decoder
  returns the decoded value or its own error.
\<close>

datatype any = Uint64 "64 word" | IdOf nat | Str string

record codec =
  GenerateCacheKey :: "string \<Rightarrow> any \<Rightarrow> string"
  GenerateCacheKeyParams :: "any list \<Rightarrow> string"
  Serialize_Order :: "Order \<Rightarrow> error + string"
  Deserialize_Order :: "string \<Rightarrow> error + Order"
  Serialize_Orders :: "Order list \<Rightarrow> error + string"
  Deserialize_Orders :: "string \<Rightarrow> error + Order list"
  Serialize_Product :: "Product \<Rightarrow> error + string"
  Deserialize_Product :: "string \<Rightarrow> error + Product"
  Serialize_Products :: "Product list \<Rightarrow> error + string"
  Deserialize_Products :: "string \<Rightarrow> error + Product list"
  Serialize_Category :: "Category \<Rightarrow> error + string"
  Deserialize_Category :: "string \<Rightarrow> error + Category"
  Serialize_Categories :: "Category list \<Rightarrow> error + string"
  Deserialize_Categories :: "string \<Rightarrow> error + Category list"
  Serialize_User :: "User \<Rightarrow> error + string"
  Deserialize_User :: "string \<Rightarrow> error + User"
  Serialize_Users :: "User list \<Rightarrow> error + string"
  Deserialize_Users :: "string \<Rightarrow> error + User list"
  Serialize_Payment :: "Payment \<Rightarrow> error + string"
  Deserialize_Payment :: "string \<Rightarrow> error + Payment"
  Serialize_Payments :: "Payment list \<Rightarrow> error + string"
  Deserialize_Payments :: "string \<Rightarrow> error + Payment list"

section \<open>The order service\<close>

text \<open>
  The first loop of \<^verbatim>\<open>CreateOrder\<close>: look the product of each line up, check its stock,
  write the line's total and add it to the running total. It stops at the first error.
\<close>

fun CreateOrder_lines ::
  "OrderProduct list \<Rightarrow> float64 \<Rightarrow> world \<Rightarrow> (error + OrderProduct list \<times> float64) \<times> world" where
  "CreateOrder_lines [] totalPrice w = (Inr ([], totalPrice), w)"
| "CreateOrder_lines (orderProduct # rest) totalPrice w =
     (case GetProductByID (ProductID orderProduct) w of
        (Inl err, w1) \<Rightarrow> (Inl err, w1)
      | (Inr product, w1) \<Rightarrow>
          if Stock product < Quantity orderProduct then (Inl ErrInsufficientStock, w1)
          else
            (case CreateOrder_lines rest
                    (fadd totalPrice (fmul (Price product) (float64_of_int64 (Quantity orderProduct)))) w1 of
               (Inl err, w2) \<Rightarrow> (Inl err, w2)
             | (Inr (rest', totalPrice'), w2) \<Rightarrow>
                 (Inr (orderProduct\<lparr>OrderProduct_TotalPrice :=
                         fmul (Price product) (float64_of_int64 (Quantity orderProduct))\<rparr> # rest',
                       totalPrice'), w2)))"

text \<open>
  Lines 45 to 65 of \<^verbatim>\<open>CreateOrder\<close>: the loop from the total 0, the payment check, and the
  order as it is handed to the repository.
\<close>

definition CreateOrder_price :: "Order \<Rightarrow> world \<Rightarrow> (error + Order) \<times> world" where
  "CreateOrder_price ord w =
     (case CreateOrder_lines (Products ord) (Fin 0) w of
        (Inl err, w1) \<Rightarrow> (Inl err, w1)
      | (Inr (lines, totalPrice), w1) \<Rightarrow>
          if flt (TotalPaid ord) totalPrice then (Inl ErrInsufficientPayment, w1)
          else (Inr (ord\<lparr>Products := lines, TotalPrice := totalPrice,
                          TotalReturn := fsub (TotalPaid ord) totalPrice\<rparr>), w1))"

text \<open>The loop that attaches to every line its product and the product's category.\<close>

fun attach_products :: "OrderProduct list \<Rightarrow> world \<Rightarrow> (error + OrderProduct list) \<times> world" where
  "attach_products [] w = (Inr [], w)"
| "attach_products (orderProduct # rest) w =
     (case GetProductByID (ProductID orderProduct) w of
        (Inl err, w1) \<Rightarrow> (Inl err, w1)
      | (Inr product, w1) \<Rightarrow>
          (case GetCategoryByID (Product_CategoryID product) w1 of
             (Inl err, w2) \<Rightarrow> (Inl err, w2)
           | (Inr category, w2) \<Rightarrow>
               (case attach_products rest w2 of
                  (Inl err, w3) \<Rightarrow> (Inl err, w3)
                | (Inr rest', w3) \<Rightarrow>
                    (Inr (orderProduct\<lparr>OrderProduct_Product :=
                            Some (product\<lparr>Product_Category := Some category\<rparr>)\<rparr> # rest'), w3))))"

text \<open>User, payment and products of one order (lines 72 to 98, and 139 to 165).\<close>

definition enrich :: "Order \<Rightarrow> world \<Rightarrow> (error + Order) \<times> world" where
  "enrich ord w =
     (case GetUserByID (UserID ord) w of
        (Inl err, w1) \<Rightarrow> (Inl err, w1)
      | (Inr user, w1) \<Rightarrow>
          (case GetPaymentByID (PaymentID ord) w1 of
             (Inl err, w2) \<Rightarrow> (Inl err, w2)
           | (Inr payment, w2) \<Rightarrow>
               (case attach_products (Products ord) w2 of
                  (Inl err, w3) \<Rightarrow> (Inl err, w3)
                | (Inr lines, w3) \<Rightarrow>
                    (Inr (ord\<lparr>Order_User := Some user, Order_Payment := Some payment,
                               Products := lines\<rparr>), w3))))"

text \<open>Lines 72 to 116: what \<^verbatim>\<open>CreateOrder\<close> does with the stored order.\<close>

definition CreateOrder_finish :: "codec \<Rightarrow> Order \<Rightarrow> world \<Rightarrow> (error + Order) \<times> world" where
  "CreateOrder_finish cd ord w =
     (case enrich ord w of
        (Inl err, w1) \<Rightarrow> (Inl err, w1)
      | (Inr ord1, w1) \<Rightarrow>
          (case cache_DeleteByPrefix ''orders:*'' w1 of
             (Some err, w2) \<Rightarrow> (Inl err, w2)
           | (None, w2) \<Rightarrow>
               (case Serialize_Order cd ord1 of
                  Inl err \<Rightarrow> (Inl err, w2)
                | Inr orderSerialized \<Rightarrow>
                    (case cache_Set (GenerateCacheKey cd ''order'' (IdOf (ID ord1))) orderSerialized w2 of
                       (Some err, w3) \<Rightarrow> (Inl err, w3)
                     | (None, w3) \<Rightarrow> (Inr ord1, w3)))))"

definition CreateOrder :: "codec \<Rightarrow> Order \<Rightarrow> world \<Rightarrow> (error + Order) \<times> world" where
  "CreateOrder cd ord w =
     (case CreateOrder_price ord w of
        (Inl err, w1) \<Rightarrow> (Inl err, w1)
      | (Inr ord1, w1) \<Rightarrow>
          (case CreateOrder_repo ord1 w1 of
             (Inl err, w2) \<Rightarrow> (Inl err, w2)
           | (Inr ord2, w2) \<Rightarrow> CreateOrder_finish cd ord2 w2))"

definition GetOrder :: "codec \<Rightarrow> nat \<Rightarrow> world \<Rightarrow> (error + Order) \<times> world" where
  "GetOrder cd i w =
     (case cache_Get (GenerateCacheKey cd ''order'' (IdOf i)) w of
        (Inr cachedOrder, w1) \<Rightarrow>
          (case Deserialize_Order cd cachedOrder of
             Inl err \<Rightarrow> (Inl err, w1)
           | Inr ord \<Rightarrow> (Inr ord, w1))
      | (Inl _, w1) \<Rightarrow>
          (case GetOrderByID i w1 of
             (Inl err, w2) \<Rightarrow> (Inl err, w2)
           | (Inr ord, w2) \<Rightarrow>
               (case enrich ord w2 of
                  (Inl err, w3) \<Rightarrow> (Inl err, w3)
                | (Inr ord1, w3) \<Rightarrow>
                    (case Serialize_Order cd ord1 of
                       Inl err \<Rightarrow> (Inl err, w3)
                     | Inr orderSerialized \<Rightarrow>
                         (case cache_Set (GenerateCacheKey cd ''order'' (IdOf i)) orderSerialized w3 of
                            (Some err, w4) \<Rightarrow> (Inl err, w4)
                          | (None, w4) \<Rightarrow> (Inr ord1, w4))))))"

text \<open>The two loops of \<^verbatim>\<open>ListOrders\<close>: users and payments first, then the products.\<close>

fun attach_users_payments :: "Order list \<Rightarrow> world \<Rightarrow> (error + Order list) \<times> world" where
  "attach_users_payments [] w = (Inr [], w)"
| "attach_users_payments (ord # rest) w =
     (case GetUserByID (UserID ord) w of
        (Inl err, w1) \<Rightarrow> (Inl err, w1)
      | (Inr user, w1) \<Rightarrow>
          (case GetPaymentByID (PaymentID ord) w1 of
             (Inl err, w2) \<Rightarrow> (Inl err, w2)
           | (Inr payment, w2) \<Rightarrow>
               (case attach_users_payments rest w2 of
                  (Inl err, w3) \<Rightarrow> (Inl err, w3)
                | (Inr rest', w3) \<Rightarrow>
                    (Inr (ord\<lparr>Order_User := Some user, Order_Payment := Some payment\<rparr> # rest'), w3))))"

fun attach_all_products :: "Order list \<Rightarrow> world \<Rightarrow> (error + Order list) \<times> world" where
  "attach_all_products [] w = (Inr [], w)"
| "attach_all_products (ord # rest) w =
     (case attach_products (Products ord) w of
        (Inl err, w1) \<Rightarrow> (Inl err, w1)
      | (Inr lines, w1) \<Rightarrow>
          (case attach_all_products rest w1 of
             (Inl err, w2) \<Rightarrow> (Inl err, w2)
           | (Inr rest', w2) \<Rightarrow> (Inr (ord\<lparr>Products := lines\<rparr> # rest'), w2)))"

definition ListOrders :: "codec \<Rightarrow> 64 word \<Rightarrow> 64 word \<Rightarrow> world \<Rightarrow> (error + Order list) \<times> world" where
  "ListOrders cd skip limit w =
     (case cache_Get (GenerateCacheKey cd ''orders''
                        (Str (GenerateCacheKeyParams cd [Uint64 skip, Uint64 limit]))) w of
        (Inr cachedOrders, w1) \<Rightarrow>
          (case Deserialize_Orders cd cachedOrders of
             Inl err \<Rightarrow> (Inl err, w1)
           | Inr ords \<Rightarrow> (Inr ords, w1))
      | (Inl _, w1) \<Rightarrow>
          (case ListOrders_repo skip limit w1 of
             (Inl err, w2) \<Rightarrow> (Inl err, w2)
           | (Inr ords, w2) \<Rightarrow>
               (case attach_users_payments ords w2 of
                  (Inl err, w3) \<Rightarrow> (Inl err, w3)
                | (Inr ords1, w3) \<Rightarrow>
                    (case attach_all_products ords1 w3 of
                       (Inl err, w4) \<Rightarrow> (Inl err, w4)
                     | (Inr ords2, w4) \<Rightarrow>
                         (case Serialize_Orders cd ords2 of
                            Inl err \<Rightarrow> (Inl err, w4)
                          | Inr ordersSerialized \<Rightarrow>
                              (case cache_Set (GenerateCacheKey cd ''orders''
                                      (Str (GenerateCacheKeyParams cd [Uint64 skip, Uint64 limit])))
                                      ordersSerialized w4 of
                                 (Some err, w5) \<Rightarrow> (Inl err, w5)
                               | (None, w5) \<Rightarrow> (Inr ords2, w5)))))))"

section \<open>The category, user, payment and product services: the read paths\<close>

text \<open>
  \<^verbatim>\<open>CategoryService\<close>, \<^verbatim>\<open>UserService\<close> and \<^verbatim>\<open>PaymentService\<close> replace every error but
  \<open>ErrDataNotFound\<close> by \<open>ErrInternal\<close>; \<^verbatim>\<open>ProductService\<close>, like \<^verbatim>\<open>OrderService\<close>,
  returns the errors it gets.
\<close>

definition GetCategory :: "codec \<Rightarrow> nat \<Rightarrow> world \<Rightarrow> (error + Category) \<times> world" where
  "GetCategory cd i w =
     (case cache_Get (GenerateCacheKey cd ''category'' (IdOf i)) w of
        (Inr cachedCategory, w1) \<Rightarrow>
          (case Deserialize_Category cd cachedCategory of
             Inl err \<Rightarrow> (Inl ErrInternal, w1)
           | Inr category \<Rightarrow> (Inr category, w1))
      | (Inl _, w1) \<Rightarrow>
          (case GetCategoryByID i w1 of
             (Inl err, w2) \<Rightarrow>
               if err = ErrDataNotFound then (Inl err, w2) else (Inl ErrInternal, w2)
           | (Inr category, w2) \<Rightarrow>
               (case Serialize_Category cd category of
                  Inl err \<Rightarrow> (Inl ErrInternal, w2)
                | Inr categorySerialized \<Rightarrow>
                    (case cache_Set (GenerateCacheKey cd ''category'' (IdOf i)) categorySerialized w2 of
                       (Some err, w3) \<Rightarrow> (Inl ErrInternal, w3)
                     | (None, w3) \<Rightarrow> (Inr category, w3)))))"

definition ListCategories ::
  "codec \<Rightarrow> 64 word \<Rightarrow> 64 word \<Rightarrow> world \<Rightarrow> (error + Category list) \<times> world" where
  "ListCategories cd skip limit w =
     (case cache_Get (GenerateCacheKey cd ''categories''
                        (Str (GenerateCacheKeyParams cd [Uint64 skip, Uint64 limit]))) w of
        (Inr cachedCategories, w1) \<Rightarrow>
          (case Deserialize_Categories cd cachedCategories of
             Inl err \<Rightarrow> (Inl ErrInternal, w1)
           | Inr cs \<Rightarrow> (Inr cs, w1))
      | (Inl _, w1) \<Rightarrow>
          (case ListCategories_repo skip limit w1 of
             (Inl err, w2) \<Rightarrow> (Inl ErrInternal, w2)
           | (Inr cs, w2) \<Rightarrow>
               (case Serialize_Categories cd cs of
                  Inl err \<Rightarrow> (Inl ErrInternal, w2)
                | Inr categoriesSerialized \<Rightarrow>
                    (case cache_Set (GenerateCacheKey cd ''categories''
                            (Str (GenerateCacheKeyParams cd [Uint64 skip, Uint64 limit])))
                            categoriesSerialized w2 of
                       (Some err, w3) \<Rightarrow> (Inl ErrInternal, w3)
                     | (None, w3) \<Rightarrow> (Inr cs, w3)))))"

definition GetUser :: "codec \<Rightarrow> nat \<Rightarrow> world \<Rightarrow> (error + User) \<times> world" where
  "GetUser cd i w =
     (case cache_Get (GenerateCacheKey cd ''user'' (IdOf i)) w of
        (Inr cachedUser, w1) \<Rightarrow>
          (case Deserialize_User cd cachedUser of
             Inl err \<Rightarrow> (Inl ErrInternal, w1)
           | Inr user \<Rightarrow> (Inr user, w1))
      | (Inl _, w1) \<Rightarrow>
          (case GetUserByID i w1 of
             (Inl err, w2) \<Rightarrow>
               if err = ErrDataNotFound then (Inl err, w2) else (Inl ErrInternal, w2)
           | (Inr user, w2) \<Rightarrow>
               (case Serialize_User cd user of
                  Inl err \<Rightarrow> (Inl ErrInternal, w2)
                | Inr userSerialized \<Rightarrow>
                    (case cache_Set (GenerateCacheKey cd ''user'' (IdOf i)) userSerialized w2 of
                       (Some err, w3) \<Rightarrow> (Inl ErrInternal, w3)
                     | (None, w3) \<Rightarrow> (Inr user, w3)))))"

definition ListUsers ::
  "codec \<Rightarrow> 64 word \<Rightarrow> 64 word \<Rightarrow> world \<Rightarrow> (error + User list) \<times> world" where
  "ListUsers cd skip limit w =
     (case cache_Get (GenerateCacheKey cd ''users''
                        (Str (GenerateCacheKeyParams cd [Uint64 skip, Uint64 limit]))) w of
        (Inr cachedUsers, w1) \<Rightarrow>
          (case Deserialize_Users cd cachedUsers of
             Inl err \<Rightarrow> (Inl ErrInternal, w1)
           | Inr us \<Rightarrow> (Inr us, w1))
      | (Inl _, w1) \<Rightarrow>
          (case ListUsers_repo skip limit w1 of
             (Inl err, w2) \<Rightarrow> (Inl ErrInternal, w2)
           | (Inr us, w2) \<Rightarrow>
               (case Serialize_Users cd us of
                  Inl err \<Rightarrow> (Inl ErrInternal, w2)
                | Inr usersSerialized \<Rightarrow>
                    (case cache_Set (GenerateCacheKey cd ''users''
                            (Str (GenerateCacheKeyParams cd [Uint64 skip, Uint64 limit])))
                            usersSerialized w2 of
                       (Some err, w3) \<Rightarrow> (Inl ErrInternal, w3)
                     | (None, w3) \<Rightarrow> (Inr us, w3)))))"

definition GetPayment :: "codec \<Rightarrow> nat \<Rightarrow> world \<Rightarrow> (error + Payment) \<times> world" where
  "GetPayment cd i w =
     (case cache_Get (GenerateCacheKey cd ''payment'' (IdOf i)) w of
        (Inr cachedPayment, w1) \<Rightarrow>
          (case Deserialize_Payment cd cachedPayment of
             Inl err \<Rightarrow> (Inl ErrInternal, w1)
           | Inr payment \<Rightarrow> (Inr payment, w1))
      | (Inl _, w1) \<Rightarrow>
          (case GetPaymentByID i w1 of
             (Inl err, w2) \<Rightarrow>
               if err = ErrDataNotFound then (Inl err, w2) else (Inl ErrInternal, w2)
           | (Inr payment, w2) \<Rightarrow>
               (case Serialize_Payment cd payment of
                  Inl err \<Rightarrow> (Inl ErrInternal, w2)
                | Inr paymentSerialized \<Rightarrow>
                    (case cache_Set (GenerateCacheKey cd ''payment'' (IdOf i)) paymentSerialized w2 of
                       (Some err, w3) \<Rightarrow> (Inl ErrInternal, w3)
                     | (None, w3) \<Rightarrow> (Inr payment, w3)))))"

definition ListPayments ::
  "codec \<Rightarrow> 64 word \<Rightarrow> 64 word \<Rightarrow> world \<Rightarrow> (error + Payment list) \<times> world" where
  "ListPayments cd skip limit w =
     (case cache_Get (GenerateCacheKey cd ''payments''
                        (Str (GenerateCacheKeyParams cd [Uint64 skip, Uint64 limit]))) w of
        (Inr cachedPayments, w1) \<Rightarrow>
          (case Deserialize_Payments cd cachedPayments of
             Inl err \<Rightarrow> (Inl ErrInternal, w1)
           | Inr ps \<Rightarrow> (Inr ps, w1))
      | (Inl _, w1) \<Rightarrow>
          (case ListPayments_repo skip limit w1 of
             (Inl err, w2) \<Rightarrow> (Inl ErrInternal, w2)
           | (Inr ps, w2) \<Rightarrow>
               (case Serialize_Payments cd ps of
                  Inl err \<Rightarrow> (Inl ErrInternal, w2)
                | Inr paymentsSerialized \<Rightarrow>
                    (case cache_Set (GenerateCacheKey cd ''payments''
                            (Str (GenerateCacheKeyParams cd [Uint64 skip, Uint64 limit])))
                            paymentsSerialized w2 of
                       (Some err, w3) \<Rightarrow> (Inl ErrInternal, w3)
                     | (None, w3) \<Rightarrow> (Inr ps, w3)))))"

definition GetProduct :: "codec \<Rightarrow> nat \<Rightarrow> world \<Rightarrow> (error + Product) \<times> world" where
  "GetProduct cd i w =
     (case cache_Get (GenerateCacheKey cd ''product'' (IdOf i)) w of
        (Inr cachedProduct, w1) \<Rightarrow>
          (case Deserialize_Product cd cachedProduct of
             Inl err \<Rightarrow> (Inl err, w1)
           | Inr product \<Rightarrow> (Inr product, w1))
      | (Inl _, w1) \<Rightarrow>
          (case GetProductByID i w1 of
             (Inl err, w2) \<Rightarrow> (Inl err, w2)
           | (Inr product, w2) \<Rightarrow>
               (case GetCategoryByID (Product_CategoryID product) w2 of
                  (Inl err, w3) \<Rightarrow> (Inl err, w3)
                | (Inr category, w3) \<Rightarrow>
                    (case Serialize_Product cd (product\<lparr>Product_Category := Some category\<rparr>) of
                       Inl err \<Rightarrow> (Inl err, w3)
                     | Inr productSerialized \<Rightarrow>
                         (case cache_Set (GenerateCacheKey cd ''product'' (IdOf i)) productSerialized w3 of
                            (Some err, w4) \<Rightarrow> (Inl err, w4)
                          | (None, w4) \<Rightarrow>
                              (Inr (product\<lparr>Product_Category := Some category\<rparr>), w4))))))"

fun attach_categories :: "Product list \<Rightarrow> world \<Rightarrow> (error + Product list) \<times> world" where
  "attach_categories [] w = (Inr [], w)"
| "attach_categories (product # rest) w =
     (case GetCategoryByID (Product_CategoryID product) w of
        (Inl err, w1) \<Rightarrow> (Inl err, w1)
      | (Inr category, w1) \<Rightarrow>
          (case attach_categories rest w1 of
             (Inl err, w2) \<Rightarrow> (Inl err, w2)
           | (Inr rest', w2) \<Rightarrow> (Inr (product\<lparr>Product_Category := Some category\<rparr> # rest'), w2)))"

definition ProductService_ListProducts ::
  "(string \<Rightarrow> string \<Rightarrow> bool) \<Rightarrow> codec \<Rightarrow> string \<Rightarrow> nat \<Rightarrow> 64 word \<Rightarrow> 64 word \<Rightarrow> world
     \<Rightarrow> (error + Product list) \<times> world" where
  "ProductService_ListProducts ilike cd search categoryId skip limit w =
     (case cache_Get (GenerateCacheKey cd ''products''
                        (Str (GenerateCacheKeyParams cd
                                [Uint64 skip, Uint64 limit, IdOf categoryId, Str search]))) w of
        (Inr cachedProducts, w1) \<Rightarrow>
          (case Deserialize_Products cd cachedProducts of
             Inl err \<Rightarrow> (Inl err, w1)
           | Inr ps \<Rightarrow> (Inr ps, w1))
      | (Inl _, w1) \<Rightarrow>
          (case ListProducts ilike search categoryId skip limit w1 of
             (Inl err, w2) \<Rightarrow> (Inl err, w2)
           | (Inr ps, w2) \<Rightarrow>
               (case attach_categories ps w2 of
                  (Inl err, w3) \<Rightarrow> (Inl err, w3)
                | (Inr ps1, w3) \<Rightarrow>
                    (case Serialize_Products cd ps1 of
                       Inl err \<Rightarrow> (Inl err, w3)
                     | Inr productsSerialized \<Rightarrow>
                         (case cache_Set (GenerateCacheKey cd ''products''
                                 (Str (GenerateCacheKeyParams cd
                                         [Uint64 skip, Uint64 limit, IdOf categoryId, Str search])))
                                 productsSerialized w3 of
                            (Some err, w4) \<Rightarrow> (Inl err, w4)
                          | (None, w4) \<Rightarrow> (Inr ps1, w4))))))"

section \<open>The HTTP boundary\<close>

text \<open>
  \<^verbatim>\<open>HandleError\<close> takes the status of an error from \<^verbatim>\<open>errorStatusMap\<close> and answers 500
  for an error that is not in the map.
\<close>

fun HandleError_status :: "error \<Rightarrow> nat" where
  "HandleError_status ErrInternal = 500"
| "HandleError_status ErrDataNotFound = 404"
| "HandleError_status ErrConflictingData = 409"
| "HandleError_status ErrNoUpdatedData = 400"
| "HandleError_status ErrInsufficientStock = 400"
| "HandleError_status ErrInsufficientPayment = 400"
| "HandleError_status (ErrOther msg) = 500"

text \<open>
  The binding of \<^verbatim>\<open>orderProductRequest\<close>: \<^verbatim>\<open>product_id\<close> is \<^verbatim>\<open>required,min=1\<close> and
  \<^verbatim>\<open>qty\<close> is \<^verbatim>\<open>required,number\<close>. The rules are those of the validator that gin binds
  with (a dependency of the repository, not among its sources), as its documentation gives
  them: a number is \<^verbatim>\<open>required\<close> when it is not zero, a number has \<^verbatim>\<open>min=n\<close> when it is
  at least \<open>n\<close>, and every value of an integer field is a \<^verbatim>\<open>number\<close>.
\<close>

definition validate_required :: "int \<Rightarrow> bool" where
  "validate_required v = (v \<noteq> 0)"

definition validate_min :: "int \<Rightarrow> int \<Rightarrow> bool" where
  "validate_min n v = (n \<le> v)"

definition validate_number :: "int \<Rightarrow> bool" where
  "validate_number v = True"

definition orderProductRequest_binding :: "nat \<Rightarrow> int \<Rightarrow> bool" where
  "orderProductRequest_binding product_id qty =
     (validate_required (int product_id) \<and> validate_min 1 (int product_id)
      \<and> validate_required qty \<and> validate_number qty)"

section \<open>Vocabulary of the statements\<close>

text \<open>
  The statements below speak of a world through these notions: the row of a product, that
  the next \<open>n\<close> calls on the collaborators do not fail, that a line passes its lookup and
  its stock check, the total the loop writes into a line, the lookups the loop logs, and
  that one world differs from another only by calls added to the log.
\<close>

definition find_product :: "world \<Rightarrow> nat \<Rightarrow> Product option" where
  "find_product w i = find (\<lambda>p. Product_ID p = i) (products w)"

definition answers :: "world \<Rightarrow> nat \<Rightarrow> bool" where
  "answers w n = list_all (\<lambda>k. fault w (length (calls w) + k) = None) [0..<n]"

definition line_passes :: "world \<Rightarrow> OrderProduct \<Rightarrow> bool" where
  "line_passes w l = (case find_product w (ProductID l) of
                        None \<Rightarrow> False | Some p \<Rightarrow> \<not> Stock p < Quantity l)"

definition line_total :: "world \<Rightarrow> OrderProduct \<Rightarrow> float64" where
  "line_total w l = (case find_product w (ProductID l) of
                       None \<Rightarrow> NaN
                     | Some p \<Rightarrow> fmul (Price p) (float64_of_int64 (Quantity l)))"

definition priced :: "world \<Rightarrow> OrderProduct \<Rightarrow> OrderProduct" where
  "priced w l = l\<lparr>OrderProduct_TotalPrice := line_total w l\<rparr>"

definition lookups :: "OrderProduct list \<Rightarrow> call list" where
  "lookups ls = map (\<lambda>l. ProductRepo_GetProductByID (ProductID l)) ls"

definition only_logs :: "world \<Rightarrow> world \<Rightarrow> bool" where
  "only_logs w w' = (\<exists>cs. w' = w\<lparr>calls := calls w @ cs\<rparr>)"

definition find_category :: "world \<Rightarrow> nat \<Rightarrow> Category option" where
  "find_category w i = find (\<lambda>c. Category_ID c = i) (categories w)"

definition find_user :: "world \<Rightarrow> nat \<Rightarrow> User option" where
  "find_user w i = find (\<lambda>u. User_ID u = i) (users w)"

definition find_payment :: "world \<Rightarrow> nat \<Rightarrow> Payment option" where
  "find_payment w i = find (\<lambda>p. Payment_ID p = i) (payments w)"

definition product_resolves :: "world \<Rightarrow> nat \<Rightarrow> bool" where
  "product_resolves w i = (case find_product w i of
                             None \<Rightarrow> False
                           | Some p \<Rightarrow> find_category w (Product_CategoryID p) \<noteq> None)"

definition line_resolves :: "world \<Rightarrow> OrderProduct \<Rightarrow> bool" where
  "line_resolves w l = product_resolves w (ProductID l)"

definition attached :: "world \<Rightarrow> OrderProduct \<Rightarrow> OrderProduct" where
  "attached w l =
     l\<lparr>OrderProduct_Product :=
         (case find_product w (ProductID l) of
            None \<Rightarrow> None
          | Some p \<Rightarrow> Some (p\<lparr>Product_Category := find_category w (Product_CategoryID p)\<rparr>))\<rparr>"

definition order_total :: "world \<Rightarrow> OrderProduct list \<Rightarrow> float64" where
  "order_total w ls = foldl fadd (Fin 0) (map (line_total w) ls)"

definition priced_order :: "world \<Rightarrow> Order \<Rightarrow> Order" where
  "priced_order w ord =
     ord\<lparr>Products := map (priced w) (Products ord),
         TotalPrice := order_total w (Products ord),
         TotalReturn := fsub (TotalPaid ord) (order_total w (Products ord))\<rparr>"

definition created_order :: "world \<Rightarrow> Order \<Rightarrow> Order" where
  "created_order w ord =
     (stored_order w (priced_order w ord))
       \<lparr>Order_User := find_user w (UserID ord),
        Order_Payment := find_payment w (PaymentID ord),
        Products := map (attached w) (Products (stored_order w (priced_order w ord)))\<rparr>"

definition cache_after_create :: "string \<Rightarrow> string \<Rightarrow> (string \<times> string) list \<Rightarrow> (string \<times> string) list" where
  "cache_after_create key blob c =
     (key, blob) # filter (\<lambda>kv. fst kv \<noteq> key) (filter (\<lambda>kv. \<not> key_matches ''orders:*'' (fst kv)) c)"

definition line_error :: "world \<Rightarrow> OrderProduct \<Rightarrow> error option" where
  "line_error w l = (case find_product w (ProductID l) of
                       None \<Rightarrow> Some ErrDataNotFound
                     | Some p \<Rightarrow> if Stock p < Quantity l then Some ErrInsufficientStock else None)"

definition line_found :: "world \<Rightarrow> OrderProduct \<Rightarrow> bool" where
  "line_found w l = (find_product w (ProductID l) \<noteq> None)"

definition persisted_world :: "world \<Rightarrow> Order \<Rightarrow> world" where
  "persisted_world w ord =
     w\<lparr>calls := calls w @ lookups (Products ord) @ [OrderRepo_CreateOrder (priced_order w ord)],
       orders := orders w @ [stored_order w (priced_order w ord)],
       next_id := next_id w + 1,
       next_line_id := next_line_id w + length (Products ord)\<rparr>"

text \<open>The second world's log is the first one's with further calls at its end.\<close>

definition appends :: "world \<Rightarrow> world \<Rightarrow> bool" where
  "appends w w' = (\<exists>cs. calls w' = calls w @ cs)"

section \<open>Example data\<close>

text \<open>
  One codec, worlds with one category, user and payment, and the drafts of the scenarios
  of section 8 of the specification. The example encoders always succeed and the example
  decoders always fail.
\<close>

definition example_codec :: codec where
  "example_codec =
     \<lparr>GenerateCacheKey = (\<lambda>prefix a. prefix @ '':'' @
          (case a of Uint64 x \<Rightarrow> replicate (unat x) (CHR ''i'')
                   | IdOf n \<Rightarrow> replicate n (CHR ''i'')
                   | Str s \<Rightarrow> s)),
      GenerateCacheKeyParams = (\<lambda>as. concat (map (\<lambda>a. case a of
          Uint64 x \<Rightarrow> replicate (unat x) (CHR ''i'') @ ''-''
        | IdOf n \<Rightarrow> replicate n (CHR ''i'') @ ''-''
        | Str s \<Rightarrow> s @ ''-'') as)),
      Serialize_Order = (\<lambda>_. Inr ''order''),
      Deserialize_Order = (\<lambda>_. Inl (ErrOther ''unexpected end of JSON input'')),
      Serialize_Orders = (\<lambda>_. Inr ''orders''),
      Deserialize_Orders = (\<lambda>_. Inl (ErrOther ''unexpected end of JSON input'')),
      Serialize_Product = (\<lambda>_. Inr ''product''),
      Deserialize_Product = (\<lambda>_. Inl (ErrOther ''unexpected end of JSON input'')),
      Serialize_Products = (\<lambda>_. Inr ''products''),
      Deserialize_Products = (\<lambda>_. Inl (ErrOther ''unexpected end of JSON input'')),
      Serialize_Category = (\<lambda>_. Inr ''category''),
      Deserialize_Category = (\<lambda>_. Inl (ErrOther ''unexpected end of JSON input'')),
      Serialize_Categories = (\<lambda>_. Inr ''categories''),
      Deserialize_Categories = (\<lambda>_. Inl (ErrOther ''unexpected end of JSON input'')),
      Serialize_User = (\<lambda>_. Inr ''user''),
      Deserialize_User = (\<lambda>_. Inl (ErrOther ''unexpected end of JSON input'')),
      Serialize_Users = (\<lambda>_. Inr ''users''),
      Deserialize_Users = (\<lambda>_. Inl (ErrOther ''unexpected end of JSON input'')),
      Serialize_Payment = (\<lambda>_. Inr ''payment''),
      Deserialize_Payment = (\<lambda>_. Inl (ErrOther ''unexpected end of JSON input'')),
      Serialize_Payments = (\<lambda>_. Inr ''payments''),
      Deserialize_Payments = (\<lambda>_. Inl (ErrOther ''unexpected end of JSON input''))\<rparr>"

definition example_product :: "nat \<Rightarrow> float64 \<Rightarrow> int \<Rightarrow> Product" where
  "example_product i price stock =
     \<lparr>Product_ID = i, Product_CategoryID = 1, Product_SKU = ''9a4c25d3'',
      Product_Name = ''Chiki Ball'', Stock = stock, Price = price, Image = ''chiki-ball.png'',
      Product_CreatedAt = 0, Product_UpdatedAt = 0, Product_Category = None\<rparr>"

definition example_world :: "Product list \<Rightarrow> (nat \<Rightarrow> string option) \<Rightarrow> world" where
  "example_world ps f =
     \<lparr>products = ps,
      categories = [\<lparr>Category_ID = 1, Category_Name = ''Foods''\<rparr>],
      users = [\<lparr>User_ID = 1, User_Name = ''John Doe'', User_Email = ''john@example.com''\<rparr>],
      payments = [\<lparr>Payment_ID = 1, Payment_Name = ''Tunai'', Payment_Type = ''CASH'',
                   Payment_Logo = ''cash.png''\<rparr>],
      orders = [],
      cache = [(''orders:-'', ''orders'')],
      calls = [],
      fault = f,
      next_id = 1,
      next_line_id = 1,
      now = 0,
      new_receipt = ''4979cf6e''\<rparr>"

definition example_line :: "nat \<Rightarrow> int \<Rightarrow> OrderProduct" where
  "example_line i q =
     \<lparr>OrderProduct_ID = 0, OrderID = 0, ProductID = i, Quantity = q,
      OrderProduct_TotalPrice = Fin 0, OrderProduct_CreatedAt = 0, OrderProduct_UpdatedAt = 0,
      OrderProduct_Product = None\<rparr>"

definition example_draft :: "float64 \<Rightarrow> float64 \<Rightarrow> OrderProduct list \<Rightarrow> Order" where
  "example_draft declared paid ls =
     \<lparr>ID = 0, UserID = 1, PaymentID = 1, CustomerName = ''John Doe'',
      TotalPrice = declared, TotalPaid = paid, TotalReturn = Fin 0, ReceiptCode = [],
      CreatedAt = 0, UpdatedAt = 0, Order_User = None, Order_Payment = None, Products = ls\<rparr>"

definition no_faults :: "nat \<Rightarrow> string option" where
  "no_faults n = None"

text \<open>Product 1 costs 5000 and has 100 in stock; two of it are ordered and 10000 paid.\<close>

definition scenario_world :: world where
  "scenario_world = example_world [example_product 1 (Fin 5000) 100] no_faults"

definition scenario_draft :: Order where
  "scenario_draft = example_draft (Fin 7) (Fin 10000) [example_line 1 2]"

definition unknown_then_overstock_draft :: Order where
  "unknown_then_overstock_draft = example_draft (Fin 0) (Fin 10000) [example_line 9 1, example_line 1 200]"

definition overstock_draft :: Order where
  "overstock_draft = example_draft (Fin 0) (Fin 1000) [example_line 1 2, example_line 1 200, example_line 9 1]"

definition underpaid_draft :: Order where
  "underpaid_draft = example_draft (Fin 7) (Fin 1000) [example_line 1 1]"

definition overstock_underpaid_draft :: Order where
  "overstock_underpaid_draft = example_draft (Fin 0) (Fin 1000) [example_line 1 2, example_line 1 200]"

definition tenth :: rat where
  "tenth = 3602879701896397 / 36028797018963968"

definition fifth :: rat where
  "fifth = 3602879701896397 / 18014398509481984"

definition fraction_world :: world where
  "fraction_world = example_world [example_product 1 (Fin tenth) 100, example_product 2 (Fin fifth) 100] no_faults"

definition fraction_draft :: Order where
  "fraction_draft = example_draft (Fin 0) (Fin 1) [example_line 1 1, example_line 2 1]"

definition cache_down_world :: world where
  "cache_down_world = scenario_world\<lparr>fault := (\<lambda>n. if n = 6 then Some ''connection refused'' else None)\<rparr>"

definition unknown_user_draft :: Order where
  "unknown_user_draft = scenario_draft\<lparr>UserID := 2\<rparr>"

definition cached_world :: world where
  "cached_world = scenario_world\<lparr>cache := [(''order:i'', ''{''), (''category:i'', ''{'')]\<rparr>"



definition unknown_then_overstock_underpaid_draft :: Order where
  "unknown_then_overstock_underpaid_draft =
     example_draft (Fin 0) (Fin 1000) [example_line 9 1, example_line 1 200]"

definition scenario_listing_world :: world where
  "scenario_listing_world = scenario_world\<lparr>orders := [scenario_draft]\<rparr>"

definition negative_draft :: Order where
  "negative_draft = example_draft (Fin 0) (Fin 5000) [example_line 1 2, example_line 1 (- 1)]"

definition free_scenario_world :: world where
  "free_scenario_world = example_world [example_product 1 (Fin 0) 100] no_faults"

definition large_scenario_world :: world where
  "large_scenario_world =
     example_world [example_product 1 (Fin 1152921504606846976) 100, example_product 2 (Fin 1) 100]
       no_faults"

section \<open>Auxiliary facts\<close>

lemma answers_iff: "answers w n \<longleftrightarrow> (\<forall>k<n. fault w (length (calls w) + k) = None)"
  by (auto simp: answers_def list_all_iff)

lemma answers_Suc: "answers w (Suc n) \<longleftrightarrow> failure w = None \<and> answers (logged c w) n"
proof -
  have "(\<forall>k<Suc n. fault w (length (calls w) + k) = None) \<longleftrightarrow>
        fault w (length (calls w)) = None \<and> (\<forall>k<n. fault w (length (calls w) + Suc k) = None)"
    by (metis (no_types, lifting) Suc_less_eq add.right_neutral less_Suc_eq_0_disj zero_less_Suc)
  then show ?thesis
    by (simp add: answers_iff failure_def logged_def)
qed

lemma find_product_logged [simp]: "find_product (logged c w) = find_product w"
  by (simp add: find_product_def logged_def fun_eq_iff)

lemma line_passes_logged [simp]: "line_passes (logged c w) = line_passes w"
  by (simp add: line_passes_def fun_eq_iff)

lemma line_total_logged [simp]: "line_total (logged c w) = line_total w"
  by (simp add: line_total_def fun_eq_iff)

lemma priced_logged [simp]: "priced (logged c w) = priced w"
  by (simp add: priced_def fun_eq_iff)

lemma GetProductByID_found:
  "failure w = None \<Longrightarrow> find_product w i = Some p \<Longrightarrow>
   GetProductByID i w = (Inr (p\<lparr>Product_Category := None\<rparr>), logged (ProductRepo_GetProductByID i) w)"
  by (simp add: GetProductByID_def find_product_def)

lemma GetProductByID_missing:
  "failure w = None \<Longrightarrow> find_product w i = None \<Longrightarrow>
   GetProductByID i w = (Inl ErrDataNotFound, logged (ProductRepo_GetProductByID i) w)"
  by (simp add: GetProductByID_def find_product_def)

lemma GetProductByID_fault:
  "failure w = Some msg \<Longrightarrow>
   GetProductByID i w = (Inl (ErrOther msg), logged (ProductRepo_GetProductByID i) w)"
  by (simp add: GetProductByID_def)

lemma logged_calls: "logged c w\<lparr>calls := calls (logged c w) @ cs\<rparr> = w\<lparr>calls := calls w @ c # cs\<rparr>"
  by (simp add: logged_def)

lemma CreateOrder_lines_pass:
  "answers w (length ls) \<Longrightarrow> list_all (line_passes w) ls \<Longrightarrow>
   CreateOrder_lines ls t w =
     (Inr (map (priced w) ls, foldl fadd t (map (line_total w) ls)),
      w\<lparr>calls := calls w @ lookups ls\<rparr>)"
proof (induction ls arbitrary: t w)
  case Nil
  show ?case by (simp add: lookups_def)
next
  case (Cons l ls)
  let ?c = "ProductRepo_GetProductByID (ProductID l)"
  from Cons.prems(1) have f: "failure w = None" and a: "answers (logged ?c w) (length ls)"
    using answers_Suc [of w "length ls" ?c] by simp_all
  from Cons.prems(2) have lp: "line_passes w l" and rest: "list_all (line_passes w) ls"
    by simp_all
  from lp obtain p where p: "find_product w (ProductID l) = Some p"
    and s: "\<not> Stock p < Quantity l"
    by (auto simp: line_passes_def split: option.splits)
  have lt: "line_total w l = fmul (Price p) (float64_of_int64 (Quantity l))"
    by (simp add: line_total_def p)
  have ih: "CreateOrder_lines ls (fadd t (line_total w l)) (logged ?c w) =
     (Inr (map (priced w) ls, foldl fadd (fadd t (line_total w l)) (map (line_total w) ls)),
      w\<lparr>calls := calls w @ ?c # lookups ls\<rparr>)"
    using Cons.IH [OF a, of "fadd t (line_total w l)"] rest by (simp add: logged_calls)
  show ?case
    using ih s by (simp add: GetProductByID_found [OF f p] lt [symmetric] priced_def lookups_def)
qed

lemma calls_logged [simp]: "calls (logged c w) = calls w @ [c]"
  by (simp add: logged_def)

lemma pow2_pos [simp]: "0 < pow2 e"
  by (simp add: pow2_def)

lemma round_half_even_nonneg: "0 \<le> q \<Longrightarrow> 0 \<le> round_half_even q"
  by (auto simp: round_half_even_def Let_def intro: add_nonneg_nonneg)

lemma round_mag_nonneg: "0 \<le> a \<Longrightarrow> 0 \<le> round_mag a"
proof -
  assume a: "0 \<le> a"
  let ?u = "max (ilog2 a) (- 1022) - 52"
  have "0 \<le> a / pow2 ?u" using a by (simp add: less_imp_le)
  then have "0 \<le> round_half_even (a / pow2 ?u)" by (rule round_half_even_nonneg)
  then have "0 \<le> rat_of_int (round_half_even (a / pow2 ?u)) * pow2 ?u"
    by (simp add: less_imp_le)
  then show ?thesis by (simp add: round_mag_def Let_def)
qed


lemma rnd_nonpos: "r \<le> 0 \<Longrightarrow> \<not> flt (Fin 0) (rnd r)"
  using round_mag_nonneg [of "\<bar>r\<bar>"] by (auto simp: rnd_def Let_def)



lemma only_logs_refl [simp]: "only_logs w w"
  by (auto simp: only_logs_def intro: exI [of _ "[]"])

lemma only_logs_trans: "only_logs w w1 \<Longrightarrow> only_logs w1 w2 \<Longrightarrow> only_logs w w2"
  by (auto simp: only_logs_def)

lemma only_logs_logged [simp]: "only_logs w (logged c w)"
  by (auto simp: only_logs_def logged_def)

lemma only_logs_GetProductByID: "GetProductByID i w = (r, w1) \<Longrightarrow> only_logs w w1"
  by (auto simp: GetProductByID_def split: option.splits)

lemma only_logs_GetCategoryByID: "GetCategoryByID i w = (r, w1) \<Longrightarrow> only_logs w w1"
  by (auto simp: GetCategoryByID_def split: option.splits)

lemma only_logs_GetUserByID: "GetUserByID i w = (r, w1) \<Longrightarrow> only_logs w w1"
  by (auto simp: GetUserByID_def split: option.splits)

lemma only_logs_GetPaymentByID: "GetPaymentByID i w = (r, w1) \<Longrightarrow> only_logs w w1"
  by (auto simp: GetPaymentByID_def split: option.splits)

lemma only_logs_attach_products: "attach_products ls w = (r, w') \<Longrightarrow> only_logs w w'"
proof (induction ls arbitrary: w r w')
  case Nil
  then show ?case by auto
next
  case (Cons l ls)
  then show ?case
    by (auto split: prod.splits sum.splits
             dest!: only_logs_GetProductByID only_logs_GetCategoryByID
             intro: only_logs_trans)
qed

lemma only_logs_CreateOrder_lines: "CreateOrder_lines ls t w = (r, w') \<Longrightarrow> only_logs w w'"
proof (induction ls arbitrary: t w r w')
  case Nil
  then show ?case by auto
next
  case (Cons l ls)
  then show ?case
    by (auto split: prod.splits sum.splits if_splits
             dest!: only_logs_GetProductByID intro: only_logs_trans)
qed

lemma only_logs_enrich: "enrich ord w = (r, w') \<Longrightarrow> only_logs w w'"
  by (auto simp: enrich_def split: prod.splits sum.splits
           dest!: only_logs_GetUserByID only_logs_GetPaymentByID only_logs_attach_products
           intro: only_logs_trans)

lemma only_logs_CreateOrder_price: "CreateOrder_price ord w = (r, w') \<Longrightarrow> only_logs w w'"
  by (auto simp: CreateOrder_price_def split: prod.splits sum.splits if_splits
           dest!: only_logs_CreateOrder_lines)

lemma only_logs_fields:
  "only_logs w w' \<Longrightarrow> products w' = products w \<and> orders w' = orders w \<and> cache w' = cache w
     \<and> categories w' = categories w \<and> users w' = users w \<and> payments w' = payments w
     \<and> fault w' = fault w"
  by (auto simp: only_logs_def)



lemma stored_order_totals [simp]:
  "TotalPrice (stored_order w ord) = TotalPrice ord"
  "TotalPaid (stored_order w ord) = TotalPaid ord"
  "TotalReturn (stored_order w ord) = TotalReturn ord"
  "ID (stored_order w ord) = next_id w"
  by (simp_all add: stored_order_def)


lemma cache_Set_fields:
  "cache_Set k b w = (r, w') \<Longrightarrow> products w' = products w \<and> orders w' = orders w"
  by (auto simp: cache_Set_def logged_def split: option.splits)

lemma cache_DeleteByPrefix_fields:
  "cache_DeleteByPrefix p w = (r, w') \<Longrightarrow> products w' = products w \<and> orders w' = orders w"
  by (auto simp: cache_DeleteByPrefix_def logged_def split: option.splits)

lemma CreateOrder_finish_fields:
  "CreateOrder_finish cd ord w = (r, w') \<Longrightarrow> products w' = products w \<and> orders w' = orders w"
  by (auto simp: CreateOrder_finish_def split: prod.splits sum.splits option.splits
           dest!: only_logs_enrich only_logs_fields cache_Set_fields cache_DeleteByPrefix_fields)



lemma answers_less: "answers w (m + n) \<Longrightarrow> answers w m"
  by (simp add: answers_iff)

lemma answers_after:
  "answers w (m + n) \<Longrightarrow> calls w' = calls w @ cs \<Longrightarrow> length cs = m \<Longrightarrow> fault w' = fault w
     \<Longrightarrow> answers w' n"
  by (simp add: answers_iff add.assoc)

lemma answers_failure: "answers w (Suc n) \<Longrightarrow> failure w = None"
  using answers_Suc by blast

lemma length_lookups [simp]: "length (lookups ls) = length ls"
  by (simp add: lookups_def)

lemma CreateOrder_price_pass:
  assumes "answers w (length (Products ord))" and "list_all (line_passes w) (Products ord)"
    and "\<not> flt (TotalPaid ord) (order_total w (Products ord))"
  shows "CreateOrder_price ord w =
           (Inr (priced_order w ord), w\<lparr>calls := calls w @ lookups (Products ord)\<rparr>)"
  using assms
  by (simp add: CreateOrder_price_def CreateOrder_lines_pass order_total_def priced_order_def)

lemma CreateOrder_price_underpaid:
  assumes "answers w (length (Products ord))" and "list_all (line_passes w) (Products ord)"
    and "flt (TotalPaid ord) (order_total w (Products ord))"
  shows "CreateOrder_price ord w =
           (Inl ErrInsufficientPayment, w\<lparr>calls := calls w @ lookups (Products ord)\<rparr>)"
  using assms
  by (simp add: CreateOrder_price_def CreateOrder_lines_pass order_total_def)

lemma GetCategoryByID_found:
  "failure w = None \<Longrightarrow> find_category w i = Some c \<Longrightarrow>
   GetCategoryByID i w = (Inr c, logged (CategoryRepo_GetCategoryByID i) w)"
  by (simp add: GetCategoryByID_def find_category_def)

lemma GetUserByID_found:
  "failure w = None \<Longrightarrow> find_user w i = Some u \<Longrightarrow>
   GetUserByID i w = (Inr u, logged (UserRepo_GetUserByID i) w)"
  by (simp add: GetUserByID_def find_user_def)

lemma GetPaymentByID_found:
  "failure w = None \<Longrightarrow> find_payment w i = Some p \<Longrightarrow>
   GetPaymentByID i w = (Inr p, logged (PaymentRepo_GetPaymentByID i) w)"
  by (simp add: GetPaymentByID_def find_payment_def)

lemma find_category_logged [simp]: "find_category (logged c w) = find_category w"
  by (simp add: find_category_def logged_def fun_eq_iff)

lemma line_resolves_logged [simp]: "line_resolves (logged c w) = line_resolves w"
  by (simp add: line_resolves_def product_resolves_def fun_eq_iff split: option.splits)

lemma attached_logged [simp]: "attached (logged c w) = attached w"
  by (simp add: attached_def fun_eq_iff split: option.splits)

lemma attach_products_pass:
  "answers w (2 * length ls) \<Longrightarrow> list_all (line_resolves w) ls \<Longrightarrow>
   \<exists>cs. length cs = 2 * length ls \<and>
        attach_products ls w = (Inr (map (attached w) ls), w\<lparr>calls := calls w @ cs\<rparr>)"
proof (induction ls arbitrary: w)
  case Nil
  show ?case by simp
next
  case (Cons l ls)
  let ?c1 = "ProductRepo_GetProductByID (ProductID l)"
  from Cons.prems(2) have lr: "line_resolves w l" and rest: "list_all (line_resolves w) ls"
    by simp_all
  from lr obtain p c where p: "find_product w (ProductID l) = Some p"
    and c: "find_category w (Product_CategoryID p) = Some c"
    by (auto simp: line_resolves_def product_resolves_def split: option.splits)
  let ?c2 = "CategoryRepo_GetCategoryByID (Product_CategoryID p)"
  have a0: "answers w (Suc (Suc (2 * length ls)))" using Cons.prems(1) by simp
  have f1: "failure w = None" using a0 answers_Suc by blast
  have a1: "answers (logged ?c1 w) (Suc (2 * length ls))" using a0 answers_Suc by blast
  have f2: "failure (logged ?c1 w) = None" using a1 answers_Suc by blast
  have a2: "answers (logged ?c2 (logged ?c1 w)) (2 * length ls)" using a1 answers_Suc by blast
  from Cons.IH [OF a2] rest obtain cs where
    len: "length cs = 2 * length ls" and
    ih: "attach_products ls (logged ?c2 (logged ?c1 w)) =
           (Inr (map (attached w) ls), logged ?c2 (logged ?c1 w)\<lparr>calls := calls (logged ?c2 (logged ?c1 w)) @ cs\<rparr>)"
    by auto
  have g1: "GetProductByID (ProductID l) w = (Inr (p\<lparr>Product_Category := None\<rparr>), logged ?c1 w)"
    by (rule GetProductByID_found [OF f1 p])
  have g2: "GetCategoryByID (Product_CategoryID p) (logged ?c1 w) = (Inr c, logged ?c2 (logged ?c1 w))"
    using GetCategoryByID_found [OF f2, of "Product_CategoryID p" c] c by simp
  have "attach_products (l # ls) w =
          (Inr (map (attached w) (l # ls)), w\<lparr>calls := calls w @ ?c1 # ?c2 # cs\<rparr>)"
    using g1 g2 ih by (simp add: attached_def p c logged_def)
  then show ?case using len by (intro exI [of _ "?c1 # ?c2 # cs"]) simp
qed

lemma enrich_pass:
  assumes a: "answers w (2 + 2 * length (Products ord))"
    and u: "find_user w (UserID ord) = Some u"
    and pm: "find_payment w (PaymentID ord) = Some p"
    and r: "list_all (line_resolves w) (Products ord)"
  shows "\<exists>cs. length cs = 2 + 2 * length (Products ord) \<and>
           enrich ord w =
             (Inr (ord\<lparr>Order_User := Some u, Order_Payment := Some p,
                        Products := map (attached w) (Products ord)\<rparr>),
              w\<lparr>calls := calls w @ cs\<rparr>)"
proof -
  let ?c1 = "UserRepo_GetUserByID (UserID ord)" and ?c2 = "PaymentRepo_GetPaymentByID (PaymentID ord)"
  have a0: "answers w (Suc (Suc (2 * length (Products ord))))" using a by simp
  have f1: "failure w = None" using a0 answers_Suc by blast
  have a1: "answers (logged ?c1 w) (Suc (2 * length (Products ord)))" using a0 answers_Suc by blast
  have f2: "failure (logged ?c1 w) = None" using a1 answers_Suc by blast
  have a2: "answers (logged ?c2 (logged ?c1 w)) (2 * length (Products ord))"
    using a1 answers_Suc by blast
  have g1: "GetUserByID (UserID ord) w = (Inr u, logged ?c1 w)"
    by (rule GetUserByID_found [OF f1 u])
  have "find_payment (logged ?c1 w) (PaymentID ord) = Some p"
    using pm by (simp add: find_payment_def logged_def)
  then have g2: "GetPaymentByID (PaymentID ord) (logged ?c1 w) = (Inr p, logged ?c2 (logged ?c1 w))"
    by (rule GetPaymentByID_found [OF f2])
  from attach_products_pass [OF a2] r obtain cs where
    len: "length cs = 2 * length (Products ord)" and
    at: "attach_products (Products ord) (logged ?c2 (logged ?c1 w)) =
           (Inr (map (attached w) (Products ord)),
            logged ?c2 (logged ?c1 w)\<lparr>calls := calls (logged ?c2 (logged ?c1 w)) @ cs\<rparr>)"
    by auto
  have "enrich ord w =
          (Inr (ord\<lparr>Order_User := Some u, Order_Payment := Some p,
                     Products := map (attached w) (Products ord)\<rparr>),
           w\<lparr>calls := calls w @ ?c1 # ?c2 # cs\<rparr>)"
    using g1 g2 at by (simp add: enrich_def logged_def)
  then show ?thesis using len by (intro exI [of _ "?c1 # ?c2 # cs"]) simp
qed

lemma CreateOrder_finish_pass:
  assumes a: "answers w (4 + 2 * length (Products ord))"
    and u: "find_user w (UserID ord) = Some u"
    and pm: "find_payment w (PaymentID ord) = Some p"
    and r: "list_all (line_resolves w) (Products ord)"
    and s: "Serialize_Order cd (ord\<lparr>Order_User := Some u, Order_Payment := Some p,
                        Products := map (attached w) (Products ord)\<rparr>) = Inr blob"
  shows "fst (CreateOrder_finish cd ord w) =
           Inr (ord\<lparr>Order_User := Some u, Order_Payment := Some p,
                     Products := map (attached w) (Products ord)\<rparr>)"
    and "cache (snd (CreateOrder_finish cd ord w)) =
           cache_after_create (GenerateCacheKey cd ''order'' (IdOf (ID ord))) blob (cache w)"
proof -
  let ?n = "length (calls w)" and ?L = "length (Products ord)"
  have "answers w (2 + 2 * ?L)" using a by (simp add: answers_iff)
  from enrich_pass [OF this u pm r] obtain cs where
    len: "length cs = 2 + 2 * ?L" and
    e: "enrich ord w =
          (Inr (ord\<lparr>Order_User := Some u, Order_Payment := Some p,
                     Products := map (attached w) (Products ord)\<rparr>),
           w\<lparr>calls := calls w @ cs\<rparr>)"
    by blast
  have all: "\<And>k. k < 4 + 2 * ?L \<Longrightarrow> fault w (?n + k) = None"
    using a by (simp add: answers_iff)
  have f1: "fault w (?n + (2 + 2 * ?L)) = None" by (rule all) simp
  have f2: "fault w (?n + (3 + 2 * ?L)) = None" by (rule all) simp
  have f1': "fault w (Suc (Suc (?n + 2 * ?L))) = None"
    using f1 by (simp add: add.commute add.left_commute)
  have f2': "fault w (Suc (Suc (Suc (?n + 2 * ?L)))) = None"
    using f2 by (simp add: add.commute add.left_commute numeral_3_eq_3)
  show "fst (CreateOrder_finish cd ord w) =
           Inr (ord\<lparr>Order_User := Some u, Order_Payment := Some p,
                     Products := map (attached w) (Products ord)\<rparr>)"
    using e s len f1' f2'
    by (simp add: CreateOrder_finish_def cache_DeleteByPrefix_def cache_Set_def failure_def logged_def)
  show "cache (snd (CreateOrder_finish cd ord w)) =
           cache_after_create (GenerateCacheKey cd ''order'' (IdOf (ID ord))) blob (cache w)"
    using e s len f1' f2'
    by (simp add: CreateOrder_finish_def cache_DeleteByPrefix_def cache_Set_def failure_def logged_def
                  cache_after_create_def)
qed

lemma product_resolves_tables:
  "products w' = products w \<Longrightarrow> categories w' = categories w
     \<Longrightarrow> product_resolves w' = product_resolves w"
  by (simp add: product_resolves_def find_product_def find_category_def fun_eq_iff
           cong: option.case_cong)

lemma attached_tables:
  "products w' = products w \<Longrightarrow> categories w' = categories w \<Longrightarrow> attached w' = attached w"
  by (simp add: attached_def find_product_def find_category_def fun_eq_iff
           cong: option.case_cong)

lemma stored_order_generated:
  "next_id w' = next_id w \<Longrightarrow> next_line_id w' = next_line_id w \<Longrightarrow> now w' = now w
     \<Longrightarrow> new_receipt w' = new_receipt w \<Longrightarrow> stored_order w' = stored_order w"
  by (simp add: stored_order_def stored_line_def fun_eq_iff)

lemma ProductID_priced [simp]: "ProductID (priced w l) = ProductID l"
  by (simp add: priced_def)

lemma ProductIDs_stored_order:
  "map ProductID (Products (stored_order w ord)) = map ProductID (Products ord)"
proof -
  have "map (\<lambda>kl. ProductID (stored_line w kl)) (enumerate 0 (Products ord))
          = map (\<lambda>kl. ProductID (snd kl)) (enumerate 0 (Products ord))"
    by (simp add: stored_line_def)
  also have "\<dots> = map ProductID (map snd (enumerate 0 (Products ord)))"
    by (simp only: map_map comp_def)
  also have "\<dots> = map ProductID (Products ord)"
    by (simp only: map_snd_enumerate)
  finally show ?thesis by (simp add: stored_order_def comp_def)
qed

lemma list_all_line_resolves:
  assumes "map ProductID ls' = map ProductID ls" and "products w' = products w"
    and "categories w' = categories w" and "list_all (line_resolves w) ls"
  shows "list_all (line_resolves w') ls'"
proof -
  have "list_all (product_resolves w) (map ProductID ls)"
    using assms(4) by (simp add: list_all_iff line_resolves_def)
  then have "list_all (product_resolves w) (map ProductID ls')" using assms(1) by simp
  then have "list_all (product_resolves w') (map ProductID ls')"
    using product_resolves_tables [OF assms(2,3)] by simp
  then show ?thesis by (simp add: list_all_iff line_resolves_def)
qed

lemma length_Products_stored_order [simp]:
  "length (Products (stored_order w ord)) = length (Products ord)"
  by (simp add: stored_order_def)

lemma UserID_stored_order [simp]: "UserID (stored_order w ord) = UserID ord"
  and PaymentID_stored_order [simp]: "PaymentID (stored_order w ord) = PaymentID ord"
  by (simp_all add: stored_order_def)

lemma priced_order_fields [simp]:
  "UserID (priced_order w ord) = UserID ord"
  "PaymentID (priced_order w ord) = PaymentID ord"
  "TotalPaid (priced_order w ord) = TotalPaid ord"
  "TotalPrice (priced_order w ord) = order_total w (Products ord)"
  "TotalReturn (priced_order w ord) = fsub (TotalPaid ord) (order_total w (Products ord))"
  "Products (priced_order w ord) = map (priced w) (Products ord)"
  by (simp_all add: priced_order_def)

lemma CreateOrder_succeeds:
  assumes a: "answers w (3 * length (Products ord) + 5)"
    and lp: "list_all (line_passes w) (Products ord)"
    and paid: "\<not> flt (TotalPaid ord) (order_total w (Products ord))"
    and u: "find_user w (UserID ord) = Some u"
    and pm: "find_payment w (PaymentID ord) = Some p"
    and r: "list_all (line_resolves w) (Products ord)"
    and s: "Serialize_Order cd (created_order w ord) = Inr blob"
  shows "fst (CreateOrder cd ord w) = Inr (created_order w ord)"
    and "orders (snd (CreateOrder cd ord w)) = orders w @ [stored_order w (priced_order w ord)]"
    and "cache (snd (CreateOrder cd ord w)) =
           cache_after_create (GenerateCacheKey cd ''order'' (IdOf (next_id w))) blob (cache w)"
    and "products (snd (CreateOrder cd ord w)) = products w"
proof -
  let ?ls = "Products ord" and ?n = "length (calls w)"
  let ?L = "length ?ls"
  let ?po = "priced_order w ord"
  let ?w1 = "w\<lparr>calls := calls w @ lookups ?ls\<rparr>"
  let ?st = "stored_order w ?po"
  let ?w2 = "logged (OrderRepo_CreateOrder ?po)
               (?w1\<lparr>orders := orders ?w1 @ [?st], next_id := next_id ?w1 + 1,
                     next_line_id := next_line_id ?w1 + length (Products ?po)\<rparr>)"
  have all: "\<And>k. k < 3 * ?L + 5 \<Longrightarrow> fault w (?n + k) = None"
    using a by (simp add: answers_iff)
  have "answers w ?L" using a by (simp add: answers_iff)
  then have price: "CreateOrder_price ord w = (Inr ?po, ?w1)"
    using lp paid by (rule CreateOrder_price_pass)
  have "fault w (?n + ?L) = None" by (rule all) simp
  then have f1: "failure ?w1 = None" by (simp add: failure_def)
  have st: "stored_order ?w1 ?po = ?st"
    using stored_order_generated [of ?w1 w] by simp
  have repo: "CreateOrder_repo ?po ?w1 = (Inr ?st, ?w2)"
    using f1 st by (simp add: CreateOrder_repo_def)
  have a2: "answers ?w2 (4 + 2 * length (Products ?st))"
    unfolding answers_iff
  proof (intro allI impI)
    fix k assume "k < 4 + 2 * length (Products ?st)"
    then have "fault w (?n + (?L + 1 + k)) = None" by (intro all) simp
    then show "fault ?w2 (length (calls ?w2) + k) = None"
      by (simp add: logged_def add.assoc)
  qed
  have u2: "find_user ?w2 (UserID ?st) = Some u"
    using u by (simp add: find_user_def logged_def)
  have p2: "find_payment ?w2 (PaymentID ?st) = Some p"
    using pm by (simp add: find_payment_def logged_def)
  have "map ProductID (Products ?st) = map ProductID ?ls"
    by (simp add: ProductIDs_stored_order)
  then have r2: "list_all (line_resolves ?w2) (Products ?st)"
    by (rule list_all_line_resolves [OF _ _ _ r]) (simp_all add: logged_def)
  have at: "attached ?w2 = attached w"
    by (rule attached_tables) (simp_all add: logged_def)
  have en: "?st\<lparr>Order_User := Some u, Order_Payment := Some p,
                 Products := map (attached ?w2) (Products ?st)\<rparr> = created_order w ord"
    unfolding at using u pm by (simp add: created_order_def)
  have s2: "Serialize_Order cd (?st\<lparr>Order_User := Some u, Order_Payment := Some p,
                 Products := map (attached ?w2) (Products ?st)\<rparr>) = Inr blob"
    using s en by simp
  note fin = CreateOrder_finish_pass [OF a2 u2 p2 r2 s2]
  have co: "CreateOrder cd ord w = CreateOrder_finish cd ?st ?w2"
    using price repo by (simp add: CreateOrder_def)
  show "fst (CreateOrder cd ord w) = Inr (created_order w ord)"
    using fin(1) co en by simp
  show "cache (snd (CreateOrder cd ord w)) =
           cache_after_create (GenerateCacheKey cd ''order'' (IdOf (next_id w))) blob (cache w)"
    using fin(2) co by (simp add: logged_def)
  have fields: "products (snd (CreateOrder cd ord w)) = products ?w2
              \<and> orders (snd (CreateOrder cd ord w)) = orders ?w2"
    using CreateOrder_finish_fields [of cd ?st ?w2 "fst (CreateOrder cd ord w)" "snd (CreateOrder cd ord w)"] co
    by simp
  show "orders (snd (CreateOrder cd ord w)) = orders w @ [stored_order w (priced_order w ord)]"
    using fields by (simp add: logged_def)
  show "products (snd (CreateOrder cd ord w)) = products w"
    using fields by (simp add: logged_def)
qed

lemma round_half_even_of_int [simp]: "round_half_even (of_int m) = m"
  by (simp add: round_half_even_def)

lemma bitlen_less_53:
  assumes "0 < m" and "m < 2 ^ 53"
  shows "1 \<le> bitlen m" and "bitlen m \<le> 53"
proof -
  show "1 \<le> bitlen m" using assms(1) by (simp add: bitlen_alt_def)
  have low: "2 ^ nat (bitlen m - 1) \<le> m" using bitlen_bounds [OF assms(1)] by simp
  have "nat (bitlen m - 1) < 53"
  proof (rule ccontr)
    assume "\<not> nat (bitlen m - 1) < 53"
    then have "53 \<le> nat (bitlen m - 1)" by simp
    then have "(2::int) ^ 53 \<le> 2 ^ nat (bitlen m - 1)" by (intro power_increasing) auto
    with low assms(2) show False by linarith
  qed
  then show "bitlen m \<le> 53" by linarith
qed

lemma pow2_nonpos: "e \<le> 0 \<Longrightarrow> pow2 e = 1 / 2 ^ nat (- e)"
  by (cases "e = 0") (simp_all add: pow2_def)

lemma round_mag_of_int:
  assumes "0 < m" and "m < 2 ^ 53"
  shows "round_mag (of_int m) = of_int m"
proof -
  define u where "u = max (ilog2 (rat_of_int m)) (- 1022) - 52"
  have e: "0 \<le> bitlen m - 1" "bitlen m - 1 \<le> 52" using bitlen_less_53 [OF assms] by simp_all
  have il: "ilog2 (of_int m) = bitlen m - 1" using assms(1) by (simp add: ilog2_def)
  have u: "u \<le> 0" using e by (simp add: u_def il)
  have p: "pow2 u = 1 / 2 ^ nat (- u)" using u by (rule pow2_nonpos)
  have "rat_of_int m / pow2 u = of_int (m * 2 ^ nat (- u))"
    by (simp add: p)
  then have "round_half_even (rat_of_int m / pow2 u) = m * 2 ^ nat (- u)"
    by (simp only: round_half_even_of_int)
  then have "rat_of_int (round_half_even (rat_of_int m / pow2 u)) * pow2 u = of_int m"
    by (simp add: p)
  then show ?thesis
    by (simp add: round_mag_def Let_def u_def)
qed

lemma rnd_of_int: "\<bar>m\<bar> < 2 ^ 53 \<Longrightarrow> rnd (of_int m) = Fin (of_int m)"
proof -
  assume b: "\<bar>m\<bar> < 2 ^ 53"
  show ?thesis
  proof (cases "m = 0")
    case True
    then show ?thesis by (simp add: rnd_def)
  next
    case False
    then have pos: "0 < \<bar>m\<bar>" by simp
    have rm: "round_mag (of_int \<bar>m\<bar>) = of_int \<bar>m\<bar>"
      using round_mag_of_int [OF pos b] .
    have "rat_of_int \<bar>m\<bar> < 2 ^ 53" using b by (metis of_int_less_iff of_int_numeral of_int_power)
    also have "(2::rat) ^ 53 \<le> 2 ^ 1024" by simp
    finally have small: "\<not> pow2 1024 \<le> rat_of_int \<bar>m\<bar>" by (simp add: pow2_def)
    have abs: "\<bar>rat_of_int m\<bar> = rat_of_int \<bar>m\<bar>" by simp
    show ?thesis
      using False small rm by (auto simp: rnd_def Let_def abs simp del: of_int_abs)
  qed
qed

lemma rnd_numeral [simp]: "numeral k < (2::int) ^ 53 \<Longrightarrow> rnd (numeral k) = Fin (numeral k)"
  using rnd_of_int [of "numeral k"] by simp

lemma rnd_neg_numeral [simp]:
  "numeral k < (2::int) ^ 53 \<Longrightarrow> rnd (- numeral k) = Fin (- numeral k)"
  using rnd_of_int [of "- numeral k"] by simp

lemma rnd_0 [simp]: "rnd 0 = Fin 0" and rnd_1 [simp]: "rnd 1 = Fin 1"
  using rnd_of_int [of 1] by (simp_all add: rnd_def)

lemma float64_of_int64_small: "\<bar>q\<bar> < 2 ^ 53 \<Longrightarrow> float64_of_int64 q = Fin (of_int q)"
  by (simp add: float64_of_int64_def rnd_of_int)

lemma line_passes_iff: "line_passes w l \<longleftrightarrow> line_error w l = None"
  by (simp add: line_passes_def line_error_def split: option.splits)

lemma answers_no_faults: "fault w = no_faults \<Longrightarrow> answers w n"
  by (simp add: answers_iff no_faults_def)

lemma CreateOrder_lines_append:
  "CreateOrder_lines (pre @ rest) t w =
     (case CreateOrder_lines pre t w of
        (Inl e, w1) \<Rightarrow> (Inl e, w1)
      | (Inr (ls1, t1), w1) \<Rightarrow>
          (case CreateOrder_lines rest t1 w1 of
             (Inl e, w2) \<Rightarrow> (Inl e, w2)
           | (Inr (ls2, t2), w2) \<Rightarrow> (Inr (ls1 @ ls2, t2), w2)))"
  by (induction pre arbitrary: t w) (auto split: prod.splits sum.splits)

lemma CreateOrder_lines_error:
  assumes "failure w = None" and "line_error w l = Some e"
  shows "CreateOrder_lines (l # post) t w = (Inl e, logged (ProductRepo_GetProductByID (ProductID l)) w)"
proof (cases "find_product w (ProductID l)")
  case None
  then show ?thesis
    using assms by (simp add: GetProductByID_missing line_error_def)
next
  case (Some p)
  then show ?thesis
    using assms by (auto simp: GetProductByID_found line_error_def split: if_splits)
qed

lemma lookups_append [simp]: "lookups (xs @ ys) = lookups xs @ lookups ys"
  by (simp add: lookups_def)

lemma lookups_single [simp]: "lookups [l] = [ProductRepo_GetProductByID (ProductID l)]"
  by (simp add: lookups_def)

lemma CreateOrder_lines_stops:
  assumes a: "answers w (Suc (length pre))" and lp: "list_all (line_passes w) pre"
    and e: "line_error w l = Some e"
  shows "CreateOrder_lines (pre @ l # post) t w =
           (Inl e, w\<lparr>calls := calls w @ lookups (pre @ [l])\<rparr>)"
proof -
  let ?w1 = "w\<lparr>calls := calls w @ lookups pre\<rparr>"
  have "answers w (length pre)" using a by (simp add: answers_iff)
  then have pre: "CreateOrder_lines pre t w =
      (Inr (map (priced w) pre, foldl fadd t (map (line_total w) pre)), ?w1)"
    using lp by (rule CreateOrder_lines_pass)
  have "fault w (length (calls w) + length pre) = None"
    using a by (simp add: answers_iff)
  then have f: "failure ?w1 = None" by (simp add: failure_def)
  have e1: "line_error ?w1 l = Some e" using e by (simp add: line_error_def find_product_def)
  have "CreateOrder_lines (pre @ l # post) t w =
          (Inl e, logged (ProductRepo_GetProductByID (ProductID l)) ?w1)"
    unfolding CreateOrder_lines_append pre
    by (simp only: prod.case sum.case CreateOrder_lines_error [OF f e1])
  then show ?thesis by (simp add: logged_def)
qed

lemma CreateOrder_stops:
  assumes "Products ord = pre @ l # post" and "answers w (Suc (length pre))"
    and "list_all (line_passes w) pre" and "line_error w l = Some e"
  shows "CreateOrder cd ord w = (Inl e, w\<lparr>calls := calls w @ lookups (pre @ [l])\<rparr>)"
  using assms
  by (simp add: CreateOrder_def CreateOrder_price_def CreateOrder_lines_stops)

lemma first_failing_line:
  assumes "\<not> list_all (line_passes w) ls"
  shows "\<exists>pre l post. ls = pre @ l # post \<and> list_all (line_passes w) pre \<and> \<not> line_passes w l"
proof -
  let ?pre = "takeWhile (line_passes w) ls" and ?rest = "dropWhile (line_passes w) ls"
  have ne: "?rest \<noteq> []" using assms by (simp add: list_all_iff)
  then obtain l post where r: "?rest = l # post" by (cases ?rest) auto
  have "\<not> line_passes w l" using r by (metis hd_dropWhile list.sel(1) ne)
  moreover have "ls = ?pre @ l # post" using r by (metis takeWhile_dropWhile_id)
  moreover have "list_all (line_passes w) ?pre" by (simp add: list_all_iff) (meson set_takeWhileD)
  ultimately show ?thesis by blast
qed

lemma scenario_answers: "answers scenario_world n"
  by (rule answers_no_faults) (simp add: scenario_world_def example_world_def)

lemma scenario_find_product:
  "find_product scenario_world (Suc 0) = Some (example_product 1 (Fin 5000) 100)"
  by (simp add: scenario_world_def example_world_def example_product_def find_product_def)

lemma scenario_find_category:
  "find_category scenario_world (Suc 0) = Some \<lparr>Category_ID = 1, Category_Name = ''Foods''\<rparr>"
  by (simp add: scenario_world_def example_world_def find_category_def)

lemma scenario_find_user:
  "find_user scenario_world (Suc 0) =
     Some \<lparr>User_ID = 1, User_Name = ''John Doe'', User_Email = ''john@example.com''\<rparr>"
  by (simp add: scenario_world_def example_world_def find_user_def)

lemma scenario_find_payment:
  "find_payment scenario_world (Suc 0) =
     Some \<lparr>Payment_ID = 1, Payment_Name = ''Tunai'', Payment_Type = ''CASH'', Payment_Logo = ''cash.png''\<rparr>"
  by (simp add: scenario_world_def example_world_def find_payment_def)

lemma example_draft_fields [simp]:
  "Products (example_draft d p ls) = ls" "TotalPaid (example_draft d p ls) = p"
  "TotalPrice (example_draft d p ls) = d"
  "UserID (example_draft d p ls) = 1" "PaymentID (example_draft d p ls) = 1"
  by (simp_all add: example_draft_def)

lemma example_line_fields [simp]:
  "ProductID (example_line i q) = i" "Quantity (example_line i q) = q"
  by (simp_all add: example_line_def)

lemma example_product_fields [simp]:
  "Stock (example_product i p s) = s" "Price (example_product i p s) = p"
  "Product_ID (example_product i p s) = i" "Product_CategoryID (example_product i p s) = 1"
  by (simp_all add: example_product_def)

lemma scenario_line_passes: "q \<le> 100 \<Longrightarrow> line_passes scenario_world (example_line (Suc 0) q)"
  by (simp add: line_passes_def scenario_find_product)

lemma scenario_line_resolves: "line_resolves scenario_world (example_line (Suc 0) q)"
  by (simp add: line_resolves_def product_resolves_def scenario_find_product scenario_find_category)

lemma scenario_line_total:
  "\<bar>q\<bar> < 2 ^ 53 \<Longrightarrow> \<bar>5000 * q\<bar> < 2 ^ 53 \<Longrightarrow>
   line_total scenario_world (example_line (Suc 0) q) = Fin (of_int (5000 * q))"
  using rnd_of_int [of "5000 * q"]
  by (simp add: line_total_def scenario_find_product float64_of_int64_small)

lemma scenario_order_total:
  "order_total scenario_world (Products scenario_draft) = Fin 10000"
  using scenario_line_total [of 2]
  by (simp add: order_total_def scenario_draft_def)

lemma example_Serialize_Order [simp]: "Serialize_Order example_codec x = Inr ''order''"
  by (simp add: example_codec_def)

lemma scenario_created:
  "fst (CreateOrder example_codec scenario_draft scenario_world)
     = Inr (created_order scenario_world scenario_draft)"
proof (rule CreateOrder_succeeds(1))
  show "answers scenario_world (3 * length (Products scenario_draft) + 5)"
    by (rule scenario_answers)
  show "list_all (line_passes scenario_world) (Products scenario_draft)"
    by (simp add: scenario_draft_def scenario_line_passes)
  show "\<not> flt (TotalPaid scenario_draft) (order_total scenario_world (Products scenario_draft))"
    by (simp add: scenario_order_total) (simp add: scenario_draft_def)
  show "find_user scenario_world (UserID scenario_draft) = Some \<lparr>User_ID = 1, User_Name = ''John Doe'', User_Email = ''john@example.com''\<rparr>"
    by (simp add: scenario_draft_def scenario_find_user)
  show "find_payment scenario_world (PaymentID scenario_draft) = Some \<lparr>Payment_ID = 1, Payment_Name = ''Tunai'', Payment_Type = ''CASH'', Payment_Logo = ''cash.png''\<rparr>"
    by (simp add: scenario_draft_def scenario_find_payment)
  show "list_all (line_resolves scenario_world) (Products scenario_draft)"
    by (simp add: scenario_draft_def scenario_line_resolves)
  show "Serialize_Order example_codec (created_order scenario_world scenario_draft) = Inr ''order''"
    by simp
qed

lemma created_order_totals [simp]:
  "TotalPrice (created_order w ord) = order_total w (Products ord)"
  "TotalPaid (created_order w ord) = TotalPaid ord"
  "TotalReturn (created_order w ord) = fsub (TotalPaid ord) (order_total w (Products ord))"
  by (simp_all add: created_order_def)

lemma scenario_return: "TotalReturn (created_order scenario_world scenario_draft) = Fin 0"
  by (simp add: scenario_order_total) (simp add: scenario_draft_def fsub_def)

lemma CreateOrder_stops_fields:
  assumes "CreateOrder cd ord w = (r, w\<lparr>calls := calls w @ cs\<rparr>)"
  shows "orders (snd (CreateOrder cd ord w)) = orders w"
    and "cache (snd (CreateOrder cd ord w)) = cache w"
    and "products (snd (CreateOrder cd ord w)) = products w"
    and "calls (snd (CreateOrder cd ord w)) = calls w @ cs"
  using assms by simp_all

lemma scenario_line_error_overstock:
  "100 < q \<Longrightarrow> line_error scenario_world (example_line (Suc 0) q) = Some ErrInsufficientStock"
  by (simp add: line_error_def scenario_find_product)

lemma scenario_find_product_9: "find_product scenario_world 9 = None"
  by (simp add: scenario_world_def example_world_def example_product_def find_product_def)

lemma line_error_not_payment: "line_error w l \<noteq> Some ErrInsufficientPayment"
  by (simp add: line_error_def split: option.splits)

lemma line_found_error:
  "line_found w l \<Longrightarrow> \<not> line_passes w l \<Longrightarrow> line_error w l = Some ErrInsufficientStock"
  by (auto simp: line_found_def line_passes_def line_error_def split: option.splits)

lemma CreateOrder_first_error:
  assumes a: "answers w (length (Products ord))" and n: "\<not> list_all (line_passes w) (Products ord)"
  shows "\<exists>l e. l \<in> set (Products ord) \<and> line_error w l = Some e \<and> fst (CreateOrder cd ord w) = Inl e"
proof -
  from first_failing_line [OF n] obtain pre l post where
    ls: "Products ord = pre @ l # post" and pre: "list_all (line_passes w) pre"
    and l: "\<not> line_passes w l"
    by blast
  from l obtain e where e: "line_error w l = Some e" by (auto simp: line_passes_iff)
  have "answers w (Suc (length pre))" using a ls by (simp add: answers_iff)
  from CreateOrder_stops [OF ls this pre e, of cd] have "fst (CreateOrder cd ord w) = Inl e" by simp
  then show ?thesis using ls e by auto
qed

lemma CreateOrder_underpaid:
  assumes "answers w (length (Products ord))" and "list_all (line_passes w) (Products ord)"
    and "flt (TotalPaid ord) (order_total w (Products ord))"
  shows "CreateOrder cd ord w =
           (Inl ErrInsufficientPayment, w\<lparr>calls := calls w @ lookups (Products ord)\<rparr>)"
  using CreateOrder_price_underpaid [OF assms] by (simp add: CreateOrder_def)

lemma scenario_line_found: "line_found scenario_world (example_line (Suc 0) q)"
  by (simp add: line_found_def scenario_find_product)

lemma scenario_order_total_1:
  "order_total scenario_world [example_line (Suc 0) 1] = Fin 5000"
  using scenario_line_total [of 1] by (simp add: order_total_def)

lemma CreateOrder_reaches_finish:
  assumes a: "answers w (Suc (length (Products ord)))"
    and lp: "list_all (line_passes w) (Products ord)"
    and paid: "\<not> flt (TotalPaid ord) (order_total w (Products ord))"
  shows "CreateOrder cd ord w =
           CreateOrder_finish cd (stored_order w (priced_order w ord)) (persisted_world w ord)"
proof -
  let ?w1 = "w\<lparr>calls := calls w @ lookups (Products ord)\<rparr>"
  have "answers w (length (Products ord))" using a by (simp add: answers_iff)
  then have price: "CreateOrder_price ord w = (Inr (priced_order w ord), ?w1)"
    using lp paid by (rule CreateOrder_price_pass)
  have "fault w (length (calls w) + length (Products ord)) = None"
    using a by (simp add: answers_iff)
  then have f1: "failure ?w1 = None" by (simp add: failure_def)
  have st: "stored_order ?w1 (priced_order w ord) = stored_order w (priced_order w ord)"
    using stored_order_generated [of ?w1 w] by simp
  have repo: "CreateOrder_repo (priced_order w ord) ?w1 =
                (Inr (stored_order w (priced_order w ord)), persisted_world w ord)"
    using f1 st by (simp add: CreateOrder_repo_def persisted_world_def logged_def)
  show ?thesis using price repo by (simp add: CreateOrder_def)
qed

lemma CreateOrder_persisted:
  assumes "answers w (Suc (length (Products ord)))"
    and "list_all (line_passes w) (Products ord)"
    and "\<not> flt (TotalPaid ord) (order_total w (Products ord))"
  shows "orders (snd (CreateOrder cd ord w)) = orders w @ [stored_order w (priced_order w ord)]"
proof -
  note r = CreateOrder_reaches_finish [OF assms, of cd]
  have "orders (snd (CreateOrder cd ord w)) = orders (persisted_world w ord)"
    using CreateOrder_finish_fields [of cd "stored_order w (priced_order w ord)" "persisted_world w ord"
        "fst (CreateOrder cd ord w)" "snd (CreateOrder cd ord w)"] r
    by simp
  then show ?thesis by (simp add: persisted_world_def)
qed

lemma TotalPrice_priced [simp]: "OrderProduct_TotalPrice (priced w l) = line_total w l"
  unfolding priced_def by simp

lemma line_totals_priced:
  "map OrderProduct_TotalPrice (map (priced w) ls) = map (line_total w) ls"
  by (induction ls) simp_all

lemma line_totals_stored:
  "map OrderProduct_TotalPrice (Products (stored_order w ord)) = map OrderProduct_TotalPrice (Products ord)"
proof -
  have "map (\<lambda>kl. OrderProduct_TotalPrice (stored_line w kl)) (enumerate 0 (Products ord))
          = map (\<lambda>kl. OrderProduct_TotalPrice (snd kl)) (enumerate 0 (Products ord))"
    by (simp add: stored_line_def)
  also have "\<dots> = map OrderProduct_TotalPrice (map snd (enumerate 0 (Products ord)))"
    by (simp only: map_map comp_def)
  also have "\<dots> = map OrderProduct_TotalPrice (Products ord)"
    by (simp only: map_snd_enumerate)
  finally show ?thesis by (simp add: stored_order_def comp_def)
qed

lemma line_total_found:
  "line_passes w l \<Longrightarrow>
   \<exists>p. find_product w (ProductID l) = Some p \<and> \<not> Stock p < Quantity l
      \<and> line_total w l = fmul (Price p) (float64_of_int64 (Quantity l))"
  by (auto simp: line_passes_def line_total_def split: option.splits)

lemma scenario_priced_total:
  "TotalPrice (priced_order scenario_world scenario_draft) = Fin 10000"
  by (simp add: scenario_order_total)

lemma rnd_tenth: "rnd tenth = Fin tenth"
  by code_simp

lemma rnd_fifth: "rnd fifth = Fin fifth"
  by code_simp

lemma rnd_tenth_fifth: "rnd (tenth + fifth) = Fin (1351079888211149 / 4503599627370496)"
  by code_simp

lemma tenth_fifth_inexact: "(1351079888211149 / 4503599627370496 :: rat) \<noteq> tenth + fifth"
  by (simp add: tenth_def fifth_def)

lemma fraction_answers: "answers fraction_world n"
  by (rule answers_no_faults) (simp add: fraction_world_def example_world_def)

lemma fraction_find_product:
  "find_product fraction_world (Suc 0) = Some (example_product 1 (Fin tenth) 100)"
  "find_product fraction_world 2 = Some (example_product 2 (Fin fifth) 100)"
  by (simp_all add: fraction_world_def example_world_def example_product_def find_product_def)

lemma fraction_line_totals:
  "line_total fraction_world (example_line (Suc 0) 1) = Fin tenth"
  "line_total fraction_world (example_line 2 1) = Fin fifth"
  by (simp_all add: line_total_def fraction_find_product float64_of_int64_small rnd_tenth rnd_fifth)

lemma fraction_order_total:
  "order_total fraction_world (Products fraction_draft) = Fin (1351079888211149 / 4503599627370496)"
  by (simp add: order_total_def fraction_draft_def fraction_line_totals rnd_tenth rnd_tenth_fifth)

lemma fraction_passes: "list_all (line_passes fraction_world) (Products fraction_draft)"
  by (simp add: fraction_draft_def line_passes_def fraction_find_product)

lemma fraction_paid: "\<not> flt (TotalPaid fraction_draft) (order_total fraction_world (Products fraction_draft))"
  by (simp add: fraction_order_total) (simp add: fraction_draft_def)

lemma CreateOrder_repo_fields:
  "CreateOrder_repo ord w = (r, w') \<Longrightarrow> products w' = products w"
  by (auto simp: CreateOrder_repo_def logged_def split: option.splits)

lemma CreateOrder_products: "products (snd (CreateOrder cd ord w)) = products w"
proof -
  obtain r1 w1 where p: "CreateOrder_price ord w = (r1, w1)" by force
  have 1: "products w1 = products w"
    using only_logs_CreateOrder_price [OF p] only_logs_fields by blast
  show ?thesis
  proof (cases r1)
    case (Inl e)
    then show ?thesis using p 1 by (simp add: CreateOrder_def)
  next
    case (Inr ord1)
    obtain r2 w2 where r: "CreateOrder_repo ord1 w1 = (r2, w2)" by force
    have 2: "products w2 = products w" using CreateOrder_repo_fields [OF r] 1 by simp
    show ?thesis
    proof (cases r2)
      case (Inl e)
      then show ?thesis using p r Inr 2 by (simp add: CreateOrder_def)
    next
      case ord2: (Inr ord2)
      obtain r3 w3 where f: "CreateOrder_finish cd ord2 w2 = (r3, w3)" by force
      have "products w3 = products w" using CreateOrder_finish_fields [OF f] 2 by simp
      then show ?thesis using p r Inr ord2 f by (simp add: CreateOrder_def)
    qed
  qed
qed

lemma GetProductByID_Inr:
  "GetProductByID i w = (Inr p', w1) \<Longrightarrow>
     failure w = None \<and> (\<exists>p. find_product w i = Some p \<and> p' = p\<lparr>Product_Category := None\<rparr>)
     \<and> w1 = logged (ProductRepo_GetProductByID i) w"
  by (auto simp: GetProductByID_def find_product_def split: option.splits)

lemma GetCategoryByID_Inr:
  "GetCategoryByID i w = (Inr c, w1) \<Longrightarrow>
     failure w = None \<and> find_category w i = Some c \<and> w1 = logged (CategoryRepo_GetCategoryByID i) w"
  by (auto simp: GetCategoryByID_def find_category_def split: option.splits)

lemma GetUserByID_Inr:
  "GetUserByID i w = (Inr u, w1) \<Longrightarrow>
     failure w = None \<and> find_user w i = Some u \<and> w1 = logged (UserRepo_GetUserByID i) w"
  by (auto simp: GetUserByID_def find_user_def split: option.splits)

lemma GetPaymentByID_Inr:
  "GetPaymentByID i w = (Inr p, w1) \<Longrightarrow>
     failure w = None \<and> find_payment w i = Some p \<and> w1 = logged (PaymentRepo_GetPaymentByID i) w"
  by (auto simp: GetPaymentByID_def find_payment_def split: option.splits)

lemma attach_products_Inr:
  "attach_products ls w = (Inr ls', w') \<Longrightarrow>
     answers w (2 * length ls) \<and> list_all (line_resolves w) ls"
proof (induction ls arbitrary: w ls' w')
  case Nil
  show ?case by (simp add: answers_iff)
next
  case (Cons l ls)
  from Cons.prems obtain p' w1 c w2 rest' where
    g1: "GetProductByID (ProductID l) w = (Inr p', w1)" and
    g2: "GetCategoryByID (Product_CategoryID p') w1 = (Inr c, w2)" and
    g3: "attach_products ls w2 = (Inr rest', w')"
    by (auto split: prod.splits sum.splits)
  from GetProductByID_Inr [OF g1] obtain p where
    f1: "failure w = None" and p: "find_product w (ProductID l) = Some p"
    and p': "p' = p\<lparr>Product_Category := None\<rparr>"
    and w1: "w1 = logged (ProductRepo_GetProductByID (ProductID l)) w"
    by blast
  from GetCategoryByID_Inr [OF g2] have
    f2: "failure w1 = None" and c: "find_category w1 (Product_CategoryID p') = Some c"
    and w2: "w2 = logged (CategoryRepo_GetCategoryByID (Product_CategoryID p')) w1"
    by simp_all
  from Cons.IH [OF g3] have a2: "answers w2 (2 * length ls)" and r2: "list_all (line_resolves w2) ls"
    by simp_all
  have "answers w1 (Suc (2 * length ls))"
    using answers_Suc [of w1 "2 * length ls"] f2 a2 w2 by simp
  then have "answers w (Suc (Suc (2 * length ls)))"
    using answers_Suc [of w "Suc (2 * length ls)"] f1 w1 by simp
  moreover have "line_resolves w l"
    using p c p' w1 by (simp add: line_resolves_def product_resolves_def)
  moreover have "list_all (line_resolves w) ls" using r2 w1 w2 by simp
  ultimately show ?case by simp
qed

lemma answers_append:
  assumes "answers w m" and "answers w' n" and "calls w' = calls w @ cs" and "length cs = m"
    and "fault w' = fault w"
  shows "answers w (m + n)"
  unfolding answers_iff
proof (intro allI impI)
  fix k assume k: "k < m + n"
  show "fault w (length (calls w) + k) = None"
  proof (cases "k < m")
    case True
    then show ?thesis using assms(1) by (simp add: answers_iff)
  next
    case False
    then have "k - m < n" using k by simp
    then have "fault w' (length (calls w') + (k - m)) = None" using assms(2) by (simp add: answers_iff)
    then show ?thesis using assms(3,4,5) False by simp
  qed
qed

lemma enrich_Inr_conditions:
  assumes "enrich ord w = (Inr ord1, w1)"
  shows "answers w (2 + 2 * length (Products ord))" and "find_user w (UserID ord) \<noteq> None"
    and "find_payment w (PaymentID ord) \<noteq> None" and "list_all (line_resolves w) (Products ord)"
proof -
  from assms obtain u wa p wb ls' where
    g1: "GetUserByID (UserID ord) w = (Inr u, wa)" and
    g2: "GetPaymentByID (PaymentID ord) wa = (Inr p, wb)" and
    g3: "attach_products (Products ord) wb = (Inr ls', w1)"
    by (auto simp: enrich_def split: prod.splits sum.splits)
  note u = GetUserByID_Inr [OF g1] and p = GetPaymentByID_Inr [OF g2]
    and a = attach_products_Inr [OF g3]
  show "find_user w (UserID ord) \<noteq> None" using u by simp
  show "find_payment w (PaymentID ord) \<noteq> None" using u p by (simp add: find_payment_def logged_def)
  show "list_all (line_resolves w) (Products ord)" using a u p by simp
  have "answers wa (Suc (2 * length (Products ord)))"
    using answers_Suc [of wa "2 * length (Products ord)"] p a by simp
  then have "answers w (Suc (Suc (2 * length (Products ord))))"
    using answers_Suc [of w "Suc (2 * length (Products ord))"] u by simp
  then show "answers w (2 + 2 * length (Products ord))" by simp
qed

lemma cache_DeleteByPrefix_None:
  "cache_DeleteByPrefix pat w = (None, w') \<Longrightarrow>
     failure w = None \<and> calls w' = calls w @ [Cache_DeleteByPrefix pat] \<and> fault w' = fault w"
  by (auto simp: cache_DeleteByPrefix_def logged_def split: option.splits)

lemma cache_Set_None:
  "cache_Set k b w = (None, w') \<Longrightarrow> failure w = None"
  by (auto simp: cache_Set_def split: option.splits)

lemma CreateOrder_finish_Inr_conditions:
  assumes "CreateOrder_finish cd ord w = (Inr r, w')"
  shows "answers w (4 + 2 * length (Products ord))"
    and "list_all (line_resolves w) (Products ord)"
    and "\<exists>u p blob. find_user w (UserID ord) = Some u \<and> find_payment w (PaymentID ord) = Some p
           \<and> Serialize_Order cd (ord\<lparr>Order_User := Some u, Order_Payment := Some p,
                 Products := map (attached w) (Products ord)\<rparr>) = Inr blob"
proof -
  let ?L = "length (Products ord)"
  from assms obtain ord1 w1 w2 blob where
    e: "enrich ord w = (Inr ord1, w1)" and
    d: "cache_DeleteByPrefix ''orders:*'' w1 = (None, w2)" and
    s: "Serialize_Order cd ord1 = Inr blob" and
    c: "cache_Set (GenerateCacheKey cd ''order'' (IdOf (ID ord1))) blob w2 = (None, w')"
    by (auto simp: CreateOrder_finish_def split: prod.splits sum.splits option.splits)
  note ec = enrich_Inr_conditions [OF e]
  from ec(2,3) obtain u p where u: "find_user w (UserID ord) = Some u"
    and p: "find_payment w (PaymentID ord) = Some p"
    by auto
  from enrich_pass [OF ec(1) u p ec(4)] e obtain cs where
    len: "length cs = 2 + 2 * ?L" and
    o1: "ord1 = ord\<lparr>Order_User := Some u, Order_Payment := Some p,
                     Products := map (attached w) (Products ord)\<rparr>" and
    w1: "w1 = w\<lparr>calls := calls w @ cs\<rparr>"
    by auto
  show "list_all (line_resolves w) (Products ord)" by (rule ec(4))
  show "\<exists>u p blob. find_user w (UserID ord) = Some u \<and> find_payment w (PaymentID ord) = Some p
           \<and> Serialize_Order cd (ord\<lparr>Order_User := Some u, Order_Payment := Some p,
                 Products := map (attached w) (Products ord)\<rparr>) = Inr blob"
    using u p s o1 by blast
  note dn = cache_DeleteByPrefix_None [OF d] and cn = cache_Set_None [OF c]
  have a1: "answers w1 1"
    using dn by (simp add: answers_iff failure_def)
  have a2: "answers w2 1"
    using cn by (simp add: answers_iff failure_def)
  have a12: "answers w1 (1 + 1)"
    using a1 a2 by (rule answers_append [where cs = "[Cache_DeleteByPrefix ''orders:*'']"]) (use dn in simp_all)
  have "answers w ((2 + 2 * ?L) + (1 + 1))"
    by (rule answers_append [where w' = w1 and cs = cs, OF ec(1) a12]) (simp_all add: w1 len)
  moreover have "(2 + 2 * ?L) + (1 + 1) = 4 + 2 * ?L" by simp
  ultimately show "answers w (4 + 2 * ?L)" by (simp only:)
qed

lemma find_product_fault [simp]: "find_product (w\<lparr>fault := f\<rparr>) = find_product w"
  by (simp add: find_product_def fun_eq_iff)

lemma line_passes_fault [simp]: "line_passes (w\<lparr>fault := f\<rparr>) = line_passes w"
  by (simp add: line_passes_def fun_eq_iff)

lemma line_total_fault [simp]: "line_total (w\<lparr>fault := f\<rparr>) = line_total w"
  by (simp add: line_total_def fun_eq_iff)

lemma order_total_fault [simp]: "order_total (w\<lparr>fault := f\<rparr>) = order_total w"
  by (simp add: order_total_def fun_eq_iff)

lemma cache_down_answers: "answers cache_down_world (Suc (Suc 0))"
  by (simp add: answers_iff cache_down_world_def scenario_world_def example_world_def)

lemma cache_down_fails: "\<not> answers cache_down_world 8"
proof
  assume "answers cache_down_world 8"
  then have "\<forall>k<8. fault cache_down_world (length (calls cache_down_world) + k) = None"
    by (simp add: answers_iff)
  then have "6 < (8::nat) \<longrightarrow> fault cache_down_world (length (calls cache_down_world) + 6) = None"
    by (rule spec)
  then show False
    by (simp add: cache_down_world_def scenario_world_def example_world_def)
qed

lemma cache_Get_hit:
  "failure w = None \<Longrightarrow> map_of (cache w) key = Some blob \<Longrightarrow>
   cache_Get key w = (Inr blob, logged (Cache_Get key) w)"
  by (simp add: cache_Get_def)

lemma cached_world_failure: "failure cached_world = None"
  by (simp add: failure_def cached_world_def scenario_world_def example_world_def no_faults_def)

lemma example_keys:
  "GenerateCacheKey example_codec ''order'' (IdOf (Suc 0)) = ''order:i''"
  "GenerateCacheKey example_codec ''category'' (IdOf (Suc 0)) = ''category:i''"
  by (simp_all add: example_codec_def)

lemma example_decoders:
  "Deserialize_Order example_codec b = Inl (ErrOther ''unexpected end of JSON input'')"
  "Deserialize_Category example_codec b = Inl (ErrOther ''unexpected end of JSON input'')"
  by (simp_all add: example_codec_def)

lemma cached_world_hits:
  "map_of (cache cached_world) ''order:i'' = Some ''{''"
  "map_of (cache cached_world) ''category:i'' = Some ''{''"
  by (simp_all add: cached_world_def)

lemma pow2_nonneg [simp]: "0 \<le> pow2 e"
  by (rule less_imp_le) simp

lemma pow2_powi: "pow2 e = 2 powi e"
  by (simp add: pow2_def power_int_def inverse_eq_divide power_one_over)

lemma pow2_add: "pow2 (a + b) = pow2 a * pow2 b"
  by (simp add: pow2_powi power_int_add)

lemma pow2_mono: "a \<le> b \<Longrightarrow> pow2 a \<le> pow2 b"
  by (simp add: pow2_powi power_int_increasing)

lemma ilog2_le:
  assumes "0 < a"
  shows "pow2 (ilog2 a) \<le> a"
proof (cases "1 \<le> a")
  case True
  then have f: "0 < \<lfloor>a\<rfloor>" by linarith
  have k: "0 \<le> bitlen \<lfloor>a\<rfloor> - 1" using f by (simp add: bitlen_alt_def)
  have "(2::int) ^ nat (bitlen \<lfloor>a\<rfloor> - 1) \<le> \<lfloor>a\<rfloor>" using bitlen_bounds [OF f] by simp
  then have "rat_of_int (2 ^ nat (bitlen \<lfloor>a\<rfloor> - 1)) \<le> of_int \<lfloor>a\<rfloor>" by (simp only: of_int_le_iff)
  also have "\<dots> \<le> a" by simp
  finally have "2 ^ nat (bitlen \<lfloor>a\<rfloor> - 1) \<le> a" by simp
  then show ?thesis using True k by (simp add: ilog2_def pow2_def)
next
  case False
  define k where "k = bitlen \<lfloor>1 / a\<rfloor> - 1"
  have "1 < 1 / a" using False assms by simp
  then have f: "0 < \<lfloor>1 / a\<rfloor>" by linarith
  have k0: "0 \<le> k" using f by (simp add: k_def bitlen_alt_def)
  have "\<lfloor>1 / a\<rfloor> < 2 ^ nat (bitlen \<lfloor>1 / a\<rfloor>)" using bitlen_bounds [OF f] by simp
  moreover have "nat (bitlen \<lfloor>1 / a\<rfloor>) = Suc (nat k)" using k0 by (simp add: k_def)
  ultimately have "\<lfloor>1 / a\<rfloor> < 2 ^ Suc (nat k)" by simp
  then have "1 / a < of_int (2 ^ Suc (nat k))" by (simp only: floor_less_iff)
  then have up: "1 / a < 2 ^ Suc (nat k)" by simp
  have "1 < a * 2 ^ Suc (nat k)"
    using up assms by (simp add: divide_less_eq mult.commute)
  then have low: "1 / 2 ^ Suc (nat k) < a"
    by (simp add: divide_less_eq)
  show ?thesis
  proof (cases "a * pow2 k = 1")
    case True
    then have il: "ilog2 a = - k" using False by (simp add: ilog2_def Let_def k_def)
    have "pow2 (- k) * pow2 k = 1" using pow2_add [of "- k" k] by (simp add: pow2_def)
    then have "pow2 (- k) = a" using True by (metis mult_cancel_right pow2_pos less_irrefl)
    then show ?thesis by (simp add: il)
  next
    case neq: False
    then have il: "ilog2 a = - k - 1" using False by (simp add: ilog2_def Let_def k_def)
    have "pow2 (- k - 1) = 1 / 2 ^ nat (k + 1)" using k0 pow2_nonpos [of "- k - 1"] by simp
    moreover have "nat (k + 1) = Suc (nat k)" using k0 by simp
    ultimately show ?thesis using low by (simp add: il)
  qed
qed

lemma round_half_even_error: "\<bar>of_int (round_half_even q) - q\<bar> \<le> 1 / 2"
proof -
  have "of_int \<lfloor>q\<rfloor> \<le> q" "q < of_int \<lfloor>q\<rfloor> + 1" by linarith+
  then show ?thesis by (auto simp: round_half_even_def Let_def)
qed

lemma round_mag_error:
  assumes "0 < a"
  shows "\<bar>round_mag a - a\<bar> \<le> pow2 (max (ilog2 a) (- 1022) - 52) / 2"
proof -
  let ?p = "pow2 (max (ilog2 a) (- 1022) - 52)"
  have p: "0 < ?p" by simp
  have pn: "?p \<noteq> 0" using pow2_pos [of "max (ilog2 a) (- 1022) - 52"] by (rule less_imp_neq [symmetric])
  have "round_mag a - a = (of_int (round_half_even (a / ?p)) - a / ?p) * ?p"
    using pn by (simp add: round_mag_def Let_def algebra_simps)
  then have "\<bar>round_mag a - a\<bar> = \<bar>of_int (round_half_even (a / ?p)) - a / ?p\<bar> * ?p"
    by (simp add: abs_mult abs_of_pos)
  also have "\<dots> \<le> (1 / 2) * ?p"
    using round_half_even_error [of "a / ?p"] p by (intro mult_right_mono) simp_all
  finally show ?thesis by simp
qed

lemma round_mag_close:
  assumes "0 < a"
  shows "\<bar>round_mag a - a\<bar> \<le> max (a / 2 ^ 53) (1 / 2 ^ 1075)"
proof (cases "- 1022 \<le> ilog2 a")
  case True
  then have "max (ilog2 a) (- 1022) - 52 = ilog2 a + (- 52)" by simp
  then have "pow2 (max (ilog2 a) (- 1022) - 52) = pow2 (ilog2 a) * pow2 (- 52)"
    by (simp only: pow2_add)
  also have "\<dots> \<le> a * pow2 (- 52)" using ilog2_le [OF assms] by (intro mult_right_mono) (simp_all add: less_imp_le)
  finally have "pow2 (max (ilog2 a) (- 1022) - 52) / 2 \<le> a * pow2 (- 52) / 2" by simp
  also have "\<dots> = a / 2 ^ 53" by (simp add: pow2_def)
  finally show ?thesis using round_mag_error [OF assms] by linarith
next
  case False
  then have "max (ilog2 a) (- 1022) - 52 = - 1074" by simp
  then have "pow2 (max (ilog2 a) (- 1022) - 52) / 2 = 1 / 2 ^ 1075" by (simp add: pow2_def)
  then show ?thesis using round_mag_error [OF assms] by linarith
qed
















lemma scenario_line_total_200:
  "line_total scenario_world (example_line (Suc 0) 200) = Fin 1000000"
  using scenario_line_total [of 200] by simp

lemma appends_refl [simp]: "appends w w"
  by (simp add: appends_def)

lemma appends_trans: "appends w w1 \<Longrightarrow> appends w1 w2 \<Longrightarrow> appends w w2"
  by (auto simp: appends_def)

lemma only_logs_appends: "only_logs w w' \<Longrightarrow> appends w w'"
  by (auto simp: only_logs_def appends_def)

lemma appends_cache_Set: "cache_Set key blob w = (r, w') \<Longrightarrow> appends w w'"
  by (auto simp: cache_Set_def appends_def logged_def split: option.splits)

lemma appends_attach_users_payments: "attach_users_payments ords w = (r, w') \<Longrightarrow> appends w w'"
proof (induction ords arbitrary: w r w')
  case Nil
  then show ?case by simp
next
  case (Cons ord rest)
  show ?case
    using Cons.prems Cons.IH
    by (auto split: prod.splits sum.splits
             dest!: only_logs_GetUserByID only_logs_GetPaymentByID only_logs_appends
             intro: appends_trans)
qed

lemma appends_attach_all_products: "attach_all_products ords w = (r, w') \<Longrightarrow> appends w w'"
proof (induction ords arbitrary: w r w')
  case Nil
  then show ?case by simp
next
  case (Cons ord rest)
  show ?case
    using Cons.prems Cons.IH
    by (auto split: prod.splits sum.splits
             dest!: only_logs_attach_products only_logs_appends
             intro: appends_trans)
qed

lemma appends_attach_categories: "attach_categories ps w = (r, w') \<Longrightarrow> appends w w'"
proof (induction ps arbitrary: w r w')
  case Nil
  then show ?case by simp
next
  case (Cons p rest)
  show ?case
    using Cons.prems Cons.IH
    by (auto split: prod.splits sum.splits
             dest!: only_logs_GetCategoryByID only_logs_appends
             intro: appends_trans)
qed

lemma cache_Get_Inl: "fst (cache_Get key w) = Inl e \<Longrightarrow> cache_Get key w = (Inl e, logged (Cache_Get key) w)"
  by (auto simp: cache_Get_def split: option.splits)

lemma ListOrders_repo_calls:
  "ListOrders_repo skip limit w = (r, w') \<Longrightarrow> calls w' = calls w @ [OrderRepo_ListOrders skip limit]"
  by (auto simp: ListOrders_repo_def logged_def split: option.splits)

lemma ListProducts_calls:
  "ListProducts ilike search categoryId skip limit w = (r, w') \<Longrightarrow>
   calls w' = calls w @ [ProductRepo_ListProducts search categoryId skip limit]"
  by (auto simp: ListProducts_def logged_def split: option.splits)

lemma ListOrders_miss_calls:
  assumes "fst (cache_Get (GenerateCacheKey cd ''orders''
                  (Str (GenerateCacheKeyParams cd [Uint64 skip, Uint64 limit]))) w) = Inl e"
  shows "\<exists>cs. calls (snd (ListOrders cd skip limit w))
            = calls w @ [Cache_Get (GenerateCacheKey cd ''orders''
                  (Str (GenerateCacheKeyParams cd [Uint64 skip, Uint64 limit]))),
                         OrderRepo_ListOrders skip limit] @ cs"
proof -
  let ?key = "GenerateCacheKey cd ''orders'' (Str (GenerateCacheKeyParams cd [Uint64 skip, Uint64 limit]))"
  let ?w1 = "logged (Cache_Get ?key) w"
  note g = cache_Get_Inl [OF assms]
  obtain r2 w2 where l: "ListOrders_repo skip limit ?w1 = (r2, w2)" by force
  have c2: "calls w2 = calls w @ [Cache_Get ?key, OrderRepo_ListOrders skip limit]"
    using ListOrders_repo_calls [OF l] by (simp add: logged_def)
  have "appends w2 (snd (ListOrders cd skip limit w))"
    using g l
    by (auto simp: ListOrders_def split: prod.splits sum.splits option.splits
             dest!: appends_attach_users_payments appends_attach_all_products appends_cache_Set
             intro: appends_trans)
  then show ?thesis using c2 by (auto simp: appends_def)
qed

lemma ProductService_ListProducts_miss_calls:
  assumes "fst (cache_Get (GenerateCacheKey cd ''products''
                  (Str (GenerateCacheKeyParams cd [Uint64 skip, Uint64 limit, IdOf categoryId, Str search]))) w) = Inl e"
  shows "\<exists>cs. calls (snd (ProductService_ListProducts ilike cd search categoryId skip limit w))
            = calls w @ [Cache_Get (GenerateCacheKey cd ''products''
                  (Str (GenerateCacheKeyParams cd [Uint64 skip, Uint64 limit, IdOf categoryId, Str search]))),
                         ProductRepo_ListProducts search categoryId skip limit] @ cs"
proof -
  let ?key = "GenerateCacheKey cd ''products''
                  (Str (GenerateCacheKeyParams cd [Uint64 skip, Uint64 limit, IdOf categoryId, Str search]))"
  let ?w1 = "logged (Cache_Get ?key) w"
  note g = cache_Get_Inl [OF assms]
  obtain r2 w2 where l: "ListProducts ilike search categoryId skip limit ?w1 = (r2, w2)" by force
  have c2: "calls w2 = calls w @ [Cache_Get ?key, ProductRepo_ListProducts search categoryId skip limit]"
    using ListProducts_calls [OF l] by (simp add: logged_def)
  have "appends w2 (snd (ProductService_ListProducts ilike cd search categoryId skip limit w))"
    using g l
    by (auto simp: ProductService_ListProducts_def split: prod.splits sum.splits option.splits
             dest!: appends_attach_categories appends_cache_Set
             intro: appends_trans)
  then show ?thesis using c2 by (auto simp: appends_def)
qed

lemma offsets_differ:
  fixes skip limit :: "64 word"
  assumes "1 \<le> unat skip" and "3 \<le> unat limit" and "unat skip * unat limit < 2 ^ 64"
  shows "(skip - 1) * limit \<noteq> skip"
proof
  assume eq: "(skip - 1) * limit = skip"
  have s1: "unat (skip - 1) = unat skip - 1"
    using assms(1) by (simp add: unat_sub word_le_nat_alt)
  have "unat (skip - 1) \<le> unat skip" by (simp add: s1)
  then have "unat (skip - 1) * unat limit \<le> unat skip * unat limit"
    by (rule mult_le_mono1)
  then have "unat (skip - 1) * unat limit < 2 ^ 64" using assms(3) by (rule le_less_trans)
  then have "unat ((skip - 1) * limit) = unat (skip - 1) * unat limit"
    using unat_mult_lem [of "skip - 1" limit] by simp
  then have "unat skip = (unat skip - 1) * unat limit" using eq s1 by simp
  moreover have "unat skip \<noteq> (unat skip - 1) * unat limit"
  proof (cases "unat skip = 1")
    case True
    then show ?thesis by simp
  next
    case False
    then have 2: "2 \<le> unat skip" using assms(1) by simp
    have a: "(unat skip - 1) * 3 \<le> (unat skip - 1) * unat limit"
      using assms(2) by (rule mult_le_mono2)
    have b: "unat skip < (unat skip - 1) * 3" using 2 by simp
    from b a have "unat skip < (unat skip - 1) * unat limit" by (rule less_le_trans)
    then show ?thesis by (rule less_imp_neq)
  qed
  ultimately show False by simp
qed

lemma ListProducts_unfiltered:
  "failure w = None \<Longrightarrow>
   fst (ListProducts ilike [] 0 skip limit w)
     = Inr (map (\<lambda>p. p\<lparr>Product_Category := None\<rparr>)
              (take (unat limit) (drop (unat ((skip - 1) * limit)) (sort_key Product_ID (products w)))))"
  by (simp add: ListProducts_def ListProducts_query_def run_product_query_def)

lemma ListOrders_repo_page:
  "failure w = None \<Longrightarrow>
   fst (ListOrders_repo skip limit w)
     = Inr (take (unat limit) (drop (unat skip) (sort_key ID (orders w))))"
  by (simp add: ListOrders_repo_def page_def)

lemma scenario_listing_failure: "failure scenario_listing_world = None"
  by (simp add: failure_def scenario_listing_world_def scenario_world_def example_world_def
        no_faults_def)

lemma scenario_listing_tables:
  "products scenario_listing_world = [example_product 1 (Fin 5000) 100]"
  "orders scenario_listing_world = [scenario_draft]"
  "calls scenario_listing_world = []"
  by (simp_all add: scenario_listing_world_def scenario_world_def example_world_def)

lemma scenario_listing_miss:
  "fst (cache_Get (GenerateCacheKey example_codec ''orders''
          (Str (GenerateCacheKeyParams example_codec [Uint64 1, Uint64 5]))) scenario_listing_world)
     = Inl (ErrOther ''redis: nil'')"
  by (simp add: cache_Get_def scenario_listing_failure)
     (simp add: scenario_listing_world_def scenario_world_def example_world_def example_codec_def)

lemma round_half_even_ge_floor: "\<lfloor>q\<rfloor> \<le> round_half_even q"
  by (simp add: round_half_even_def Let_def)

lemma round_mag_ge_unit:
  assumes "pow2 (max (ilog2 a) (- 1022) - 52) \<le> a"
  shows "pow2 (max (ilog2 a) (- 1022) - 52) \<le> round_mag a"
proof -
  let ?p = "pow2 (max (ilog2 a) (- 1022) - 52)"
  have p: "0 < ?p" by simp
  have "1 \<le> a / ?p" using assms p by (simp add: le_divide_eq)
  then have "1 \<le> \<lfloor>a / ?p\<rfloor>" by linarith
  then have "1 \<le> round_half_even (a / ?p)"
    using round_half_even_ge_floor [of "a / ?p"] by linarith
  then have "(1::rat) \<le> of_int (round_half_even (a / ?p))" by simp
  then have "1 * ?p \<le> of_int (round_half_even (a / ?p)) * ?p"
    by (intro mult_right_mono) simp_all
  then show ?thesis by (simp add: round_mag_def Let_def)
qed

lemma round_mag_pos:
  assumes "pow2 (- 1074) \<le> a"
  shows "0 < round_mag a"
proof -
  have a: "0 < a" using assms pow2_pos [of "- 1074"] by linarith
  have "pow2 (max (ilog2 a) (- 1022) - 52) \<le> a"
  proof (cases "- 1022 \<le> ilog2 a")
    case True
    then have "max (ilog2 a) (- 1022) - 52 \<le> ilog2 a" by simp
    then have "pow2 (max (ilog2 a) (- 1022) - 52) \<le> pow2 (ilog2 a)" by (rule pow2_mono)
    also have "\<dots> \<le> a" using a by (rule ilog2_le)
    finally show ?thesis .
  next
    case False
    then have "max (ilog2 a) (- 1022) - 52 = - 1074" by simp
    then show ?thesis using assms by simp
  qed
  from round_mag_ge_unit [OF this] show ?thesis
    using pow2_pos [of "max (ilog2 a) (- 1022) - 52"] by linarith
qed

lemma ilog2_nonneg: "1 \<le> a \<Longrightarrow> 0 \<le> ilog2 a"
proof -
  assume a: "1 \<le> a"
  then have "0 < \<lfloor>a\<rfloor>" by linarith
  then have "1 \<le> bitlen \<lfloor>a\<rfloor>" by (simp add: bitlen_alt_def)
  then show ?thesis using a by (simp add: ilog2_def)
qed

lemma round_mag_ge_1:
  assumes "1 \<le> a"
  shows "1 \<le> round_mag a"
proof -
  have a: "0 < a" using assms by simp
  have i: "0 \<le> ilog2 a" using assms by (rule ilog2_nonneg)
  let ?u = "ilog2 a - 52"
  have u: "max (ilog2 a) (- 1022) - 52 = ?u" using i by simp
  have p: "pow2 (ilog2 a) = pow2 ?u * 2 ^ 52"
    using pow2_add [of ?u 52] by (simp add: pow2_def)
  have "pow2 (ilog2 a) \<le> a" using a by (rule ilog2_le)
  then have "2 ^ 52 \<le> a / pow2 ?u" by (simp add: p le_divide_eq mult.commute)
  then have "(2::int) ^ 52 \<le> \<lfloor>a / pow2 ?u\<rfloor>" by (simp add: le_floor_iff)
  then have "(2::int) ^ 52 \<le> round_half_even (a / pow2 ?u)"
    using round_half_even_ge_floor [of "a / pow2 ?u"] by linarith
  then have "rat_of_int (2 ^ 52) \<le> of_int (round_half_even (a / pow2 ?u))"
    by (simp only: of_int_le_iff)
  then have "rat_of_int (2 ^ 52) * pow2 ?u \<le> of_int (round_half_even (a / pow2 ?u)) * pow2 ?u"
    by (intro mult_right_mono) simp_all
  then have "pow2 (ilog2 a) \<le> round_mag a"
    by (simp add: round_mag_def Let_def u p mult.commute)
  moreover have "pow2 0 \<le> pow2 (ilog2 a)" using i by (rule pow2_mono)
  ultimately show ?thesis by (simp add: pow2_def)
qed

lemma float64_least:
  assumes "0 < x" and "rnd x = Fin x"
  shows "pow2 (- 1074) \<le> x"
proof -
  let ?u = "max (ilog2 x) (- 1022) - 52"
  let ?n = "round_half_even (x / pow2 ?u)"
  have "round_mag x = x" using assms by (simp add: rnd_def Let_def split: if_splits)
  then have x: "x = of_int ?n * pow2 ?u" by (simp add: round_mag_def Let_def)
  have "0 < rat_of_int ?n * pow2 ?u" using assms(1) x by simp
  then have "0 < rat_of_int ?n" using pow2_pos by (rule zero_less_mult_pos2)
  then have "1 \<le> ?n" by simp
  then have "(1::rat) \<le> of_int ?n" by simp
  then have "1 * pow2 ?u \<le> of_int ?n * pow2 ?u" by (intro mult_right_mono) simp_all
  then have "pow2 ?u \<le> x" using x by simp
  moreover have "pow2 (- 1074) \<le> pow2 ?u" by (rule pow2_mono) simp
  ultimately show ?thesis by linarith
qed

lemma rnd_negative:
  assumes "r < 0" and "pow2 (- 1074) \<le> - r"
  shows "flt (rnd r) (Fin 0)"
proof -
  have "\<bar>r\<bar> = - r" using assms(1) by simp
  then have "0 < round_mag \<bar>r\<bar>" using round_mag_pos [OF assms(2)] by simp
  then show ?thesis using assms(1) by (simp add: rnd_def Let_def)
qed

lemma float64_of_negative:
  assumes "q < 0"
  shows "float64_of_int64 q = NInf \<or> (\<exists>v. 1 \<le> v \<and> float64_of_int64 q = Fin (- v))"
proof -
  have a: "\<bar>rat_of_int q\<bar> = of_int (- q)" using assms by simp
  have "1 \<le> rat_of_int (- q)" using assms by (simp add: of_int_le_iff [of 1, simplified] del: of_int_minus)
  then have "1 \<le> round_mag (of_int (- q))" by (rule round_mag_ge_1)
  then show ?thesis using assms a by (simp add: float64_of_int64_def rnd_def Let_def)
qed

lemma fmul_positive_negative:
  assumes "is_float64 x" and "flt (Fin 0) x" and "q < 0"
  shows "flt (fmul x (float64_of_int64 q)) (Fin 0)"
proof (cases x)
  case (Fin a)
  then have a: "0 < a" "rnd a = Fin a" using assms(1,2) by simp_all
  from float64_least [OF a] have l: "pow2 (- 1074) \<le> a" .
  from float64_of_negative [OF assms(3)] show ?thesis
  proof
    assume "float64_of_int64 q = NInf"
    then show ?thesis using Fin a by simp
  next
    assume "\<exists>v. 1 \<le> v \<and> float64_of_int64 q = Fin (- v)"
    then obtain v where v: "1 \<le> v" "float64_of_int64 q = Fin (- v)" by blast
    have "a * 1 \<le> a * v" using v(1) a(1) by (intro mult_left_mono) simp_all
    then have "pow2 (- 1074) \<le> - (a * - v)" using l by simp
    moreover have "a * - v < 0" using a(1) v(1) by (simp add: mult_less_0_iff)
    ultimately have "flt (rnd (a * - v)) (Fin 0)" by (intro rnd_negative)
    then show ?thesis using Fin v(2) by simp
  qed
next
  case PInf
  from float64_of_negative [OF assms(3)] show ?thesis using PInf by auto
next
  case NInf
  then show ?thesis using assms(2) by simp
next
  case NaN
  then show ?thesis using assms(2) by simp
qed

lemma float64_of_int64_finite:
  assumes "- (2 ^ 63) \<le> q" and "q < 2 ^ 63"
  shows "\<exists>v. float64_of_int64 q = Fin v"
proof (cases "q = 0")
  case True
  then show ?thesis by (simp add: float64_of_int64_def rnd_def)
next
  case False
  let ?a = "\<bar>rat_of_int q\<bar>"
  have pos: "0 < ?a" using False by simp
  have "\<bar>q\<bar> \<le> 2 ^ 63" using assms by simp
  then have "rat_of_int \<bar>q\<bar> \<le> rat_of_int (2 ^ 63)" by (simp only: of_int_le_iff)
  then have le: "?a \<le> 2 ^ 63" by simp
  have "\<bar>round_mag ?a - ?a\<bar> \<le> max (?a / 2 ^ 53) (1 / 2 ^ 1075)" using pos by (rule round_mag_close)
  moreover have "max (?a / 2 ^ 53) (1 / 2 ^ 1075) \<le> 2 ^ 63" using le pos by (simp add: field_simps)
  moreover have "(2::rat) ^ 64 = 2 ^ 63 + 2 ^ 63" by simp
  ultimately have "round_mag ?a \<le> 2 ^ 64" using le by linarith
  moreover have "(2::rat) ^ 64 < pow2 1024" by (simp add: pow2_def)
  ultimately have "\<not> pow2 1024 \<le> round_mag ?a" by linarith
  then show ?thesis using False by (simp add: float64_of_int64_def rnd_def Let_def)
qed

lemma fmul_zero: "fmul (Fin 0) (Fin v) = Fin 0"
  by (simp add: rnd_def)

lemma order_total_snoc: "order_total w (ls @ [l]) = fadd (order_total w ls) (line_total w l)"
  by (simp add: order_total_def)

lemma fmul_of_int:
  assumes "0 < m" and "\<bar>m * q\<bar> < 2 ^ 53"
  shows "fmul (Fin (of_int m)) (float64_of_int64 q) = Fin (of_int (m * q))"
proof -
  have "\<bar>q\<bar> * 1 \<le> \<bar>q\<bar> * m" using assms(1) by (intro mult_left_mono) simp_all
  then have "\<bar>q\<bar> \<le> \<bar>m * q\<bar>" using assms(1) by (simp add: abs_mult mult.commute)
  then have "\<bar>q\<bar> < 2 ^ 53" using assms(2) by linarith
  then have "float64_of_int64 q = Fin (of_int q)" by (rule float64_of_int64_small)
  moreover have "rnd (of_int (m * q)) = Fin (of_int (m * q))" using assms(2) by (rule rnd_of_int)
  ultimately show ?thesis by simp
qed

lemma fadd_of_int:
  assumes "\<bar>t + n\<bar> < 2 ^ 53"
  shows "fadd (Fin (of_int t)) (Fin (of_int n)) = Fin (of_int (t + n))"
  using rnd_of_int [OF assms] by simp

lemma order_total_insert:
  "order_total w (pre @ l # post)
     = foldl fadd (fadd (order_total w pre) (line_total w l)) (map (line_total w) post)"
  by (simp add: order_total_def)

lemma free_scenario_find_product:
  "find_product free_scenario_world (Suc 0) = Some (example_product 1 (Fin 0) 100)"
  by (simp add: free_scenario_world_def example_world_def example_product_def find_product_def)

lemma free_scenario_line_total:
  "\<bar>q\<bar> < 2 ^ 53 \<Longrightarrow> line_total free_scenario_world (example_line (Suc 0) q) = Fin 0"
  by (simp add: line_total_def free_scenario_find_product float64_of_int64_small)

lemma negative_line_total:
  "line_total scenario_world (example_line (Suc 0) (- 1)) = Fin (- 5000)"
  using scenario_line_total [of "- 1"] by simp

lemma negative_order_total:
  "order_total scenario_world (Products negative_draft) = Fin 5000"
  using scenario_line_total [of 2]
  by (simp add: order_total_def negative_draft_def negative_line_total)

lemma negative_created:
  "fst (CreateOrder example_codec negative_draft scenario_world)
     = Inr (created_order scenario_world negative_draft)"
proof (rule CreateOrder_succeeds(1))
  show "answers scenario_world (3 * length (Products negative_draft) + 5)"
    by (rule scenario_answers)
  show "list_all (line_passes scenario_world) (Products negative_draft)"
    by (simp add: negative_draft_def scenario_line_passes)
  show "\<not> flt (TotalPaid negative_draft) (order_total scenario_world (Products negative_draft))"
    by (simp add: negative_order_total) (simp add: negative_draft_def)
  show "find_user scenario_world (UserID negative_draft) = Some \<lparr>User_ID = 1, User_Name = ''John Doe'', User_Email = ''john@example.com''\<rparr>"
    by (simp add: negative_draft_def scenario_find_user)
  show "find_payment scenario_world (PaymentID negative_draft) = Some \<lparr>Payment_ID = 1, Payment_Name = ''Tunai'', Payment_Type = ''CASH'', Payment_Logo = ''cash.png''\<rparr>"
    by (simp add: negative_draft_def scenario_find_payment)
  show "list_all (line_resolves scenario_world) (Products negative_draft)"
    by (simp add: negative_draft_def scenario_line_resolves)
  show "Serialize_Order example_codec (created_order scenario_world negative_draft) = Inr ''order''"
    by simp
qed

lemma pow2_strict_mono: "a < b \<Longrightarrow> pow2 a < pow2 b"
  by (simp add: pow2_powi power_int_strict_increasing)

lemma pow2_le_iff: "pow2 a \<le> pow2 b \<longleftrightarrow> a \<le> b"
  using pow2_mono [of a b] pow2_strict_mono [of b a] by (auto simp: not_le [symmetric])

lemma pow2_less_iff: "pow2 a < pow2 b \<longleftrightarrow> a < b"
  using pow2_mono [of b a] pow2_strict_mono [of a b] by (auto simp: not_less [symmetric])

lemma ilog2_lt:
  assumes "0 < a"
  shows "a < pow2 (ilog2 a + 1)"
proof (cases "1 \<le> a")
  case True
  then have f: "0 < \<lfloor>a\<rfloor>" by linarith
  have k: "1 \<le> bitlen \<lfloor>a\<rfloor>" using f by (simp add: bitlen_alt_def)
  have "\<lfloor>a\<rfloor> < 2 ^ nat (bitlen \<lfloor>a\<rfloor>)" using bitlen_bounds [OF f] by simp
  then have "a < of_int (2 ^ nat (bitlen \<lfloor>a\<rfloor>))" by (simp only: floor_less_iff)
  then have "a < 2 ^ nat (bitlen \<lfloor>a\<rfloor>)" by simp
  then show ?thesis using True k by (simp add: ilog2_def pow2_def)
next
  case False
  define k where "k = bitlen \<lfloor>1 / a\<rfloor> - 1"
  have "1 < 1 / a" using False assms by simp
  then have f: "0 < \<lfloor>1 / a\<rfloor>" by linarith
  have k0: "0 \<le> k" using f by (simp add: k_def bitlen_alt_def)
  have "(2::int) ^ nat k \<le> \<lfloor>1 / a\<rfloor>" using bitlen_bounds [OF f] by (simp add: k_def)
  then have "rat_of_int (2 ^ nat k) \<le> of_int \<lfloor>1 / a\<rfloor>" by (simp only: of_int_le_iff)
  also have "\<dots> \<le> 1 / a" by simp
  finally have "2 ^ nat k \<le> 1 / a" by simp
  then have "a * 2 ^ nat k \<le> 1" using assms by (simp add: le_divide_eq mult.commute)
  then have ak: "a * pow2 k \<le> 1" using k0 by (simp add: pow2_def)
  have pk: "pow2 (- k) * pow2 k = 1" using pow2_add [of "- k" k] by (simp add: pow2_def)
  show ?thesis
  proof (cases "a * pow2 k = 1")
    case True
    then have il: "ilog2 a = - k" using False by (simp add: ilog2_def Let_def k_def)
    have "pow2 (- k) = a" using True pk by (metis mult_cancel_right pow2_pos less_irrefl)
    moreover have "pow2 (- k) < pow2 (- k + 1)" by (rule pow2_strict_mono) simp
    ultimately show ?thesis by (simp add: il)
  next
    case neq: False
    then have il: "ilog2 a = - k - 1" using False by (simp add: ilog2_def Let_def k_def)
    have "a * pow2 k < pow2 (- k) * pow2 k" using ak neq pk by simp
    then have "a < pow2 (- k)" by (simp add: mult_less_cancel_right)
    then show ?thesis by (simp add: il)
  qed
qed

lemma ilog2_unique:
  assumes "0 < a" and "pow2 k \<le> a" and "a < pow2 (k + 1)"
  shows "ilog2 a = k"
proof -
  have "pow2 (ilog2 a) < pow2 (k + 1)" using ilog2_le [OF assms(1)] assms(3) by linarith
  then have 1: "ilog2 a < k + 1" by (simp only: pow2_less_iff)
  have "pow2 k < pow2 (ilog2 a + 1)" using ilog2_lt [OF assms(1)] assms(2) by linarith
  then have 2: "k < ilog2 a + 1" by (simp only: pow2_less_iff)
  from 1 2 show ?thesis by simp
qed

lemma ilog2_mono:
  assumes "0 < a" and "a \<le> b"
  shows "ilog2 a \<le> ilog2 b"
proof -
  have b: "0 < b" using assms by simp
  have "pow2 (ilog2 a) < pow2 (ilog2 b + 1)"
    using ilog2_le [OF assms(1)] ilog2_lt [OF b] assms(2) by linarith
  then have "ilog2 a < ilog2 b + 1" by (simp only: pow2_less_iff)
  then show ?thesis by simp
qed

lemma round_half_even_le_floor: "round_half_even q \<le> \<lfloor>q\<rfloor> + 1"
  by (simp add: round_half_even_def Let_def)

lemma round_half_even_mono:
  assumes "q1 \<le> q2"
  shows "round_half_even q1 \<le> round_half_even q2"
proof (cases "\<lfloor>q1\<rfloor> = \<lfloor>q2\<rfloor>")
  case True
  have "q1 - of_int \<lfloor>q2\<rfloor> \<le> q2 - of_int \<lfloor>q2\<rfloor>" using assms by simp
  then show ?thesis using True by (auto simp: round_half_even_def Let_def)
next
  case False
  have "\<lfloor>q1\<rfloor> \<le> \<lfloor>q2\<rfloor>" using assms by (rule floor_mono)
  then have "\<lfloor>q1\<rfloor> + 1 \<le> \<lfloor>q2\<rfloor>" using False by simp
  then show ?thesis
    using round_half_even_le_floor [of q1] round_half_even_ge_floor [of q2] by linarith
qed

lemma round_half_even_le_int: "q \<le> of_int n \<Longrightarrow> round_half_even q \<le> n"
  using round_half_even_mono [of q "of_int n"] by simp

lemma round_half_even_ge_int: "of_int n \<le> q \<Longrightarrow> n \<le> round_half_even q"
  using round_half_even_mono [of "of_int n" q] by simp

lemma round_mag_eq: "round_mag a = of_int (round_half_even (a / pow2 (max (ilog2 a) (- 1022) - 52))) * pow2 (max (ilog2 a) (- 1022) - 52)"
  by (simp add: round_mag_def Let_def)

lemma pow2_diff: "pow2 a / pow2 b = pow2 (a - b)"
proof -
  have "pow2 (a - b) * pow2 b = pow2 a" using pow2_add [of "a - b" b] by simp
  moreover have "pow2 b \<noteq> 0" using pow2_pos [of b] by (rule less_imp_neq [symmetric])
  ultimately show ?thesis by (simp add: divide_eq_eq)
qed

lemma pow2_diff_const: "a - b = c \<Longrightarrow> pow2 a / pow2 b = pow2 c"
  by (simp add: pow2_diff)

lemma pow2_52: "pow2 52 = of_int (2 ^ 52)" and pow2_53: "pow2 53 = of_int (2 ^ 53)"
  by (simp_all add: pow2_def)

lemma pow2_nat: "0 \<le> e \<Longrightarrow> pow2 e = of_int (2 ^ nat e)"
  by (simp add: pow2_def)

lemma round_mag_le_top:
  assumes "0 < a"
  shows "round_mag a \<le> pow2 (max (ilog2 a) (- 1022) - 52 + 53)"
proof -
  let ?u = "max (ilog2 a) (- 1022) - 52"
  have "a < pow2 (ilog2 a + 1)" using assms by (rule ilog2_lt)
  also have "\<dots> \<le> pow2 (?u + 53)" by (rule pow2_mono) simp
  finally have "a / pow2 ?u \<le> pow2 (?u + 53) / pow2 ?u"
    by (intro divide_right_mono) (simp_all add: less_imp_le)
  also have "\<dots> = of_int (2 ^ 53)" by (simp add: pow2_diff_const [of _ _ 53] pow2_53)
  finally have "round_half_even (a / pow2 ?u) \<le> 2 ^ 53" by (rule round_half_even_le_int)
  then have "rat_of_int (round_half_even (a / pow2 ?u)) \<le> of_int (2 ^ 53)"
    by (simp only: of_int_le_iff)
  then have "rat_of_int (round_half_even (a / pow2 ?u)) * pow2 ?u \<le> of_int (2 ^ 53) * pow2 ?u"
    by (intro mult_right_mono) simp_all
  also have "\<dots> = pow2 (?u + 53)" using pow2_add [of ?u 53] by (simp add: pow2_def mult.commute)
  finally show ?thesis by (simp only: round_mag_eq)
qed

lemma round_mag_ge_bottom:
  assumes "0 < a" and "- 1022 \<le> ilog2 a"
  shows "pow2 (ilog2 a) \<le> round_mag a"
proof -
  let ?u = "max (ilog2 a) (- 1022) - 52"
  have u: "?u = ilog2 a - 52" using assms(2) by simp
  have "pow2 (ilog2 a) / pow2 ?u \<le> a / pow2 ?u"
    using ilog2_le [OF assms(1)] by (intro divide_right_mono) simp_all
  moreover have "pow2 (ilog2 a) / pow2 ?u = of_int (2 ^ 52)"
    unfolding u by (simp add: pow2_diff_const [of _ _ 52] pow2_52)
  ultimately have "of_int (2 ^ 52) \<le> a / pow2 ?u" by simp
  then have "2 ^ 52 \<le> round_half_even (a / pow2 ?u)" by (rule round_half_even_ge_int)
  then have "rat_of_int (2 ^ 52) \<le> of_int (round_half_even (a / pow2 ?u))"
    by (simp only: of_int_le_iff)
  then have "rat_of_int (2 ^ 52) * pow2 ?u \<le> of_int (round_half_even (a / pow2 ?u)) * pow2 ?u"
    by (intro mult_right_mono) simp_all
  moreover have "rat_of_int (2 ^ 52) * pow2 ?u = pow2 (ilog2 a)"
    using pow2_add [of "ilog2 a - 52" 52] by (simp add: u pow2_def mult.commute)
  ultimately show ?thesis by (simp only: round_mag_eq)
qed

lemma round_mag_mono:
  assumes "0 < a" and "a \<le> b"
  shows "round_mag a \<le> round_mag b"
proof -
  let ?ua = "max (ilog2 a) (- 1022) - 52" and ?ub = "max (ilog2 b) (- 1022) - 52"
  have b: "0 < b" using assms by simp
  have il: "ilog2 a \<le> ilog2 b" using assms by (rule ilog2_mono)
  then have le: "?ua \<le> ?ub" by simp
  show ?thesis
  proof (cases "?ua = ?ub")
    case True
    have "a / pow2 ?ub \<le> b / pow2 ?ub" using assms(2) by (intro divide_right_mono) simp_all
    then have "round_half_even (a / pow2 ?ub) \<le> round_half_even (b / pow2 ?ub)"
      by (rule round_half_even_mono)
    then have "rat_of_int (round_half_even (a / pow2 ?ub)) \<le> of_int (round_half_even (b / pow2 ?ub))"
      by (simp only: of_int_le_iff)
    then have "rat_of_int (round_half_even (a / pow2 ?ub)) * pow2 ?ub
                 \<le> of_int (round_half_even (b / pow2 ?ub)) * pow2 ?ub"
      by (intro mult_right_mono) simp_all
    then show ?thesis using True by (simp only: round_mag_eq)
  next
    case False
    from False le have lt: "?ua < ?ub" by (rule order.not_eq_order_implies_strict)
    then have n: "- 1022 \<le> ilog2 b" by arith
    then have ub: "?ub + 52 = ilog2 b" by simp
    have "round_mag a \<le> pow2 (?ua + 53)" using assms(1) by (rule round_mag_le_top)
    also have "\<dots> \<le> pow2 (?ub + 52)"
    proof (rule pow2_mono)
      show "?ua + 53 \<le> ?ub + 52" using lt by arith
    qed
    also have "\<dots> = pow2 (ilog2 b)" by (simp only: ub)
    also have "\<dots> \<le> round_mag b" using b n by (rule round_mag_ge_bottom)
    finally show ?thesis .
  qed
qed

lemma round_mag_idem:
  assumes "0 < a" and "0 < round_mag a"
  shows "round_mag (round_mag a) = round_mag a"
proof -
  define u where "u = max (ilog2 a) (- 1022) - 52"
  define n where "n = round_half_even (a / pow2 u)"
  define v where "v = round_mag a"
  have v: "v = of_int n * pow2 u" by (simp add: v_def n_def u_def round_mag_eq)
  have vpos: "0 < v" using assms(2) by (simp add: v_def)
  have top: "v \<le> pow2 (u + 53)" using round_mag_le_top [OF assms(1)] by (simp add: v_def u_def)
  have ulow: "- 1074 \<le> u" by (simp add: u_def)
  show ?thesis
  proof (cases "v = pow2 (u + 53)")
    case True
    have "v < pow2 (u + 53 + 1)" unfolding True by (rule pow2_strict_mono) simp
    with vpos True have il: "ilog2 v = u + 53" by (intro ilog2_unique) simp_all
    have uv: "max (ilog2 v) (- 1022) - 52 = u + 1" using ulow by (simp add: il)
    have "v / pow2 (u + 1) = of_int (2 ^ 52)"
      unfolding True by (simp add: pow2_diff_const [of _ _ 52] pow2_52)
    then have "round_half_even (v / pow2 (u + 1)) = 2 ^ 52"
      by (simp only: round_half_even_of_int)
    then have "round_mag v = of_int (2 ^ 52) * pow2 (u + 1)" by (simp only: round_mag_eq uv)
    also have "\<dots> = pow2 (u + 1) * pow2 52" by (simp only: pow2_52 mult.commute)
    also have "\<dots> = pow2 (u + 1 + 52)" by (simp only: pow2_add)
    also have "\<dots> = pow2 (u + 53)" by (simp add: add.assoc)
    finally show ?thesis by (simp add: v_def [symmetric] True)
  next
    case False
    then have lt: "v < pow2 (u + 53)" using top by simp
    have "pow2 (ilog2 v) < pow2 (u + 53)" using ilog2_le [OF vpos] lt by linarith
    then have "ilog2 v < u + 53" by (simp only: pow2_less_iff)
    then have le: "max (ilog2 v) (- 1022) - 52 \<le> u" using ulow by simp
    define u' where "u' = max (ilog2 v) (- 1022) - 52"
    have d: "0 \<le> u - u'" using le by (simp add: u'_def)
    have "v / pow2 u' = of_int n * (pow2 u / pow2 u')" by (simp add: v)
    also have "\<dots> = of_int n * of_int (2 ^ nat (u - u'))" using d by (simp only: pow2_diff pow2_nat)
    also have "\<dots> = of_int (n * 2 ^ nat (u - u'))" by simp
    finally have q: "v / pow2 u' = of_int (n * 2 ^ nat (u - u'))" .
    have "round_half_even (v / pow2 u') = n * 2 ^ nat (u - u')"
      by (simp only: q round_half_even_of_int)
    then have "round_mag v = of_int (n * 2 ^ nat (u - u')) * pow2 u'"
      by (simp only: round_mag_eq u'_def)
    also have "\<dots> = of_int n * (of_int (2 ^ nat (u - u')) * pow2 u')" by simp
    also have "of_int (2 ^ nat (u - u')) * pow2 u' = pow2 u"
      using pow2_add [of "u - u'" u'] d by (simp add: pow2_nat)
    finally show ?thesis by (simp add: v_def [symmetric] v)
  qed
qed

lemma rnd_idem: "is_float64 (rnd r)"
proof (cases "r = 0")
  case True
  then show ?thesis by (simp add: rnd_def)
next
  case False
  then have a: "0 < \<bar>r\<bar>" by simp
  define v where "v = round_mag \<bar>r\<bar>"
  have v0: "0 \<le> v" using a by (simp add: v_def round_mag_nonneg)
  show ?thesis
  proof (cases "pow2 1024 \<le> v")
    case True
    then show ?thesis using False by (simp add: rnd_def Let_def v_def [symmetric])
  next
    case fin: False
    show ?thesis
    proof (cases "v = 0")
      case True
      then show ?thesis using False fin by (simp add: rnd_def Let_def v_def [symmetric])
    next
      case nz: False
      then have vpos: "0 < v" using v0 by simp
      then have "round_mag v = v" using round_mag_idem [OF a] by (simp add: v_def)
      then have e: "rnd v = Fin v" "rnd (- v) = Fin (- v)"
        using vpos fin by (simp_all add: rnd_def Let_def)
      have rr: "rnd r = Fin (if 0 < r then v else - v)"
        using False fin by (simp add: rnd_def Let_def v_def [symmetric])
      show ?thesis unfolding rr using e by (cases "0 < r") simp_all
    qed
  qed
qed

lemma rnd_mono:
  assumes "r \<le> s"
  shows "\<not> flt (rnd s) (rnd r)"
proof -
  consider (neg) "s < 0" | (mid) "r \<le> 0" "0 \<le> s" | (pos) "0 < r" using assms by linarith
  then show ?thesis
  proof cases
    case neg
    then have r: "r < 0" using assms by simp
    have "round_mag \<bar>s\<bar> \<le> round_mag \<bar>r\<bar>" using neg assms by (intro round_mag_mono) simp_all
    then show ?thesis using neg r by (auto simp: rnd_def Let_def)
  next
    case mid
    have "0 \<le> round_mag \<bar>r\<bar>" "0 \<le> round_mag \<bar>s\<bar>" by (simp_all add: round_mag_nonneg)
    then show ?thesis using mid by (auto simp: rnd_def Let_def)
  next
    case pos
    then have s: "0 < s" using assms by simp
    have "round_mag \<bar>r\<bar> \<le> round_mag \<bar>s\<bar>" using pos assms by (intro round_mag_mono) simp_all
    then show ?thesis using pos s by (auto simp: rnd_def Let_def)
  qed
qed

lemma is_float64_fadd: "is_float64 (fadd a b)"
  by (cases a; cases b) (simp_all add: rnd_idem)

lemma is_float64_order_total: "is_float64 (order_total w ls)"
proof (induction ls rule: rev_induct)
  case Nil
  show ?case by (simp add: order_total_def)
next
  case (snoc l ls)
  show ?case by (simp only: order_total_snoc is_float64_fadd)
qed

lemma fadd_nonpos:
  assumes "is_float64 t" and "\<not> flt (Fin 0) x"
  shows "\<not> flt t (fadd t x)"
proof (cases t)
  case (Fin a)
  then have a: "rnd a = Fin a" using assms(1) by simp
  show ?thesis
  proof (cases x)
    case (Fin y)
    then have "a + y \<le> a" using assms(2) by simp
    then have "\<not> flt (rnd a) (rnd (a + y))" by (rule rnd_mono)
    then show ?thesis using \<open>t = Fin a\<close> Fin by (simp add: a)
  next
    case PInf
    then show ?thesis using assms(2) by simp
  qed (simp_all add: Fin)
next
  case PInf
  then show ?thesis using assms(2) by (cases x) simp_all
next
  case NInf
  then show ?thesis using assms(2) by (cases x) simp_all
next
  case NaN
  then show ?thesis by simp
qed

lemma fmul_nonneg_negative:
  assumes "\<not> flt x (Fin 0)" and "q < 0"
  shows "\<not> flt (Fin 0) (fmul x (float64_of_int64 q))"
proof (cases x)
  case (Fin a)
  then have a: "0 \<le> a" using assms(1) by simp
  from float64_of_negative [OF assms(2)] show ?thesis
  proof
    assume "float64_of_int64 q = NInf"
    then show ?thesis using Fin a by simp
  next
    assume "\<exists>v. 1 \<le> v \<and> float64_of_int64 q = Fin (- v)"
    then obtain v where v: "1 \<le> v" "float64_of_int64 q = Fin (- v)" by blast
    have "0 \<le> a * v" using a v(1) by simp
    then have "a * - v \<le> 0" by simp
    then have "\<not> flt (Fin 0) (rnd (a * - v))" by (rule rnd_nonpos)
    then show ?thesis using Fin v(2) by simp
  qed
next
  case PInf
  from float64_of_negative [OF assms(2)] show ?thesis using PInf by auto
next
  case NInf
  then show ?thesis using assms(1) by simp
next
  case NaN
  then show ?thesis by simp
qed

lemma rnd_absorbs: "rnd 1152921504606846975 = Fin 1152921504606846976"
  by code_simp

lemma rnd_big: "rnd 1152921504606846976 = Fin 1152921504606846976"
  by code_simp

lemma large_scenario_find_product:
  "find_product large_scenario_world (Suc 0) = Some (example_product 1 (Fin 1152921504606846976) 100)"
  "find_product large_scenario_world 2 = Some (example_product 2 (Fin 1) 100)"
  by (simp_all add: large_scenario_world_def example_world_def example_product_def find_product_def)

lemma rnd_minus_1: "rnd (- 1) = Fin (- 1)"
  using rnd_of_int [of "- 1"] by simp

lemma large_scenario_line_totals:
  "line_total large_scenario_world (example_line (Suc 0) 1) = Fin 1152921504606846976"
  "line_total large_scenario_world (example_line 2 (- 1)) = Fin (- 1)"
  by (simp_all add: line_total_def large_scenario_find_product float64_of_int64_small rnd_big
        rnd_minus_1)

section \<open>The claims\<close>

text \<open>
  C2 (as amended). Take a draft with a line whose quantity exceeds the stock of its
  product, all of whose earlier lines pass their lookup and their stock check, and a product
  repository that answers. \<^verbatim>\<open>CreateOrder\<close> fails with \<open>ErrInsufficientStock\<close> at that
  line: the log holds the lookups up to that line and nothing more (no later line is looked
  up, the order repository is not called), and the orders and the cache are unchanged.
  As stated the claim fails: when an earlier line names a product that does not exist, the
  error is that lookup's \<open>ErrDataNotFound\<close>, whatever the later lines ask for.
\<close>

theorem CreateOrder_insufficient_stock:
  assumes "Products ord = pre @ l # post"
    and "answers w (Suc (length pre))"
    and "list_all (line_passes w) pre"
    and "find_product w (ProductID l) = Some p"
    and "Stock p < Quantity l"
  shows "fst (CreateOrder cd ord w) = Inl ErrInsufficientStock
       \<and> calls (snd (CreateOrder cd ord w)) = calls w @ lookups (pre @ [l])
       \<and> orders (snd (CreateOrder cd ord w)) = orders w
       \<and> cache (snd (CreateOrder cd ord w)) = cache w"
proof -
  have "line_error w l = Some ErrInsufficientStock"
    using assms(4,5) by (simp add: line_error_def)
  from CreateOrder_stops [OF assms(1-3) this, of cd] show ?thesis by simp
qed

theorem CreateOrder_insufficient_stock_witness:
  "Products overstock_draft = [example_line 1 2] @ example_line 1 200 # [example_line 9 1]
   \<and> answers scenario_world (Suc (length [example_line 1 2]))
   \<and> list_all (line_passes scenario_world) [example_line 1 2]
   \<and> find_product scenario_world (ProductID (example_line 1 200)) = Some (example_product 1 (Fin 5000) 100)
   \<and> Stock (example_product 1 (Fin 5000) 100) < Quantity (example_line 1 200)
   \<and> fst (CreateOrder example_codec overstock_draft scenario_world) = Inl ErrInsufficientStock
   \<and> calls (snd (CreateOrder example_codec overstock_draft scenario_world))
        = calls scenario_world @ lookups ([example_line 1 2] @ [example_line 1 200])
   \<and> orders (snd (CreateOrder example_codec overstock_draft scenario_world)) = orders scenario_world
   \<and> cache (snd (CreateOrder example_codec overstock_draft scenario_world)) = cache scenario_world"
proof -
  have 1: "Products overstock_draft = [example_line 1 2] @ example_line 1 200 # [example_line 9 1]"
    by (simp add: overstock_draft_def)
  have 2: "answers scenario_world (Suc (length [example_line 1 2]))" by (rule scenario_answers)
  have 3: "list_all (line_passes scenario_world) [example_line 1 2]"
    by (simp add: scenario_line_passes)
  have 4: "find_product scenario_world (ProductID (example_line 1 200)) = Some (example_product 1 (Fin 5000) 100)"
    by (simp add: scenario_find_product)
  have 5: "Stock (example_product 1 (Fin 5000) 100) < Quantity (example_line 1 200)" by simp
  show ?thesis
    using 1 2 3 4 5 CreateOrder_insufficient_stock [OF 1 2 3 4 5, of example_codec] by blast
qed

theorem CreateOrder_insufficient_stock_counterexample:
  "line_error scenario_world (example_line 1 200) = Some ErrInsufficientStock
   \<and> Products unknown_then_overstock_draft = [example_line 9 1, example_line 1 200]
   \<and> fst (CreateOrder example_codec unknown_then_overstock_draft scenario_world) = Inl ErrDataNotFound"
proof -
  have "Products unknown_then_overstock_draft = [] @ example_line 9 1 # [example_line 1 200]"
    by (simp add: unknown_then_overstock_draft_def)
  moreover have "line_error scenario_world (example_line 9 1) = Some ErrDataNotFound"
    by (simp add: line_error_def scenario_find_product_9)
  ultimately have "CreateOrder example_codec unknown_then_overstock_draft scenario_world
      = (Inl ErrDataNotFound, scenario_world\<lparr>calls := calls scenario_world @ lookups ([] @ [example_line 9 1])\<rparr>)"
    by (intro CreateOrder_stops) (simp_all add: scenario_answers)
  then show ?thesis
    by (simp add: scenario_line_error_overstock unknown_then_overstock_draft_def)
qed

text \<open>
  C6. When the loop reaches a line whose product id is absent, the repository's
  \<open>ErrDataNotFound\<close> is what \<^verbatim>\<open>CreateOrder\<close> returns, unchanged; the log ends
  with that lookup, so the order repository is never called, and the orders and the cache
  are unchanged.
\<close>

theorem CreateOrder_product_not_found:
  assumes "Products ord = pre @ l # post"
    and "answers w (Suc (length pre))"
    and "list_all (line_passes w) pre"
    and "find_product w (ProductID l) = None"
  shows "fst (GetProductByID (ProductID l) (w\<lparr>calls := calls w @ lookups pre\<rparr>)) = Inl ErrDataNotFound
       \<and> fst (CreateOrder cd ord w) = Inl ErrDataNotFound
       \<and> calls (snd (CreateOrder cd ord w)) = calls w @ lookups (pre @ [l])
       \<and> orders (snd (CreateOrder cd ord w)) = orders w
       \<and> cache (snd (CreateOrder cd ord w)) = cache w"
proof -
  have e: "line_error w l = Some ErrDataNotFound"
    using assms(4) by (simp add: line_error_def)
  have "fault w (length (calls w) + length pre) = None"
    using assms(2) by (simp add: answers_iff)
  then have "failure (w\<lparr>calls := calls w @ lookups pre\<rparr>) = None" by (simp add: failure_def)
  moreover have "find_product (w\<lparr>calls := calls w @ lookups pre\<rparr>) (ProductID l) = None"
    using assms(4) by (simp add: find_product_def)
  ultimately have "fst (GetProductByID (ProductID l) (w\<lparr>calls := calls w @ lookups pre\<rparr>)) = Inl ErrDataNotFound"
    by (simp add: GetProductByID_missing)
  with CreateOrder_stops [OF assms(1-3) e, of cd] show ?thesis by simp
qed

theorem CreateOrder_product_not_found_witness:
  "Products unknown_then_overstock_draft = [] @ example_line 9 1 # [example_line 1 200]
   \<and> answers scenario_world (Suc (length ([] :: OrderProduct list)))
   \<and> list_all (line_passes scenario_world) []
   \<and> find_product scenario_world (ProductID (example_line 9 1)) = None
   \<and> fst (CreateOrder example_codec unknown_then_overstock_draft scenario_world) = Inl ErrDataNotFound
   \<and> calls (snd (CreateOrder example_codec unknown_then_overstock_draft scenario_world))
        = calls scenario_world @ lookups ([] @ [example_line 9 1])
   \<and> orders (snd (CreateOrder example_codec unknown_then_overstock_draft scenario_world))
        = orders scenario_world
   \<and> cache (snd (CreateOrder example_codec unknown_then_overstock_draft scenario_world))
        = cache scenario_world"
proof -
  have 1: "Products unknown_then_overstock_draft = [] @ example_line 9 1 # [example_line 1 200]"
    by (simp add: unknown_then_overstock_draft_def)
  have 2: "answers scenario_world (Suc (length ([] :: OrderProduct list)))"
    by (rule scenario_answers)
  have 3: "list_all (line_passes scenario_world) []" by simp
  have 4: "find_product scenario_world (ProductID (example_line 9 1)) = None"
    by (simp add: scenario_find_product_9)
  show ?thesis
    using 1 2 3 4 CreateOrder_product_not_found [OF 1 2 3 4, of example_codec] by blast
qed

text \<open>
  C1 (as amended). For every draft whose products are all found, whose requested
  quantities are all at most the product's stock and whose \<open>total_paid\<close> is not below the
  sum of the line totals (the repository answering), \<^verbatim>\<open>CreateOrder\<close> sets each line's
  total to the float64 product \<open>Price * float64(Quantity)\<close> and the order's \<open>total_price\<close>
  to the float64 sum of these line totals, added in line order from 0, each addition
  rounded; the \<open>total_price\<close> of the draft is ignored, and the order that is stored carries
  these totals. As stated the claim fails twice: without the payment condition nothing is
  set, and the float64 sum is not the exact sum.
\<close>

theorem CreateOrder_sets_totals:
  assumes "answers w (Suc (length (Products ord)))"
    and "list_all (line_passes w) (Products ord)"
    and "\<not> flt (TotalPaid ord) (order_total w (Products ord))"
  shows "fst (CreateOrder_price ord w) = Inr (priced_order w ord)
       \<and> (\<forall>l \<in> set (Products ord). \<exists>p. find_product w (ProductID l) = Some p
             \<and> line_total w l = fmul (Price p) (float64_of_int64 (Quantity l)))
       \<and> map OrderProduct_TotalPrice (Products (priced_order w ord)) = map (line_total w) (Products ord)
       \<and> TotalPrice (priced_order w ord)
            = foldl fadd (Fin 0) (map OrderProduct_TotalPrice (Products (priced_order w ord)))
       \<and> priced_order w (ord\<lparr>TotalPrice := declared\<rparr>) = priced_order w ord
       \<and> orders (snd (CreateOrder cd ord w)) = orders w @ [stored_order w (priced_order w ord)]
       \<and> TotalPrice (stored_order w (priced_order w ord)) = TotalPrice (priced_order w ord)
       \<and> map OrderProduct_TotalPrice (Products (stored_order w (priced_order w ord)))
            = map OrderProduct_TotalPrice (Products (priced_order w ord))"
proof -
  have "answers w (length (Products ord))" using assms(1) by (simp add: answers_iff)
  then have 1: "fst (CreateOrder_price ord w) = Inr (priced_order w ord)"
    using CreateOrder_price_pass [OF _ assms(2,3)] by simp
  have 2: "\<forall>l \<in> set (Products ord). \<exists>p. find_product w (ProductID l) = Some p
             \<and> line_total w l = fmul (Price p) (float64_of_int64 (Quantity l))"
    using assms(2) line_total_found by (fastforce simp: list_all_iff)
  have 3: "map OrderProduct_TotalPrice (Products (priced_order w ord)) = map (line_total w) (Products ord)"
    by (simp add: comp_def)
  have 4: "TotalPrice (priced_order w ord)
            = foldl fadd (Fin 0) (map OrderProduct_TotalPrice (Products (priced_order w ord)))"
    by (simp add: order_total_def comp_def)
  have 5: "priced_order w (ord\<lparr>TotalPrice := declared\<rparr>) = priced_order w ord"
    by (simp add: priced_order_def)
  note 6 = CreateOrder_persisted [OF assms, of cd]
  show ?thesis using 1 2 3 4 5 6 by (simp add: line_totals_stored)
qed

theorem CreateOrder_sets_totals_witness:
  "answers scenario_world (Suc (length (Products scenario_draft)))
   \<and> list_all (line_passes scenario_world) (Products scenario_draft)
   \<and> \<not> flt (TotalPaid scenario_draft) (order_total scenario_world (Products scenario_draft))
   \<and> TotalPrice scenario_draft = Fin 7
   \<and> fst (CreateOrder_price scenario_draft scenario_world) = Inr (priced_order scenario_world scenario_draft)
   \<and> TotalPrice (priced_order scenario_world scenario_draft) = Fin 10000
   \<and> orders (snd (CreateOrder example_codec scenario_draft scenario_world))
        = orders scenario_world @ [stored_order scenario_world (priced_order scenario_world scenario_draft)]
   \<and> TotalPrice (stored_order scenario_world (priced_order scenario_world scenario_draft)) = Fin 10000"
proof -
  have a: "answers scenario_world (Suc (length (Products scenario_draft)))" by (rule scenario_answers)
  have p: "list_all (line_passes scenario_world) (Products scenario_draft)"
    by (simp add: scenario_draft_def scenario_line_passes)
  have u: "\<not> flt (TotalPaid scenario_draft) (order_total scenario_world (Products scenario_draft))"
    by (simp add: scenario_order_total) (simp add: scenario_draft_def)
  have d: "TotalPrice scenario_draft = Fin 7" by (simp add: scenario_draft_def)
  show ?thesis
    using a p u d scenario_priced_total CreateOrder_sets_totals [OF a p u, where cd = example_codec and declared = "Fin 0"]
    by simp
qed

theorem CreateOrder_sets_totals_counterexample:
  "list_all (line_passes scenario_world) (Products underpaid_draft)
   \<and> fst (CreateOrder example_codec underpaid_draft scenario_world) = Inl ErrInsufficientPayment
   \<and> list_all (line_passes fraction_world) (Products fraction_draft)
   \<and> fst (CreateOrder_price fraction_draft fraction_world) = Inr (priced_order fraction_world fraction_draft)
   \<and> map OrderProduct_TotalPrice (Products (priced_order fraction_world fraction_draft)) = [Fin tenth, Fin fifth]
   \<and> TotalPrice (priced_order fraction_world fraction_draft) = Fin (1351079888211149 / 4503599627370496)
   \<and> (1351079888211149 / 4503599627370496 :: rat) \<noteq> tenth + fifth"
proof -
  have 1: "list_all (line_passes scenario_world) (Products underpaid_draft)"
    by (simp add: underpaid_draft_def scenario_line_passes)
  have "flt (TotalPaid underpaid_draft) (order_total scenario_world (Products underpaid_draft))"
    by (simp add: underpaid_draft_def scenario_order_total_1)
  then have 2: "fst (CreateOrder example_codec underpaid_draft scenario_world) = Inl ErrInsufficientPayment"
    using CreateOrder_underpaid [OF scenario_answers 1, of example_codec] by simp
  have 3: "fst (CreateOrder_price fraction_draft fraction_world) = Inr (priced_order fraction_world fraction_draft)"
    using CreateOrder_price_pass [OF fraction_answers fraction_passes fraction_paid] by simp
  have 4: "map OrderProduct_TotalPrice (Products (priced_order fraction_world fraction_draft)) = [Fin tenth, Fin fifth]"
    by (simp add: fraction_draft_def fraction_line_totals)
  have 5: "TotalPrice (priced_order fraction_world fraction_draft) = Fin (1351079888211149 / 4503599627370496)"
    by (simp add: fraction_order_total)
  show ?thesis using 1 2 3 4 5 fraction_passes tenth_fifth_inexact by blast
qed

text \<open>
  C7. \<^verbatim>\<open>CreateOrder\<close> never changes a product: whatever it returns, the products table,
  and so the stock of every product, is after the call what it was before. The only thing
  the service asks of the product repository is \<^verbatim>\<open>GetProductByID\<close>; the order repository
  and the cache are the modelled ones, which write no product.
\<close>

theorem CreateOrder_keeps_products:
  "products (snd (CreateOrder cd ord w)) = products w
   \<and> map Stock (products (snd (CreateOrder cd ord w))) = map Stock (products w)
   \<and> find_product (snd (CreateOrder cd ord w)) = find_product w"
  by (simp add: CreateOrder_products find_product_def fun_eq_iff)

text \<open>
  C5. Once the pricing has passed and the order repository has stored the order (the
  first \<open>length (Products ord) + 1\<close> calls answered), the order stays stored whatever
  happens next, and \<^verbatim>\<open>CreateOrder\<close> returns an error as soon as one later step fails: a
  failing call among the lookups of user, payment, products and categories, the prefix
  invalidation or the cache set; a user, a payment, a product or a category that is not
  found; or a failing serialization.
\<close>

theorem CreateOrder_error_after_persist:
  assumes "answers w (Suc (length (Products ord)))"
    and "list_all (line_passes w) (Products ord)"
    and "\<not> flt (TotalPaid ord) (order_total w (Products ord))"
  shows "orders (snd (CreateOrder cd ord w)) = orders w @ [stored_order w (priced_order w ord)]
       \<and> (\<not> (answers w (3 * length (Products ord) + 5)
              \<and> find_user w (UserID ord) \<noteq> None
              \<and> find_payment w (PaymentID ord) \<noteq> None
              \<and> list_all (line_resolves w) (Products ord)
              \<and> \<not> isl (Serialize_Order cd (created_order w ord)))
            \<longrightarrow> isl (fst (CreateOrder cd ord w)))"
proof (intro conjI impI)
  show "orders (snd (CreateOrder cd ord w)) = orders w @ [stored_order w (priced_order w ord)]"
    using assms by (rule CreateOrder_persisted)
next
  let ?L = "length (Products ord)"
  let ?st = "stored_order w (priced_order w ord)" and ?pw = "persisted_world w ord"
  assume n: "\<not> (answers w (3 * ?L + 5)
              \<and> find_user w (UserID ord) \<noteq> None
              \<and> find_payment w (PaymentID ord) \<noteq> None
              \<and> list_all (line_resolves w) (Products ord)
              \<and> \<not> isl (Serialize_Order cd (created_order w ord)))"
  show "isl (fst (CreateOrder cd ord w))"
  proof (rule ccontr)
    assume "\<not> isl (fst (CreateOrder cd ord w))"
    then obtain r where "fst (CreateOrder cd ord w) = Inr r" by (cases "fst (CreateOrder cd ord w)") auto
    then have f: "CreateOrder_finish cd ?st ?pw = (Inr r, snd (CreateOrder cd ord w))"
      using CreateOrder_reaches_finish [OF assms, of cd] by (metis prod.collapse)
    note fc = CreateOrder_finish_Inr_conditions [OF f]
    have tables: "products ?pw = products w" "categories ?pw = categories w"
      "users ?pw = users w" "payments ?pw = payments w" "fault ?pw = fault w"
      by (simp_all add: persisted_world_def)
    have fu: "find_user ?pw = find_user w" and fp: "find_payment ?pw = find_payment w"
      by (simp_all add: find_user_def find_payment_def tables fun_eq_iff)
    have at: "attached ?pw = attached w" by (rule attached_tables) (simp_all add: tables)
    have ids: "map ProductID (Products ord) = map ProductID (Products ?st)"
      by (simp add: ProductIDs_stored_order)
    have r: "list_all (line_resolves w) (Products ord)"
      by (rule list_all_line_resolves [OF ids _ _ fc(2)]) (simp_all add: tables)
    from fc(3) obtain u p blob where
      u: "find_user w (UserID ord) = Some u" and p: "find_payment w (PaymentID ord) = Some p"
      and s: "Serialize_Order cd (?st\<lparr>Order_User := Some u, Order_Payment := Some p,
                 Products := map (attached w) (Products ?st)\<rparr>) = Inr blob"
      unfolding fu fp at by auto
    have "?st\<lparr>Order_User := Some u, Order_Payment := Some p,
                 Products := map (attached w) (Products ?st)\<rparr> = created_order w ord"
      using u p by (simp add: created_order_def)
    then have ser: "\<not> isl (Serialize_Order cd (created_order w ord))" using s by simp
    have fc1: "answers ?pw (4 + 2 * ?L)" using fc(1) by simp
    have "answers w (Suc ?L + (4 + 2 * ?L))"
      using assms(1) fc1
      by (rule answers_append [where cs = "lookups (Products ord) @ [OrderRepo_CreateOrder (priced_order w ord)]"])
         (simp_all add: persisted_world_def)
    moreover have "Suc ?L + (4 + 2 * ?L) = 3 * ?L + 5" by simp
    ultimately have "answers w (3 * ?L + 5)" by (simp only:)
    with n u p r ser show False by simp
  qed
qed

theorem CreateOrder_error_after_persist_witness:
  "answers cache_down_world (Suc (length (Products scenario_draft)))
   \<and> list_all (line_passes cache_down_world) (Products scenario_draft)
   \<and> \<not> flt (TotalPaid scenario_draft) (order_total cache_down_world (Products scenario_draft))
   \<and> \<not> answers cache_down_world (3 * length (Products scenario_draft) + 5)
   \<and> isl (fst (CreateOrder example_codec scenario_draft cache_down_world))
   \<and> orders (snd (CreateOrder example_codec scenario_draft cache_down_world))
        = orders cache_down_world @ [stored_order cache_down_world (priced_order cache_down_world scenario_draft)]
   \<and> answers scenario_world (Suc (length (Products unknown_user_draft)))
   \<and> list_all (line_passes scenario_world) (Products unknown_user_draft)
   \<and> \<not> flt (TotalPaid unknown_user_draft) (order_total scenario_world (Products unknown_user_draft))
   \<and> find_user scenario_world (UserID unknown_user_draft) = None
   \<and> isl (fst (CreateOrder example_codec unknown_user_draft scenario_world))
   \<and> orders (snd (CreateOrder example_codec unknown_user_draft scenario_world))
        = orders scenario_world @ [stored_order scenario_world (priced_order scenario_world unknown_user_draft)]"
proof -
  have a: "answers cache_down_world (Suc (length (Products scenario_draft)))"
    using cache_down_answers by (simp add: scenario_draft_def)
  have p: "list_all (line_passes cache_down_world) (Products scenario_draft)"
    by (simp add: cache_down_world_def scenario_draft_def scenario_line_passes)
  have u: "\<not> flt (TotalPaid scenario_draft) (order_total cache_down_world (Products scenario_draft))"
    by (simp add: cache_down_world_def scenario_order_total) (simp add: scenario_draft_def)
  have "3 * length (Products scenario_draft) + 5 = 8" by (simp add: scenario_draft_def)
  then have n: "\<not> answers cache_down_world (3 * length (Products scenario_draft) + 5)"
    using cache_down_fails by metis
  have a': "answers scenario_world (Suc (length (Products unknown_user_draft)))"
    by (rule scenario_answers)
  have p': "list_all (line_passes scenario_world) (Products unknown_user_draft)"
    by (simp add: unknown_user_draft_def scenario_draft_def scenario_line_passes)
  have u': "\<not> flt (TotalPaid unknown_user_draft) (order_total scenario_world (Products unknown_user_draft))"
    using scenario_order_total by (simp add: unknown_user_draft_def) (simp add: scenario_draft_def)
  have n': "find_user scenario_world (UserID unknown_user_draft) = None"
    by (simp add: unknown_user_draft_def find_user_def scenario_world_def example_world_def)
  show ?thesis
    using a p u n a' p' u' n'
      CreateOrder_error_after_persist [OF a p u, of example_codec]
      CreateOrder_error_after_persist [OF a' p' u', of example_codec]
    by simp
qed

text \<open>
  C8 (as amended). On a cache hit whose blob does not decode, no read path falls back to
  storage: the only call made is the cache read. \<^verbatim>\<open>CategoryService\<close>, \<^verbatim>\<open>UserService\<close> and
  \<^verbatim>\<open>PaymentService\<close> return \<open>ErrInternal\<close>; \<^verbatim>\<open>OrderService\<close> and \<^verbatim>\<open>ProductService\<close> return
  the decoder's own error, unchanged. As stated the claim fails: \<^verbatim>\<open>GetOrder\<close> does not
  return \<open>ErrInternal\<close> there, and so not what \<^verbatim>\<open>GetCategory\<close> returns.
\<close>

theorem decode_failure_on_cache_hit:
  assumes "failure w = None"
  shows "(map_of (cache w) (GenerateCacheKey cd ''category'' (IdOf i)) = Some blob
            \<and> Deserialize_Category cd blob = Inl err
          \<longrightarrow> GetCategory cd i w
                = (Inl ErrInternal, logged (Cache_Get (GenerateCacheKey cd ''category'' (IdOf i))) w))
       \<and> (map_of (cache w) (GenerateCacheKey cd ''user'' (IdOf i)) = Some blob
            \<and> Deserialize_User cd blob = Inl err
          \<longrightarrow> GetUser cd i w
                = (Inl ErrInternal, logged (Cache_Get (GenerateCacheKey cd ''user'' (IdOf i))) w))
       \<and> (map_of (cache w) (GenerateCacheKey cd ''payment'' (IdOf i)) = Some blob
            \<and> Deserialize_Payment cd blob = Inl err
          \<longrightarrow> GetPayment cd i w
                = (Inl ErrInternal, logged (Cache_Get (GenerateCacheKey cd ''payment'' (IdOf i))) w))
       \<and> (map_of (cache w) (GenerateCacheKey cd ''order'' (IdOf i)) = Some blob
            \<and> Deserialize_Order cd blob = Inl err
          \<longrightarrow> GetOrder cd i w
                = (Inl err, logged (Cache_Get (GenerateCacheKey cd ''order'' (IdOf i))) w))
       \<and> (map_of (cache w) (GenerateCacheKey cd ''product'' (IdOf i)) = Some blob
            \<and> Deserialize_Product cd blob = Inl err
          \<longrightarrow> GetProduct cd i w
                = (Inl err, logged (Cache_Get (GenerateCacheKey cd ''product'' (IdOf i))) w))
       \<and> (map_of (cache w) (GenerateCacheKey cd ''categories''
              (Str (GenerateCacheKeyParams cd [Uint64 skip, Uint64 limit]))) = Some blob
            \<and> Deserialize_Categories cd blob = Inl err
          \<longrightarrow> fst (ListCategories cd skip limit w) = Inl ErrInternal
              \<and> calls (snd (ListCategories cd skip limit w)) = calls w @ [Cache_Get (GenerateCacheKey cd ''categories''
              (Str (GenerateCacheKeyParams cd [Uint64 skip, Uint64 limit])))])
       \<and> (map_of (cache w) (GenerateCacheKey cd ''users''
              (Str (GenerateCacheKeyParams cd [Uint64 skip, Uint64 limit]))) = Some blob
            \<and> Deserialize_Users cd blob = Inl err
          \<longrightarrow> fst (ListUsers cd skip limit w) = Inl ErrInternal
              \<and> calls (snd (ListUsers cd skip limit w)) = calls w @ [Cache_Get (GenerateCacheKey cd ''users''
              (Str (GenerateCacheKeyParams cd [Uint64 skip, Uint64 limit])))])
       \<and> (map_of (cache w) (GenerateCacheKey cd ''payments''
              (Str (GenerateCacheKeyParams cd [Uint64 skip, Uint64 limit]))) = Some blob
            \<and> Deserialize_Payments cd blob = Inl err
          \<longrightarrow> fst (ListPayments cd skip limit w) = Inl ErrInternal
              \<and> calls (snd (ListPayments cd skip limit w)) = calls w @ [Cache_Get (GenerateCacheKey cd ''payments''
              (Str (GenerateCacheKeyParams cd [Uint64 skip, Uint64 limit])))])
       \<and> (map_of (cache w) (GenerateCacheKey cd ''orders''
              (Str (GenerateCacheKeyParams cd [Uint64 skip, Uint64 limit]))) = Some blob
            \<and> Deserialize_Orders cd blob = Inl err
          \<longrightarrow> fst (ListOrders cd skip limit w) = Inl err
              \<and> calls (snd (ListOrders cd skip limit w)) = calls w @ [Cache_Get (GenerateCacheKey cd ''orders''
              (Str (GenerateCacheKeyParams cd [Uint64 skip, Uint64 limit])))])
       \<and> (map_of (cache w) (GenerateCacheKey cd ''products''
              (Str (GenerateCacheKeyParams cd [Uint64 skip, Uint64 limit, IdOf categoryId, Str search]))) = Some blob
            \<and> Deserialize_Products cd blob = Inl err
          \<longrightarrow> fst (ProductService_ListProducts ilike cd search categoryId skip limit w) = Inl err
              \<and> calls (snd (ProductService_ListProducts ilike cd search categoryId skip limit w))
                  = calls w @ [Cache_Get (GenerateCacheKey cd ''products''
              (Str (GenerateCacheKeyParams cd [Uint64 skip, Uint64 limit, IdOf categoryId, Str search])))])
       \<and> HandleError_status ErrInternal = 500 \<and> HandleError_status (ErrOther msg) = 500"
  using assms
  by (simp add: GetCategory_def GetUser_def GetPayment_def GetOrder_def GetProduct_def
        ListCategories_def ListUsers_def ListPayments_def ListOrders_def
        ProductService_ListProducts_def cache_Get_hit)

theorem decode_failure_on_cache_hit_counterexample:
  "map_of (cache cached_world) (GenerateCacheKey example_codec ''order'' (IdOf 1)) = Some ''{''
   \<and> Deserialize_Order example_codec ''{'' = Inl (ErrOther ''unexpected end of JSON input'')
   \<and> fst (GetOrder example_codec 1 cached_world) = Inl (ErrOther ''unexpected end of JSON input'')
   \<and> fst (GetOrder example_codec 1 cached_world) \<noteq> Inl ErrInternal
   \<and> fst (GetCategory example_codec 1 cached_world) = Inl ErrInternal"
  using cached_world_failure
  by (simp add: GetOrder_def GetCategory_def cache_Get_hit example_keys example_decoders cached_world_hits)

theorem decode_failure_on_cache_hit_witness:
  "failure cached_world = None
   \<and> map_of (cache cached_world) (GenerateCacheKey example_codec ''category'' (IdOf 1)) = Some ''{''
   \<and> Deserialize_Category example_codec ''{'' = Inl (ErrOther ''unexpected end of JSON input'')
   \<and> GetCategory example_codec 1 cached_world
        = (Inl ErrInternal, logged (Cache_Get (GenerateCacheKey example_codec ''category'' (IdOf 1))) cached_world)
   \<and> map_of (cache cached_world) (GenerateCacheKey example_codec ''order'' (IdOf 1)) = Some ''{''
   \<and> Deserialize_Order example_codec ''{'' = Inl (ErrOther ''unexpected end of JSON input'')
   \<and> GetOrder example_codec 1 cached_world
        = (Inl (ErrOther ''unexpected end of JSON input''),
           logged (Cache_Get (GenerateCacheKey example_codec ''order'' (IdOf 1))) cached_world)"
proof -
  have c: "map_of (cache cached_world) (GenerateCacheKey example_codec ''category'' (IdOf 1)) = Some ''{''"
    and o: "map_of (cache cached_world) (GenerateCacheKey example_codec ''order'' (IdOf 1)) = Some ''{''"
    by (simp_all add: example_keys cached_world_hits)
  note d = example_decoders [of "''{''"]
  show ?thesis
    using c o d cached_world_failure
      decode_failure_on_cache_hit [OF cached_world_failure, where cd = example_codec and i = 1
        and blob = "''{''" and err = "ErrOther ''unexpected end of JSON input''"]
    by blast
qed




text \<open>
  C3 (as amended). When the product repository answers: a draft all of whose lines pass
  the lookup and the stock check and whose \<open>total_paid\<close> is below the sum of the line
  totals fails with \<open>ErrInsufficientPayment\<close>; a draft with a line that does not pass
  fails with the error of its first such line, whatever was paid: \<open>ErrInsufficientStock\<close>
  when the product of that line exists (its quantity then exceeds the stock),
  \<open>ErrDataNotFound\<close> when it does not; so a draft all of whose products exist and one of
  whose lines exceeds its stock fails with \<open>ErrInsufficientStock\<close>; and
  \<open>ErrInsufficientPayment\<close> is returned only when every line has passed. As stated the
  claim fails: a draft that pays too little and asks for more than the stock, after a line
  whose product does not exist, fails with \<open>ErrDataNotFound\<close>.
\<close>

theorem payment_checked_after_stock:
  assumes "answers w (length (Products ord))"
  shows "(list_all (line_passes w) (Products ord) \<and> flt (TotalPaid ord) (order_total w (Products ord))
            \<longrightarrow> fst (CreateOrder cd ord w) = Inl ErrInsufficientPayment)
       \<and> (\<forall>pre l post. Products ord = pre @ l # post \<and> list_all (line_passes w) pre
              \<and> \<not> line_passes w l
            \<longrightarrow> fst (CreateOrder cd ord w)
                  = Inl (if line_found w l then ErrInsufficientStock else ErrDataNotFound))
       \<and> (\<not> list_all (line_passes w) (Products ord)
            \<longrightarrow> fst (CreateOrder cd ord w) = Inl ErrInsufficientStock
                \<or> fst (CreateOrder cd ord w) = Inl ErrDataNotFound)
       \<and> (list_all (line_found w) (Products ord) \<and> \<not> list_all (line_passes w) (Products ord)
            \<longrightarrow> fst (CreateOrder cd ord w) = Inl ErrInsufficientStock)
       \<and> (fst (CreateOrder cd ord w) = Inl ErrInsufficientPayment
            \<longrightarrow> list_all (line_passes w) (Products ord))"
proof -
  have first: "fst (CreateOrder cd ord w)
                  = Inl (if line_found w l then ErrInsufficientStock else ErrDataNotFound)"
    if ls: "Products ord = pre @ l # post" and pre: "list_all (line_passes w) pre"
      and l: "\<not> line_passes w l" for pre l post
  proof -
    have e: "line_error w l = Some (if line_found w l then ErrInsufficientStock else ErrDataNotFound)"
      using l by (auto simp: line_error_def line_found_def line_passes_def split: option.splits)
    have "answers w (Suc (length pre))" using assms ls by (simp add: answers_iff)
    from CreateOrder_stops [OF ls this pre e, of cd] show ?thesis by simp
  qed
  have some: "fst (CreateOrder cd ord w) = Inl ErrInsufficientStock
                \<or> fst (CreateOrder cd ord w) = Inl ErrDataNotFound"
    if n: "\<not> list_all (line_passes w) (Products ord)"
  proof -
    from first_failing_line [OF n] obtain pre l post where
      "Products ord = pre @ l # post" "list_all (line_passes w) pre" "\<not> line_passes w l"
      by blast
    from first [OF this] show ?thesis by (cases "line_found w l") simp_all
  qed
  have found: "fst (CreateOrder cd ord w) = Inl ErrInsufficientStock"
    if f: "list_all (line_found w) (Products ord)" and n: "\<not> list_all (line_passes w) (Products ord)"
  proof -
    from first_failing_line [OF n] obtain pre l post where
      ls: "Products ord = pre @ l # post" and p: "list_all (line_passes w) pre"
      and l: "\<not> line_passes w l"
      by blast
    have "line_found w l" using f ls by (simp add: list_all_iff)
    with first [OF ls p l] show ?thesis by simp
  qed
  have only: "list_all (line_passes w) (Products ord)"
    if p: "fst (CreateOrder cd ord w) = Inl ErrInsufficientPayment"
  proof (rule ccontr)
    assume "\<not> list_all (line_passes w) (Products ord)"
    from some [OF this] p show False by simp
  qed
  have under: "fst (CreateOrder cd ord w) = Inl ErrInsufficientPayment"
    if "list_all (line_passes w) (Products ord)"
      and "flt (TotalPaid ord) (order_total w (Products ord))"
    using CreateOrder_underpaid [OF assms that, of cd] by simp
  show ?thesis using first some found only under by blast
qed

theorem payment_checked_after_stock_witness:
  "answers scenario_world (length (Products underpaid_draft))
   \<and> list_all (line_passes scenario_world) (Products underpaid_draft)
   \<and> flt (TotalPaid underpaid_draft) (order_total scenario_world (Products underpaid_draft))
   \<and> fst (CreateOrder example_codec underpaid_draft scenario_world) = Inl ErrInsufficientPayment
   \<and> answers scenario_world (length (Products overstock_draft))
   \<and> Products overstock_draft = [example_line 1 2] @ example_line 1 200 # [example_line 9 1]
   \<and> list_all (line_passes scenario_world) [example_line 1 2]
   \<and> \<not> line_passes scenario_world (example_line 1 200)
   \<and> line_found scenario_world (example_line 1 200)
   \<and> flt (TotalPaid overstock_draft) (line_total scenario_world (example_line 1 200))
   \<and> fst (CreateOrder example_codec overstock_draft scenario_world) = Inl ErrInsufficientStock
   \<and> answers scenario_world (length (Products unknown_then_overstock_underpaid_draft))
   \<and> Products unknown_then_overstock_underpaid_draft = [] @ example_line 9 1 # [example_line 1 200]
   \<and> \<not> line_passes scenario_world (example_line 9 1)
   \<and> \<not> line_found scenario_world (example_line 9 1)
   \<and> fst (CreateOrder example_codec unknown_then_overstock_underpaid_draft scenario_world)
        = Inl ErrDataNotFound"
proof -
  have a1: "answers scenario_world (length (Products underpaid_draft))"
    and a2: "answers scenario_world (length (Products overstock_draft))"
    and a3: "answers scenario_world (length (Products unknown_then_overstock_underpaid_draft))"
    by (rule scenario_answers)+
  have p: "list_all (line_passes scenario_world) (Products underpaid_draft)"
    by (simp add: underpaid_draft_def scenario_line_passes)
  have u: "flt (TotalPaid underpaid_draft) (order_total scenario_world (Products underpaid_draft))"
    by (simp add: underpaid_draft_def scenario_order_total_1)
  have s: "Products overstock_draft = [example_line 1 2] @ example_line 1 200 # [example_line 9 1]"
    by (simp add: overstock_draft_def)
  have sp: "list_all (line_passes scenario_world) [example_line 1 2]"
    by (simp add: scenario_line_passes)
  have sn: "\<not> line_passes scenario_world (example_line 1 200)"
    by (simp add: line_passes_iff scenario_line_error_overstock)
  have sf: "line_found scenario_world (example_line 1 200)"
    by (simp add: scenario_line_found)
  have su: "flt (TotalPaid overstock_draft) (line_total scenario_world (example_line 1 200))"
    by (simp add: scenario_line_total_200) (simp add: overstock_draft_def)
  have k: "Products unknown_then_overstock_underpaid_draft = [] @ example_line 9 1 # [example_line 1 200]"
    by (simp add: unknown_then_overstock_underpaid_draft_def)
  have kn: "\<not> line_passes scenario_world (example_line 9 1)"
    by (simp add: line_passes_def scenario_find_product_9)
  have kf: "\<not> line_found scenario_world (example_line 9 1)"
    by (simp add: line_found_def scenario_find_product_9)
  have ke: "list_all (line_passes scenario_world) []" by simp
  from payment_checked_after_stock [OF a1, of example_codec] p u
  have r1: "fst (CreateOrder example_codec underpaid_draft scenario_world) = Inl ErrInsufficientPayment"
    by blast
  from payment_checked_after_stock [OF a2, of example_codec] s sp sn sf
  have r2: "fst (CreateOrder example_codec overstock_draft scenario_world) = Inl ErrInsufficientStock"
    by (metis (full_types))
  from payment_checked_after_stock [OF a3, of example_codec] k ke kn kf
  have r3: "fst (CreateOrder example_codec unknown_then_overstock_underpaid_draft scenario_world)
        = Inl ErrDataNotFound"
    by (metis (full_types))
  show ?thesis using a1 p u r1 a2 s sp sn sf su r2 a3 k kn kf r3 by blast
qed

theorem payment_checked_after_stock_counterexample:
  "Products unknown_then_overstock_underpaid_draft = [example_line 9 1, example_line 1 200]
   \<and> line_error scenario_world (example_line 1 200) = Some ErrInsufficientStock
   \<and> TotalPaid unknown_then_overstock_underpaid_draft = Fin 1000
   \<and> line_total scenario_world (example_line 1 200) = Fin 1000000
   \<and> flt (TotalPaid unknown_then_overstock_underpaid_draft)
         (line_total scenario_world (example_line 1 200))
   \<and> fst (CreateOrder example_codec unknown_then_overstock_underpaid_draft scenario_world)
        = Inl ErrDataNotFound"
proof -
  have "Products unknown_then_overstock_underpaid_draft = [] @ example_line 9 1 # [example_line 1 200]"
    by (simp add: unknown_then_overstock_underpaid_draft_def)
  moreover have "line_error scenario_world (example_line 9 1) = Some ErrDataNotFound"
    by (simp add: line_error_def scenario_find_product_9)
  ultimately have "CreateOrder example_codec unknown_then_overstock_underpaid_draft scenario_world
      = (Inl ErrDataNotFound, scenario_world\<lparr>calls := calls scenario_world @ lookups ([] @ [example_line 9 1])\<rparr>)"
    by (intro CreateOrder_stops) (simp_all add: scenario_answers)
  then show ?thesis
    by (simp add: scenario_line_error_overstock scenario_line_total_200
          unknown_then_overstock_underpaid_draft_def)
qed

text \<open>
  C9. The product repository asks the database for the rows from offset
  \<open>(skip - 1) * limit\<close> (computed on uint64), so \<open>skip = 1\<close> is the first page of the
  products; \<^verbatim>\<open>OrderService.ListOrders\<close> hands \<open>skip\<close> and \<open>limit\<close> unchanged to its
  repository (as \<^verbatim>\<open>ProductService.ListProducts\<close> does to the product repository), and the
  order repository takes \<open>skip\<close> itself as the offset, so \<open>skip = 1\<close> leaves the first order
  out. The two offsets differ for every \<open>skip \<ge> 1\<close> and \<open>limit \<ge> 3\<close> whose product
  does not overflow.
\<close>

theorem pagination_offset_conventions:
  "q_offset (ListProducts_query search categoryId skip limit) = (skip - 1) * limit
   \<and> q_limit (ListProducts_query search categoryId skip limit) = limit
   \<and> (failure w = None \<longrightarrow>
         fst (ListProducts ilike search categoryId skip limit w)
           = Inr (map (\<lambda>p. p\<lparr>Product_Category := None\<rparr>)
                   (run_product_query ilike (ListProducts_query search categoryId skip limit) (products w)))
       \<and> fst (ListProducts ilike [] 0 skip limit w)
           = Inr (map (\<lambda>p. p\<lparr>Product_Category := None\<rparr>)
                   (take (unat limit) (drop (unat ((skip - 1) * limit))
                      (sort_key Product_ID (products w)))))
       \<and> fst (ListOrders_repo skip limit w)
           = Inr (take (unat limit) (drop (unat skip) (sort_key ID (orders w)))))
   \<and> (\<forall>e. fst (cache_Get (GenerateCacheKey cd ''orders''
                  (Str (GenerateCacheKeyParams cd [Uint64 skip, Uint64 limit]))) w) = Inl e
         \<longrightarrow> (\<exists>cs. calls (snd (ListOrders cd skip limit w))
                = calls w @ [Cache_Get (GenerateCacheKey cd ''orders''
                               (Str (GenerateCacheKeyParams cd [Uint64 skip, Uint64 limit]))),
                             OrderRepo_ListOrders skip limit] @ cs))
   \<and> (\<forall>e. fst (cache_Get (GenerateCacheKey cd ''products''
                  (Str (GenerateCacheKeyParams cd
                          [Uint64 skip, Uint64 limit, IdOf categoryId, Str search]))) w) = Inl e
         \<longrightarrow> (\<exists>cs. calls (snd (ProductService_ListProducts ilike cd search categoryId skip limit w))
                = calls w @ [Cache_Get (GenerateCacheKey cd ''products''
                               (Str (GenerateCacheKeyParams cd
                                  [Uint64 skip, Uint64 limit, IdOf categoryId, Str search]))),
                             ProductRepo_ListProducts search categoryId skip limit] @ cs))
   \<and> q_offset (ListProducts_query search categoryId 1 limit) = 0
   \<and> (1 \<le> unat skip \<and> 3 \<le> unat limit \<and> unat skip * unat limit < 2 ^ 64
         \<longrightarrow> q_offset (ListProducts_query search categoryId skip limit) \<noteq> skip)"
proof -
  have q: "q_offset (ListProducts_query search categoryId skip limit) = (skip - 1) * limit"
    "q_limit (ListProducts_query search categoryId skip limit) = limit"
    "q_offset (ListProducts_query search categoryId 1 limit) = 0"
    by (simp_all add: ListProducts_query_def)
  have p: "failure w = None \<longrightarrow>
         fst (ListProducts ilike search categoryId skip limit w)
           = Inr (map (\<lambda>p. p\<lparr>Product_Category := None\<rparr>)
                   (run_product_query ilike (ListProducts_query search categoryId skip limit) (products w)))
       \<and> fst (ListProducts ilike [] 0 skip limit w)
           = Inr (map (\<lambda>p. p\<lparr>Product_Category := None\<rparr>)
                   (take (unat limit) (drop (unat ((skip - 1) * limit))
                      (sort_key Product_ID (products w)))))
       \<and> fst (ListOrders_repo skip limit w)
           = Inr (take (unat limit) (drop (unat skip) (sort_key ID (orders w))))"
    using ListProducts_unfiltered [of w ilike skip limit] ListOrders_repo_page [of w skip limit]
    by (simp add: ListProducts_def)
  have d: "1 \<le> unat skip \<and> 3 \<le> unat limit \<and> unat skip * unat limit < 2 ^ 64
         \<longrightarrow> q_offset (ListProducts_query search categoryId skip limit) \<noteq> skip"
    using offsets_differ [of skip limit] by (simp only: q(1)) blast
  show ?thesis
    using q p d ListOrders_miss_calls [where cd = cd and skip = skip and limit = limit and w = w]
      ProductService_ListProducts_miss_calls [where cd = cd and skip = skip and limit = limit
        and categoryId = categoryId and search = search and w = w and ilike = ilike]
    by blast
qed

theorem pagination_offset_conventions_witness:
  "failure scenario_listing_world = None
   \<and> fst (ListProducts (\<lambda>s n. True) [] 0 1 5 scenario_listing_world)
       = Inr [(example_product 1 (Fin 5000) 100)\<lparr>Product_Category := None\<rparr>]
   \<and> fst (ListOrders_repo 1 5 scenario_listing_world) = Inr []
   \<and> fst (cache_Get (GenerateCacheKey example_codec ''orders''
          (Str (GenerateCacheKeyParams example_codec [Uint64 1, Uint64 5]))) scenario_listing_world)
       = Inl (ErrOther ''redis: nil'')
   \<and> (\<exists>cs. calls (snd (ListOrders example_codec 1 5 scenario_listing_world))
          = calls scenario_listing_world
            @ [Cache_Get (GenerateCacheKey example_codec ''orders''
                   (Str (GenerateCacheKeyParams example_codec [Uint64 1, Uint64 5]))),
               OrderRepo_ListOrders 1 5] @ cs)
   \<and> 1 \<le> unat (1 :: 64 word) \<and> 3 \<le> unat (5 :: 64 word)
   \<and> unat (1 :: 64 word) * unat (5 :: 64 word) < 2 ^ 64
   \<and> q_offset (ListProducts_query [] 0 1 5) = 0
   \<and> q_offset (ListProducts_query [] 0 1 5) \<noteq> 1"
proof -
  note t = pagination_offset_conventions [where w = scenario_listing_world and skip = 1
      and limit = 5 and search = "[]" and categoryId = 0 and cd = example_codec
      and ilike = "\<lambda>s n. True"]
  have n: "1 \<le> unat (1 :: 64 word)" "3 \<le> unat (5 :: 64 word)"
    "unat (1 :: 64 word) * unat (5 :: 64 word) < 2 ^ 64"
    by simp_all
  from t scenario_listing_failure
  have "fst (ListProducts (\<lambda>s n. True) [] 0 1 5 scenario_listing_world)
           = Inr (map (\<lambda>p. p\<lparr>Product_Category := None\<rparr>)
                   (take (unat (5 :: 64 word)) (drop (unat (((1 :: 64 word) - 1) * 5))
                      (sort_key Product_ID (products scenario_listing_world)))))"
    and "fst (ListOrders_repo 1 5 scenario_listing_world)
           = Inr (take (unat (5 :: 64 word)) (drop (unat (1 :: 64 word))
                   (sort_key ID (orders scenario_listing_world))))"
    by blast+
  then have r: "fst (ListProducts (\<lambda>s n. True) [] 0 1 5 scenario_listing_world)
       = Inr [(example_product 1 (Fin 5000) 100)\<lparr>Product_Category := None\<rparr>]"
    "fst (ListOrders_repo 1 5 scenario_listing_world) = Inr []"
    by (simp_all add: scenario_listing_tables)
  from t scenario_listing_miss
  have c: "\<exists>cs. calls (snd (ListOrders example_codec 1 5 scenario_listing_world))
          = calls scenario_listing_world
            @ [Cache_Get (GenerateCacheKey example_codec ''orders''
                   (Str (GenerateCacheKeyParams example_codec [Uint64 1, Uint64 5]))),
               OrderRepo_ListOrders 1 5] @ cs"
    by blast
  from t n have o: "q_offset (ListProducts_query [] 0 1 5) = 0"
    "q_offset (ListProducts_query [] 0 1 5) \<noteq> 1"
    by blast+
  show ?thesis using scenario_listing_failure r scenario_listing_miss c n o by blast
qed

text \<open>
  C10 (as amended). \<^verbatim>\<open>CreateOrder\<close> has no check that a quantity is positive. For a
  line with a negative quantity of a product whose stock is not negative, the stock check
  passes, and the line total is the float64 product of the price and the quantity: negative
  when the price is positive, zero when the price is zero. The pricing loop accepts the line
  and adds its total to the running total, and the total so obtained becomes the order's
  \<open>total_price\<close> when the other lines pass and enough was paid. For a price that is not
  negative the total of the lines up to this one never exceeds the total before it; with
  whole-number amounts below \<open>2^53\<close> it is lower by exactly price times the size of the
  quantity. The binding rules of \<^verbatim>\<open>qty\<close> accept every negative quantity. As stated the
  claim fails: for a product of price 0 the line total is 0, not negative, and the total is
  not reduced; and after a line total of \<open>2^60\<close> a line total of \<open>-1\<close> is absorbed by the
  rounding of the sum.
\<close>

theorem negative_quantity_line:
  assumes "find_product w (ProductID l) = Some p"
    and "0 \<le> Stock p"
    and "Quantity l < 0"
  shows "line_passes w l
       \<and> line_error w l = None
       \<and> line_total w l = fmul (Price p) (float64_of_int64 (Quantity l))
       \<and> (is_float64 (Price p) \<and> flt (Fin 0) (Price p) \<longrightarrow> flt (line_total w l) (Fin 0))
       \<and> (Price p = Fin 0 \<and> - (2 ^ 63) \<le> Quantity l \<longrightarrow> line_total w l = Fin 0)
       \<and> (\<not> flt (Price p) (Fin 0)
              \<longrightarrow> \<not> flt (Fin 0) (line_total w l)
                  \<and> \<not> flt (order_total w pre) (order_total w (pre @ [l])))
       \<and> order_total w (pre @ [l]) = fadd (order_total w pre) (line_total w l)
       \<and> order_total w (pre @ l # post)
            = foldl fadd (fadd (order_total w pre) (line_total w l)) (map (line_total w) post)
       \<and> (\<forall>t m. order_total w pre = Fin (of_int t) \<and> Price p = Fin (of_int m) \<and> 0 < m
                \<and> \<bar>m * Quantity l\<bar> < 2 ^ 53 \<and> \<bar>t + m * Quantity l\<bar> < 2 ^ 53
              \<longrightarrow> line_total w l = Fin (of_int (m * Quantity l))
                  \<and> order_total w (pre @ [l]) = Fin (of_int (t + m * Quantity l))
                  \<and> flt (order_total w (pre @ [l])) (order_total w pre))
       \<and> (Products ord = pre @ l # post \<and> answers w (length (Products ord))
            \<and> list_all (line_passes w) pre \<and> list_all (line_passes w) post
            \<and> \<not> flt (TotalPaid ord) (order_total w (Products ord))
              \<longrightarrow> fst (CreateOrder_price ord w) = Inr (priced_order w ord)
                  \<and> TotalPrice (priced_order w ord) = order_total w (pre @ l # post))
       \<and> (1 \<le> ProductID l \<longrightarrow> orderProductRequest_binding (ProductID l) (Quantity l))"
proof -
  have pass: "line_passes w l" using assms by (simp add: line_passes_def)
  then have err: "line_error w l = None" by (simp add: line_passes_iff)
  have tot: "line_total w l = fmul (Price p) (float64_of_int64 (Quantity l))"
    using assms(1) by (simp add: line_total_def)
  have neg: "is_float64 (Price p) \<and> flt (Fin 0) (Price p) \<longrightarrow> flt (line_total w l) (Fin 0)"
    unfolding tot using fmul_positive_negative [of "Price p" "Quantity l"] assms(3) by blast
  have zero: "Price p = Fin 0 \<and> - (2 ^ 63) \<le> Quantity l \<longrightarrow> line_total w l = Fin 0"
  proof
    assume h: "Price p = Fin 0 \<and> - (2 ^ 63) \<le> Quantity l"
    then have "Quantity l < 2 ^ 63" using assms(3) by simp
    with h float64_of_int64_finite [of "Quantity l"] obtain v
      where "float64_of_int64 (Quantity l) = Fin v" by blast
    then show "line_total w l = Fin 0" using h by (simp only: tot fmul_zero)
  qed
  have never: "\<not> flt (Price p) (Fin 0)
              \<longrightarrow> \<not> flt (Fin 0) (line_total w l)
                  \<and> \<not> flt (order_total w pre) (order_total w (pre @ [l]))"
  proof
    assume h: "\<not> flt (Price p) (Fin 0)"
    have n: "\<not> flt (Fin 0) (line_total w l)"
      unfolding tot using h assms(3) by (rule fmul_nonneg_negative)
    have "\<not> flt (order_total w pre) (order_total w (pre @ [l]))"
      unfolding order_total_snoc using is_float64_order_total n by (rule fadd_nonpos)
    with n show "\<not> flt (Fin 0) (line_total w l)
                  \<and> \<not> flt (order_total w pre) (order_total w (pre @ [l]))"
      by blast
  qed
  have ints: "\<forall>t m. order_total w pre = Fin (of_int t) \<and> Price p = Fin (of_int m) \<and> 0 < m
                \<and> \<bar>m * Quantity l\<bar> < 2 ^ 53 \<and> \<bar>t + m * Quantity l\<bar> < 2 ^ 53
              \<longrightarrow> line_total w l = Fin (of_int (m * Quantity l))
                  \<and> order_total w (pre @ [l]) = Fin (of_int (t + m * Quantity l))
                  \<and> flt (order_total w (pre @ [l])) (order_total w pre)"
  proof (intro allI impI)
    fix t m
    assume h: "order_total w pre = Fin (of_int t) \<and> Price p = Fin (of_int m) \<and> 0 < m
                \<and> \<bar>m * Quantity l\<bar> < 2 ^ 53 \<and> \<bar>t + m * Quantity l\<bar> < 2 ^ 53"
    then have m: "0 < m" and b1: "\<bar>m * Quantity l\<bar> < 2 ^ 53" and b2: "\<bar>t + m * Quantity l\<bar> < 2 ^ 53"
      by simp_all
    have lt: "line_total w l = Fin (of_int (m * Quantity l))"
      using h fmul_of_int [OF m b1] by (simp only: tot)
    have ot: "order_total w (pre @ [l]) = Fin (of_int (t + m * Quantity l))"
      using h fadd_of_int [OF b2] by (simp only: order_total_snoc lt)
    have "m * Quantity l < 0" using m assms(3) by (simp add: mult_less_0_iff)
    then have "t + m * Quantity l < t" by simp
    then have "rat_of_int (t + m * Quantity l) < rat_of_int t" by (simp only: of_int_less_iff)
    then have "flt (order_total w (pre @ [l])) (order_total w pre)" using h by (simp only: ot flt.simps)
    with lt ot show "line_total w l = Fin (of_int (m * Quantity l))
                  \<and> order_total w (pre @ [l]) = Fin (of_int (t + m * Quantity l))
                  \<and> flt (order_total w (pre @ [l])) (order_total w pre)"
      by blast
  qed
  have price: "Products ord = pre @ l # post \<and> answers w (length (Products ord))
            \<and> list_all (line_passes w) pre \<and> list_all (line_passes w) post
            \<and> \<not> flt (TotalPaid ord) (order_total w (Products ord))
              \<longrightarrow> fst (CreateOrder_price ord w) = Inr (priced_order w ord)
                  \<and> TotalPrice (priced_order w ord) = order_total w (pre @ l # post)"
  proof
    assume h: "Products ord = pre @ l # post \<and> answers w (length (Products ord))
            \<and> list_all (line_passes w) pre \<and> list_all (line_passes w) post
            \<and> \<not> flt (TotalPaid ord) (order_total w (Products ord))"
    then have all: "list_all (line_passes w) (Products ord)" using pass by simp
    from h have a: "answers w (length (Products ord))"
      and paid: "\<not> flt (TotalPaid ord) (order_total w (Products ord))" by blast+
    from CreateOrder_price_pass [OF a all paid] h
    show "fst (CreateOrder_price ord w) = Inr (priced_order w ord)
                  \<and> TotalPrice (priced_order w ord) = order_total w (pre @ l # post)"
      by simp
  qed
  have bind: "1 \<le> ProductID l \<longrightarrow> orderProductRequest_binding (ProductID l) (Quantity l)"
    using assms(3)
    by (simp add: orderProductRequest_binding_def validate_required_def validate_min_def
          validate_number_def)
  show ?thesis
    using pass err tot neg zero never order_total_snoc [of w pre l]
      order_total_insert [of w pre l post] ints price bind
    by blast
qed

theorem negative_quantity_line_counterexample:
  "find_product free_scenario_world (ProductID (example_line 1 (- 1)))
     = Some (example_product 1 (Fin 0) 100)
   \<and> 0 \<le> Stock (example_product 1 (Fin 0) 100)
   \<and> Quantity (example_line 1 (- 1)) < 0
   \<and> line_passes free_scenario_world (example_line 1 (- 1))
   \<and> line_total free_scenario_world (example_line 1 (- 1)) = Fin 0
   \<and> \<not> flt (line_total free_scenario_world (example_line 1 (- 1))) (Fin 0)
   \<and> order_total free_scenario_world [example_line 1 2] = Fin 0
   \<and> order_total free_scenario_world [example_line 1 2, example_line 1 (- 1)] = Fin 0
   \<and> \<not> flt (order_total free_scenario_world [example_line 1 2, example_line 1 (- 1)])
            (order_total free_scenario_world [example_line 1 2])
   \<and> find_product large_scenario_world (ProductID (example_line 2 (- 1)))
        = Some (example_product 2 (Fin 1) 100)
   \<and> line_passes large_scenario_world (example_line 2 (- 1))
   \<and> line_total large_scenario_world (example_line 2 (- 1)) = Fin (- 1)
   \<and> order_total large_scenario_world [example_line 1 1] = Fin 1152921504606846976
   \<and> order_total large_scenario_world [example_line 1 1, example_line 2 (- 1)]
        = Fin 1152921504606846976
   \<and> \<not> flt (order_total large_scenario_world [example_line 1 1, example_line 2 (- 1)])
            (order_total large_scenario_world [example_line 1 1])"
  by (simp add: free_scenario_find_product free_scenario_line_total line_passes_def order_total_def
        large_scenario_find_product large_scenario_line_totals rnd_big rnd_absorbs)

theorem negative_quantity_line_witness:
  "find_product scenario_world (ProductID (example_line 1 (- 1)))
     = Some (example_product 1 (Fin 5000) 100)
   \<and> 0 \<le> Stock (example_product 1 (Fin 5000) 100)
   \<and> Quantity (example_line 1 (- 1)) < 0
   \<and> line_passes scenario_world (example_line 1 (- 1))
   \<and> is_float64 (Price (example_product 1 (Fin 5000) 100))
   \<and> flt (Fin 0) (Price (example_product 1 (Fin 5000) 100))
   \<and> line_total scenario_world (example_line 1 (- 1)) = Fin (- 5000)
   \<and> flt (line_total scenario_world (example_line 1 (- 1))) (Fin 0)
   \<and> order_total scenario_world [example_line 1 2] = Fin 10000
   \<and> order_total scenario_world ([example_line 1 2] @ [example_line 1 (- 1)]) = Fin 5000
   \<and> flt (order_total scenario_world ([example_line 1 2] @ [example_line 1 (- 1)]))
          (order_total scenario_world [example_line 1 2])
   \<and> Products negative_draft = [example_line 1 2] @ example_line 1 (- 1) # []
   \<and> fst (CreateOrder_price negative_draft scenario_world)
        = Inr (priced_order scenario_world negative_draft)
   \<and> TotalPrice (priced_order scenario_world negative_draft) = Fin 5000
   \<and> fst (CreateOrder example_codec negative_draft scenario_world)
        = Inr (created_order scenario_world negative_draft)
   \<and> TotalPrice (created_order scenario_world negative_draft) = Fin 5000
   \<and> 1 \<le> ProductID (example_line 1 (- 1))
   \<and> orderProductRequest_binding (ProductID (example_line 1 (- 1))) (Quantity (example_line 1 (- 1)))
   \<and> \<not> flt (Price (example_product 1 (Fin 5000) 100)) (Fin 0)
   \<and> \<not> flt (order_total scenario_world [example_line 1 2])
            (order_total scenario_world ([example_line 1 2] @ [example_line 1 (- 1)]))"
proof -
  have f: "find_product scenario_world (ProductID (example_line 1 (- 1)))
     = Some (example_product 1 (Fin 5000) 100)"
    by (simp add: scenario_find_product)
  have s: "0 \<le> Stock (example_product 1 (Fin 5000) 100)" by simp
  have q: "Quantity (example_line 1 (- 1)) < 0" by simp
  note t = negative_quantity_line [OF f s q, where pre = "[example_line 1 2]" and post = "[]"
      and ord = negative_draft]
  have fl: "is_float64 (Price (example_product 1 (Fin 5000) 100))"
    "flt (Fin 0) (Price (example_product 1 (Fin 5000) 100))"
    by simp_all
  have o: "order_total scenario_world [example_line 1 2] = Fin (of_int 10000)"
    using scenario_line_total [of 2] by (simp add: order_total_def)
  have pr: "Price (example_product 1 (Fin 5000) 100) = Fin (of_int 5000)" by simp
  have n: "(0::int) < 5000" "\<bar>5000 * Quantity (example_line 1 (- 1))\<bar> < 2 ^ 53"
    "\<bar>10000 + 5000 * Quantity (example_line 1 (- 1))\<bar> < 2 ^ 53"
    by simp_all
  from t have p1: "line_passes scenario_world (example_line 1 (- 1))" by blast
  from t fl have p2: "flt (line_total scenario_world (example_line 1 (- 1))) (Fin 0)" by blast
  from t o pr n
  have "line_total scenario_world (example_line 1 (- 1))
          = Fin (of_int (5000 * Quantity (example_line 1 (- 1))))
      \<and> order_total scenario_world ([example_line 1 2] @ [example_line 1 (- 1)])
          = Fin (of_int (10000 + 5000 * Quantity (example_line 1 (- 1))))
      \<and> flt (order_total scenario_world ([example_line 1 2] @ [example_line 1 (- 1)]))
          (order_total scenario_world [example_line 1 2])"
    by blast
  then have c: "line_total scenario_world (example_line 1 (- 1))
          = Fin (of_int (5000 * Quantity (example_line 1 (- 1))))"
    "order_total scenario_world ([example_line 1 2] @ [example_line 1 (- 1)])
          = Fin (of_int (10000 + 5000 * Quantity (example_line 1 (- 1))))"
    "flt (order_total scenario_world ([example_line 1 2] @ [example_line 1 (- 1)]))
          (order_total scenario_world [example_line 1 2])"
    by blast+
  have e: "rat_of_int (5000 * Quantity (example_line 1 (- 1))) = - 5000"
    "rat_of_int (10000 + 5000 * Quantity (example_line 1 (- 1))) = 5000"
    by simp_all
  have p3: "line_total scenario_world (example_line 1 (- 1)) = Fin (- 5000)"
    "order_total scenario_world ([example_line 1 2] @ [example_line 1 (- 1)]) = Fin 5000"
    "flt (order_total scenario_world ([example_line 1 2] @ [example_line 1 (- 1)]))
          (order_total scenario_world [example_line 1 2])"
    using c(1) [unfolded e] c(2) [unfolded e] c(3) by - assumption+
  have d: "Products negative_draft = [example_line 1 2] @ example_line 1 (- 1) # []"
    by (simp add: negative_draft_def)
  have a: "answers scenario_world (length (Products negative_draft))" by (rule scenario_answers)
  have lp: "list_all (line_passes scenario_world) [example_line 1 2]"
    "list_all (line_passes scenario_world) []"
    by (simp_all add: scenario_line_passes)
  have paid: "\<not> flt (TotalPaid negative_draft) (order_total scenario_world (Products negative_draft))"
    by (simp add: negative_order_total) (simp add: negative_draft_def)
  from t d a lp paid
  have p4: "fst (CreateOrder_price negative_draft scenario_world)
        = Inr (priced_order scenario_world negative_draft)"
    by blast
  have p5: "TotalPrice (priced_order scenario_world negative_draft) = Fin 5000"
    "TotalPrice (created_order scenario_world negative_draft) = Fin 5000"
    by (simp_all add: negative_order_total)
  have b0: "1 \<le> ProductID (example_line 1 (- 1))" by simp
  with t have p6: "orderProductRequest_binding (ProductID (example_line 1 (- 1)))
      (Quantity (example_line 1 (- 1)))"
    by blast
  have o': "order_total scenario_world [example_line 1 2] = Fin 10000" using o by simp
  have nn: "\<not> flt (Price (example_product 1 (Fin 5000) 100)) (Fin 0)" by simp
  with t have p7: "\<not> flt (order_total scenario_world [example_line 1 2])
            (order_total scenario_world ([example_line 1 2] @ [example_line 1 (- 1)]))"
    by blast
  show ?thesis
    using f s q p1 fl p2 p3 o' d p4 p5 negative_created b0 p6 nn p7 by blast
qed

end
